theory Spec2Isabelle
  imports Complex_Main "HOL-Library.Monad_Syntax"
begin

section \<open>The 3D sparse pose graph (mapping\_3d/sparse\_pose\_graph.cc)\<close>

text \<open>
  A shallow embedding of \<^verbatim>\<open>cartographer::mapping_3d::SparsePoseGraph\<close>. The members of
  the class are the fields of the record \<open>SparsePoseGraph\<close>; every member function takes the
  object and returns the updated object. A failed \<^verbatim>\<open>CHECK\<close> (glog aborts the process), an
  out-of-range \<^verbatim>\<open>.at()\<close> (\<^verbatim>\<open>std::out_of_range\<close>, never caught) and a null
  dereference are the value \<open>None\<close>.
\<close>

subsection \<open>Rigid transforms\<close>

text \<open>
  \<^verbatim>\<open>transform::Rigid3d\<close> is declared outside the translated file. The pose graph uses three
  operations of it: the product \<^verbatim>\<open>a * b\<close>, \<^verbatim>\<open>a.inverse()\<close> and
  \<^verbatim>\<open>Rigid3d::Identity()\<close>. The embedding is polymorphic in the type \<open>'p\<close> of poses, of sort
  \<open>{times, one, inverse}\<close>: \<open>a * b\<close>, \<open>inverse a\<close> and \<open>1\<close> stand for the three
  operations, and no law about them is assumed.
\<close>

text \<open>
  Modelled from the spec: the type \<open>Rigid3d\<close> below is one such pose type, "rigid 3D
  transforms (unit quaternion + translation)" over the reals; it is missing from the
  translated sources and is used for the concrete inputs only.
\<close>

type_synonym Vector3d = "real \<times> real \<times> real"

type_synonym Quaterniond = "real \<times> real \<times> real \<times> real"

fun vector_add :: "Vector3d \<Rightarrow> Vector3d \<Rightarrow> Vector3d" where
  "vector_add (a, b, c) (x, y, z) = (a + x, b + y, c + z)"

fun vector_neg :: "Vector3d \<Rightarrow> Vector3d" where
  "vector_neg (a, b, c) = (- a, - b, - c)"

fun quaternion_mult :: "Quaterniond \<Rightarrow> Quaterniond \<Rightarrow> Quaterniond" where
  "quaternion_mult (a, b, c, d) (w, x, y, z) =
     (a * w - b * x - c * y - d * z,
      a * x + b * w + c * z - d * y,
      a * y - b * z + c * w + d * x,
      a * z + b * y - c * x + d * w)"

fun conjugate :: "Quaterniond \<Rightarrow> Quaterniond" where
  "conjugate (w, x, y, z) = (w, - x, - y, - z)"

fun rotate :: "Quaterniond \<Rightarrow> Vector3d \<Rightarrow> Vector3d" where
  "rotate q (x, y, z) = snd (quaternion_mult (quaternion_mult q (0, x, y, z)) (conjugate q))"

datatype Rigid3d = Rigid3d (translation: Vector3d) (rotation: Quaterniond)

instantiation Rigid3d :: "{one, times, inverse}"
begin

definition one_Rigid3d :: Rigid3d where
  "one_Rigid3d = Rigid3d (0, 0, 0) (1, 0, 0, 0)"

definition times_Rigid3d :: "Rigid3d \<Rightarrow> Rigid3d \<Rightarrow> Rigid3d" where
  "times_Rigid3d lhs rhs =
     Rigid3d (vector_add (rotate (rotation lhs) (translation rhs)) (translation lhs))
             (quaternion_mult (rotation lhs) (rotation rhs))"

definition inverse_Rigid3d :: "Rigid3d \<Rightarrow> Rigid3d" where
  "inverse_Rigid3d a =
     Rigid3d (vector_neg (rotate (conjugate (rotation a)) (translation a)))
             (conjugate (rotation a))"

definition divide_Rigid3d :: "Rigid3d \<Rightarrow> Rigid3d \<Rightarrow> Rigid3d" where
  "divide_Rigid3d a b = a * inverse b"

instance ..

end

subsection \<open>Data model\<close>

type_synonym Time = int

text \<open>A 6x6 matrix of doubles (\<^verbatim>\<open>kalman_filter::PoseCovariance\<close>), as its rows.\<close>

type_synonym PoseCovariance = "real list list"

text \<open>
  \<^verbatim>\<open>const Submap*\<close> and \<^verbatim>\<open>const Submaps*\<close> are addresses: the maps of the class are
  keyed by pointer identity. Trajectory ids, submap indices and node indices are \<^verbatim>\<open>int\<close>s
  that the code takes from container sizes and counters that start at 0; they are natural
  numbers here (\<^verbatim>\<open>CHECK_GE(trajectory_id, 0)\<close> holds), and \<^verbatim>\<open>AddScan\<close> checks that the
  number of scans stays below \<^verbatim>\<open>INT_MAX\<close>.
\<close>

type_synonym Submap_ptr = nat

type_synonym Submaps_ptr = nat

datatype SubmapId = SubmapId (trajectory_id: nat) (submap_index: nat)

datatype NodeId = NodeId (trajectory_id: nat) (node_index: nat)

datatype Tag = INTRA_SUBMAP | INTER_SUBMAP

text \<open>
  \<^verbatim>\<open>Constraint{submap_id, node_id, {transform, sqrt_information}, tag}\<close>; the nested
  pose struct is flattened into \<open>relative_transform\<close> and \<open>sqrt_information\<close>.
\<close>

record 'p Constraint =
  submap_id :: SubmapId
  node_id :: NodeId
  relative_transform :: 'p
  sqrt_information :: PoseCovariance
  tag :: Tag

text \<open>
  \<^verbatim>\<open>TrajectoryNode::ConstantData{time, range_data_2d, range_data_3d, trajectory_id,
  tracking_to_pose}\<close>. The two range data fields are payload that the pose graph only
  stores (the second through \<^verbatim>\<open>sensor::Compress\<close>); they are kept as one opaque value.
\<close>

record 'p ConstantData =
  time :: Time
  range_data_3d :: "Vector3d list"
  trajectory_id :: nat
  tracking_to_pose :: 'p

record 'p TrajectoryNode =
  constant_data :: "'p ConstantData"
  pose :: 'p

record SubmapState =
  submap :: Submap_ptr
  node_ids :: "NodeId set"
  finished :: bool

datatype 'p SubmapData = SubmapData (pose: 'p)

datatype 'p NodeData = NodeData (time: Time) (point_cloud_pose: 'p)

datatype ImuData = ImuData (time: Time) (linear_acceleration: Vector3d) (angular_velocity: Vector3d)

text \<open>
  The state of \<^verbatim>\<open>sparse_pose_graph::OptimizationProblem\<close> that the pose graph reads and
  writes. \<open>num_solves\<close> counts the calls of \<^verbatim>\<open>Solve\<close>; it is instrumentation, so that
  "the solver is not invoked" can be stated.
\<close>

record 'p OptimizationProblem =
  submap_data :: "'p SubmapData list list"
  node_data :: "'p NodeData list list"
  imu_data :: "ImuData list list"
  max_num_iterations :: int
  num_solves :: nat

text \<open>
  The constraint builder is a log of the calls made to it and the queue of callbacks
  registered with \<^verbatim>\<open>WhenDone\<close>, which it invokes once its pipeline is idle.
\<close>

datatype 'p ConstraintBuilderCall =
    MaybeAddConstraint SubmapId Submap_ptr NodeId nat 'p
  | MaybeAddGlobalConstraint SubmapId Submap_ptr NodeId nat
  | NotifyEndOfScan nat

datatype WhenDoneCallback = HandleScanQueueCallback

record 'p ConstraintBuilder =
  calls :: "'p ConstraintBuilderCall list"
  when_done :: "WhenDoneCallback list"

text \<open>
  \<^verbatim>\<open>common::FixedRatioSampler\<close>: its ratio and the number of pulses so far. Whether a
  pulse fires is decided by the parameter \<open>Pulse\<close> below.
\<close>

record FixedRatioSampler =
  ratio :: real
  num_pulses :: nat

text \<open>
  \<^verbatim>\<open>mapping::TrajectoryConnectivity\<close>: the trajectories added and the pairs the matcher
  has connected.
\<close>

record TrajectoryConnectivity =
  added :: "nat list"
  connected :: "(nat \<times> nat) list"

text \<open>
  The closures passed to \<^verbatim>\<open>AddWorkItem\<close>, with the values they capture: the call of
  \<^verbatim>\<open>ComputeConstraintsForScan\<close> made by \<^verbatim>\<open>AddScan\<close>, and the call of the
  optimization problem's \<^verbatim>\<open>AddImuData\<close> made by \<^verbatim>\<open>AddImuData\<close>.
\<close>

datatype 'p WorkItem =
    ComputeConstraintsForScanItem nat Submap_ptr "Submap_ptr list" "Submap_ptr option"
      'p PoseCovariance
  | AddImuDataItem Submaps_ptr Time Vector3d Vector3d

record SparsePoseGraphOptions =
  optimize_every_n_scans :: int
  max_num_final_iterations :: int
  global_sampling_ratio :: real
  lower_covariance_eigenvalue_bound :: real
  ceres_max_num_iterations :: int

text \<open>
  The members of the class. \<^verbatim>\<open>scan_queue_\<close> is a \<^verbatim>\<open>unique_ptr\<close> to a deque (\<open>None\<close>
  is the null pointer). \<^verbatim>\<open>trajectory_ids_\<close> is a map whose \<^verbatim>\<open>size()\<close> is read, kept
  as an association list in insertion order; the other maps are partial functions,
  \<^verbatim>\<open>num_nodes_in_trajectory_\<close> with \<^verbatim>\<open>operator[]\<close>'s default \<open>0\<close>.
  \<^verbatim>\<open>constant_node_data_\<close> is reached through the nodes' \<open>constant_data\<close>. The fields
  are named as the members without the trailing underscore, which a name cannot have.
\<close>

record 'p SparsePoseGraph =
  options :: SparsePoseGraphOptions
  scan_queue :: "'p WorkItem list option"
  num_scans_since_last_loop_closure :: int
  run_loop_closure :: bool
  optimization_problem :: "'p OptimizationProblem"
  constraint_builder :: "'p ConstraintBuilder"
  constraints :: "'p Constraint list"
  trajectory_ids :: "(Submaps_ptr \<times> nat) list"
  trajectory_nodes :: "'p TrajectoryNode list"
  scan_index_to_node_id :: "NodeId list"
  num_nodes_in_trajectory :: "nat \<Rightarrow> nat"
  submap_ids :: "Submap_ptr \<rightharpoonup> SubmapId"
  submap_states :: "SubmapState list list"
  optimized_submap_transforms :: "'p SubmapData list list"
  connected_components :: "nat list list"
  reverse_connected_components :: "nat \<rightharpoonup> nat"
  global_localization_samplers :: "nat \<rightharpoonup> FixedRatioSampler"
  trajectory_connectivity :: TrajectoryConnectivity

text \<open>
  What the pose graph consumes from outside the translated file, taken as parameters:
  \<^item> \<open>local_pose p\<close>: \<^verbatim>\<open>p->local_pose()\<close> of the submap at address \<open>p\<close> (a const member);
  \<^item> \<open>Get t i\<close>: \<^verbatim>\<open>t->Get(i)\<close>, the \<open>i\<close>-th submap of the trajectory at address \<open>t\<close>;
  \<^item> \<open>ComputeSpdMatrixSqrtInverse\<close> of \<^verbatim>\<open>common/math.h\<close>;
  \<^item> \<open>Pulse r n\<close>: whether the pulse after \<open>n\<close> earlier ones of a sampler of ratio \<open>r\<close> fires;
  \<^item> \<open>Solve cs p\<close>: the submap and node data of the optimization problem \<open>p\<close> after
    \<^verbatim>\<open>Solve(cs)\<close>;
  \<^item> \<open>ConnectedComponents\<close> of the trajectory connectivity.
\<close>

record 'p Externals =
  local_pose :: "Submap_ptr \<Rightarrow> 'p"
  Get :: "Submaps_ptr \<Rightarrow> nat \<Rightarrow> Submap_ptr"
  ComputeSpdMatrixSqrtInverse :: "PoseCovariance \<Rightarrow> real \<Rightarrow> PoseCovariance"
  Pulse :: "real \<Rightarrow> nat \<Rightarrow> bool"
  Solve :: "'p Constraint list \<Rightarrow> 'p OptimizationProblem \<Rightarrow>
            'p SubmapData list list \<times> 'p NodeData list list"
  ConnectedComponents :: "TrajectoryConnectivity \<Rightarrow> nat list list"

subsection \<open>Checks and container accesses\<close>

definition CHECK :: "bool \<Rightarrow> unit option" where
  "CHECK b = (if b then Some () else None)"

text \<open>\<^verbatim>\<open>std::vector::at\<close>: out of range is an exception (\<open>at\<close> is a constant of HOL).\<close>

definition vector_at :: "'a list \<Rightarrow> nat \<Rightarrow> 'a option" where
  "vector_at xs i = (if i < length xs then Some (xs ! i) else None)"

text \<open>\<^verbatim>\<open>std::map::emplace\<close> on the association list: no effect when the key is present.\<close>

definition emplace :: "('k \<times> 'v) list \<Rightarrow> 'k \<Rightarrow> 'v \<Rightarrow> ('k \<times> 'v) list" where
  "emplace m k v = (if map_of m k = None then m @ [(k, v)] else m)"

subsection \<open>Submap transforms and the local-to-global transform\<close>

text \<open>
  One iteration of the loop of \<^verbatim>\<open>ExtrapolateSubmapTransforms\<close> over the submap states
  \<open>states\<close> of the trajectory; \<open>result\<close> is the vector built so far. The accesses are in
  range by the tests in front of them, and \<open>length result - 1\<close> by the number of
  iterations made (lemma \<open>ExtrapolateLoop_length\<close>).
\<close>

definition ExtrapolateStep ::
  "'p::{times, one, inverse} Externals \<Rightarrow> SubmapState list \<Rightarrow> 'p SubmapData list list \<Rightarrow> nat \<Rightarrow>
   'p list \<Rightarrow> SubmapState \<Rightarrow> 'p list" where
  "ExtrapolateStep ext states submap_transforms traj_id result state =
     (if traj_id < length submap_transforms \<and>
         length result < length (submap_transforms ! traj_id)
      then result @ [SubmapData.pose (submap_transforms ! traj_id ! length result)]
      else if result = [] then result @ [1]
      else result @ [last result *
                     inverse (local_pose ext (submap (states ! (length result - 1)))) *
                     local_pose ext (submap state)])"

definition ExtrapolateLoop ::
  "'p::{times, one, inverse} Externals \<Rightarrow> SubmapState list \<Rightarrow> 'p SubmapData list list \<Rightarrow> nat \<Rightarrow>
   'p list \<Rightarrow> SubmapState list \<Rightarrow> 'p list" where
  "ExtrapolateLoop ext states submap_transforms traj_id result rest =
     foldl (ExtrapolateStep ext states submap_transforms traj_id) result rest"

definition ExtrapolateSubmapTransforms ::
  "'p::{times, one, inverse} Externals \<Rightarrow> 'p SparsePoseGraph \<Rightarrow> 'p SubmapData list list \<Rightarrow> nat \<Rightarrow>
   'p list" where
  "ExtrapolateSubmapTransforms ext g submap_transforms traj_id =
     (if traj_id \<ge> length (submap_states g) then [1]
      else
        let states = submap_states g ! traj_id;
            result = ExtrapolateLoop ext states submap_transforms traj_id [] states
        in if result = [] then [1] else result)"

text \<open>\<^verbatim>\<open>GetSubmapTransforms(const mapping::Submaps*)\<close>.\<close>

definition GetSubmapTransforms ::
  "'p::{times, one, inverse} Externals \<Rightarrow> 'p SparsePoseGraph \<Rightarrow> Submaps_ptr \<Rightarrow> 'p list" where
  "GetSubmapTransforms ext g trajectory =
     (case map_of (trajectory_ids g) trajectory of
        None \<Rightarrow> [1]
      | Some traj_id \<Rightarrow>
          ExtrapolateSubmapTransforms ext g (optimized_submap_transforms g) traj_id)"

definition GetLocalToGlobalTransform ::
  "'p::{times, one, inverse} Externals \<Rightarrow> 'p SparsePoseGraph \<Rightarrow> Submaps_ptr \<Rightarrow> 'p" where
  "GetLocalToGlobalTransform ext g submaps =
     (let extrapolated_submap_transforms = GetSubmapTransforms ext g submaps
      in last extrapolated_submap_transforms *
         inverse (local_pose ext
                    (Get ext submaps (length extrapolated_submap_transforms - 1))))"

subsection \<open>The collaborators' operations\<close>

text \<open>
  In the functions below a local variable of the source that has the name of a field is
  renamed (\<open>traj_id\<close> for \<^verbatim>\<open>trajectory_id\<close>, \<open>scan_pose\<close> for \<^verbatim>\<open>pose\<close>, \<open>the_node_id\<close> for
  \<^verbatim>\<open>node_id\<close>, \<open>the_submap_id\<close> for \<^verbatim>\<open>submap_id\<close>, \<open>submap_ptr\<close> for \<^verbatim>\<open>submap\<close>).
\<close>

text \<open>
  \<^verbatim>\<open>v.resize(std::max(v.size(), n))\<close> on a vector of vectors.
\<close>

definition resize_max :: "'a list list \<Rightarrow> nat \<Rightarrow> 'a list list" where
  "resize_max v n = v @ replicate (n - length v) []"

text \<open>
  Modelled from the spec: \<^verbatim>\<open>OptimizationProblem::AddSubmap(traj, pose)\<close>,
  \<^verbatim>\<open>AddTrajectoryNode(traj, time, pose)\<close>, \<^verbatim>\<open>AddImuData(traj, time, accel, gyro)\<close> and
  \<^verbatim>\<open>SetMaxNumIterations(n)\<close> are missing from the translated sources. Each of the first
  three appends one entry to the series of the trajectory, which it creates when absent.
\<close>

definition AddSubmap :: "nat \<Rightarrow> 'p \<Rightarrow> 'p OptimizationProblem \<Rightarrow> 'p OptimizationProblem" where
  "AddSubmap traj_id submap_pose p =
     (let v = resize_max (submap_data p) (traj_id + 1)
      in p\<lparr>submap_data := v[traj_id := v ! traj_id @ [SubmapData submap_pose]]\<rparr>)"

definition AddTrajectoryNode ::
  "nat \<Rightarrow> Time \<Rightarrow> 'p \<Rightarrow> 'p OptimizationProblem \<Rightarrow> 'p OptimizationProblem" where
  "AddTrajectoryNode traj_id t node_pose p =
     (let v = resize_max (node_data p) (traj_id + 1)
      in p\<lparr>node_data := v[traj_id := v ! traj_id @ [NodeData t node_pose]]\<rparr>)"

definition AddImuData_problem ::
  "nat \<Rightarrow> Time \<Rightarrow> Vector3d \<Rightarrow> Vector3d \<Rightarrow> 'p OptimizationProblem \<Rightarrow> 'p OptimizationProblem" where
  "AddImuData_problem traj_id t acceleration velocity p =
     (let v = resize_max (imu_data p) (traj_id + 1)
      in p\<lparr>imu_data := v[traj_id := v ! traj_id @ [ImuData t acceleration velocity]]\<rparr>)"

definition SetMaxNumIterations :: "int \<Rightarrow> 'p OptimizationProblem \<Rightarrow> 'p OptimizationProblem" where
  "SetMaxNumIterations n p = p\<lparr>max_num_iterations := n\<rparr>"

text \<open>
  Modelled from the spec: the calls \<^verbatim>\<open>MaybeAddConstraint\<close>, \<^verbatim>\<open>MaybeAddGlobalConstraint\<close>,
  \<^verbatim>\<open>NotifyEndOfScan\<close> and \<^verbatim>\<open>WhenDone\<close> of the constraint builder are missing from the
  translated sources. A call "hands the job to the matcher": it is appended to the log;
  \<^verbatim>\<open>WhenDone\<close> registers the callback.
\<close>

definition Call :: "'p ConstraintBuilderCall \<Rightarrow> 'p SparsePoseGraph \<Rightarrow> 'p SparsePoseGraph" where
  "Call c g =
     g\<lparr>constraint_builder :=
         (constraint_builder g)\<lparr>calls := calls (constraint_builder g) @ [c]\<rparr>\<rparr>"

definition WhenDone :: "WhenDoneCallback \<Rightarrow> 'p SparsePoseGraph \<Rightarrow> 'p SparsePoseGraph" where
  "WhenDone callback g =
     g\<lparr>constraint_builder :=
         (constraint_builder g)\<lparr>when_done := when_done (constraint_builder g) @ [callback]\<rparr>\<rparr>"

text \<open>
  Modelled from the spec: \<^verbatim>\<open>GetSubmapId\<close> is defined in the header, which is missing from
  the translated sources: "a submap handle maps to a SubmapId via the registry"; a handle
  that was never registered is a failed check.
\<close>

definition GetSubmapId :: "'p SparsePoseGraph \<Rightarrow> Submap_ptr \<Rightarrow> SubmapId option" where
  "GetSubmapId g submap_ptr = submap_ids g submap_ptr"

text \<open>The constructor: every container empty, no queue, no optimization pending.\<close>

definition SparsePoseGraph_new :: "SparsePoseGraphOptions \<Rightarrow> 'p SparsePoseGraph" where
  "SparsePoseGraph_new opts =
     \<lparr>options = opts,
      scan_queue = None,
      num_scans_since_last_loop_closure = 0,
      run_loop_closure = False,
      optimization_problem =
        \<lparr>submap_data = [], node_data = [], imu_data = [],
         max_num_iterations = ceres_max_num_iterations opts, num_solves = 0\<rparr>,
      constraint_builder = \<lparr>calls = [], when_done = []\<rparr>,
      constraints = [],
      trajectory_ids = [],
      trajectory_nodes = [],
      scan_index_to_node_id = [],
      num_nodes_in_trajectory = (\<lambda>_. 0),
      submap_ids = Map.empty,
      submap_states = [],
      optimized_submap_transforms = [],
      connected_components = [],
      reverse_connected_components = Map.empty,
      global_localization_samplers = Map.empty,
      trajectory_connectivity = \<lparr>added = [], connected = []\<rparr>\<rparr>"

subsection \<open>GrowSubmapTransformsAsNeeded\<close>

definition GrowSubmapTransformsAsNeeded ::
  "'p::{times, one, inverse} Externals \<Rightarrow> Submap_ptr list \<Rightarrow> 'p SparsePoseGraph \<Rightarrow>
   'p SparsePoseGraph option" where
  "GrowSubmapTransformsAsNeeded ext insertion_submaps g = do {
     _ \<leftarrow> CHECK (insertion_submaps \<noteq> []);
     first_submap_id \<leftarrow> GetSubmapId g (insertion_submaps ! 0);
     let traj_id = SubmapId.trajectory_id first_submap_id;
     let data = submap_data (optimization_problem g);
     if length insertion_submaps = 1 then do {
       _ \<leftarrow> CHECK (submap_index first_submap_id = 0);
       if traj_id \<ge> length data \<or> data ! traj_id = []
       then Some (g\<lparr>optimization_problem := AddSubmap traj_id 1 (optimization_problem g)\<rparr>)
       else Some g
     } else do {
       _ \<leftarrow> CHECK (2 = length insertion_submaps);
       trajectory_data \<leftarrow> vector_at data traj_id;
       let next_submap_index = length trajectory_data;
       second_submap_id \<leftarrow> GetSubmapId g (insertion_submaps ! 1);
       _ \<leftarrow> CHECK (SubmapId.trajectory_id second_submap_id = traj_id);
       _ \<leftarrow> CHECK (submap_index second_submap_id \<le> next_submap_index);
       if submap_index second_submap_id = next_submap_index then do {
         first_submap_data \<leftarrow> vector_at trajectory_data (submap_index first_submap_id);
         let first_submap_pose = SubmapData.pose first_submap_data;
         Some (g\<lparr>optimization_problem :=
                  AddSubmap traj_id
                    (first_submap_pose *
                     inverse (local_pose ext (insertion_submaps ! 0)) *
                     local_pose ext (insertion_submaps ! 1))
                    (optimization_problem g)\<rparr>)
       } else Some g
     }
   }"

subsection \<open>ComputeConstraint and ComputeConstraintsForOldScans\<close>

text \<open>
  \<^verbatim>\<open>global_localization_samplers_[id]->Pulse()\<close>: the sampler counts the pulse; a
  trajectory without a sampler is a null dereference.
\<close>

definition PulseSampler ::
  "'p Externals \<Rightarrow> nat \<Rightarrow> 'p SparsePoseGraph \<Rightarrow> (bool \<times> 'p SparsePoseGraph) option" where
  "PulseSampler ext traj_id g = do {
     sampler \<leftarrow> global_localization_samplers g traj_id;
     Some (Pulse ext (ratio sampler) (num_pulses sampler),
           g\<lparr>global_localization_samplers :=
               (global_localization_samplers g)
                 (traj_id \<mapsto> sampler\<lparr>num_pulses := Suc (num_pulses sampler)\<rparr>)\<rparr>)
   }"

text \<open>
  \<^verbatim>\<open>submap_states_.at(id.trajectory_id).at(id.submap_index)\<close>.
\<close>

definition submap_state_at :: "'p SparsePoseGraph \<Rightarrow> SubmapId \<Rightarrow> SubmapState option" where
  "submap_state_at g the_submap_id = do {
     states \<leftarrow> vector_at (submap_states g) (SubmapId.trajectory_id the_submap_id);
     vector_at states (submap_index the_submap_id)
   }"

text \<open>
  The relative pose is computed in front of the branch, so its four accesses are made
  (and can fail) for a global match as well. The sampler is pulsed only when the two
  trajectories differ (\<^verbatim>\<open>&&\<close> evaluates its right operand only then).
\<close>

definition ComputeConstraint ::
  "'p::{times, one, inverse} Externals \<Rightarrow> nat \<Rightarrow> SubmapId \<Rightarrow> 'p SparsePoseGraph \<Rightarrow>
   'p SparsePoseGraph option" where
  "ComputeConstraint ext scan_index the_submap_id g = do {
     the_node_id \<leftarrow> vector_at (scan_index_to_node_id g) scan_index;
     trajectory_submaps \<leftarrow>
       vector_at (submap_data (optimization_problem g)) (SubmapId.trajectory_id the_submap_id);
     submap_datum \<leftarrow> vector_at trajectory_submaps (submap_index the_submap_id);
     trajectory_node_data \<leftarrow>
       vector_at (node_data (optimization_problem g)) (NodeId.trajectory_id the_node_id);
     node_datum \<leftarrow> vector_at trajectory_node_data (node_index the_node_id);
     let relative_pose = inverse (SubmapData.pose submap_datum) * point_cloud_pose node_datum;
     scan_node \<leftarrow> vector_at (trajectory_nodes g) scan_index;
     let scan_trajectory_id = ConstantData.trajectory_id (constant_data scan_node);
     (pulse, g1) \<leftarrow>
       (if scan_trajectory_id \<noteq> SubmapId.trajectory_id the_submap_id
        then PulseSampler ext scan_trajectory_id g
        else Some (False, g));
     if scan_trajectory_id \<noteq> SubmapId.trajectory_id the_submap_id \<and> pulse then do {
       state \<leftarrow> submap_state_at g1 the_submap_id;
       Some (Call (MaybeAddGlobalConstraint the_submap_id (submap state) the_node_id scan_index)
               g1)
     } else do {
       let scan_and_submap_trajectories_connected =
         (case (reverse_connected_components g1 scan_trajectory_id,
                reverse_connected_components g1 (SubmapId.trajectory_id the_submap_id)) of
            (Some a, Some b) \<Rightarrow> a = b
          | _ \<Rightarrow> False);
       if scan_trajectory_id = SubmapId.trajectory_id the_submap_id \<or>
          scan_and_submap_trajectories_connected
       then do {
         state \<leftarrow> submap_state_at g1 the_submap_id;
         Some (Call (MaybeAddConstraint the_submap_id (submap state) the_node_id scan_index
                       relative_pose) g1)
       } else Some g1
     }
   }"

text \<open>
  The loop of \<^verbatim>\<open>ComputeConstraintsForOldScans\<close> over the scan indices. \<^verbatim>\<open>submap_state\<close>
  is a reference into \<^verbatim>\<open>submap_states_\<close>, read at every iteration; the accesses were
  checked by \<^verbatim>\<open>.at()\<close> in front of the loop, and \<open>scan_index\<close> is below the size of
  \<^verbatim>\<open>scan_index_to_node_id_\<close>.
\<close>

fun ComputeConstraintsForOldScansLoop ::
  "'p::{times, one, inverse} Externals \<Rightarrow> SubmapId \<Rightarrow> nat list \<Rightarrow> 'p SparsePoseGraph \<Rightarrow>
   'p SparsePoseGraph option" where
  "ComputeConstraintsForOldScansLoop ext the_submap_id [] g = Some g"
| "ComputeConstraintsForOldScansLoop ext the_submap_id (scan_index # rest) g = do {
     let submap_state =
       submap_states g ! SubmapId.trajectory_id the_submap_id ! submap_index the_submap_id;
     g1 \<leftarrow> (if scan_index_to_node_id g ! scan_index \<notin> node_ids submap_state
            then ComputeConstraint ext scan_index the_submap_id g
            else Some g);
     ComputeConstraintsForOldScansLoop ext the_submap_id rest g1
   }"

definition ComputeConstraintsForOldScans ::
  "'p::{times, one, inverse} Externals \<Rightarrow> Submap_ptr \<Rightarrow> 'p SparsePoseGraph \<Rightarrow>
   'p SparsePoseGraph option" where
  "ComputeConstraintsForOldScans ext submap_ptr g = do {
     the_submap_id \<leftarrow> GetSubmapId g submap_ptr;
     _ \<leftarrow> submap_state_at g the_submap_id;
     let num_nodes = length (scan_index_to_node_id g);
     ComputeConstraintsForOldScansLoop ext the_submap_id [0..<num_nodes] g
   }"

subsection \<open>ComputeConstraintsForScan\<close>

text \<open>
  The loop over the insertion submaps: the check that the submap is not finished, the
  insertion of the node id, and the intra-submap constraint.
\<close>

fun InsertionSubmapsLoop ::
  "'p::{times, one, inverse} Externals \<Rightarrow> NodeId \<Rightarrow> 'p \<Rightarrow> PoseCovariance \<Rightarrow> Submap_ptr list \<Rightarrow>
   'p SparsePoseGraph \<Rightarrow> 'p SparsePoseGraph option" where
  "InsertionSubmapsLoop ext the_node_id scan_pose covariance [] g = Some g"
| "InsertionSubmapsLoop ext the_node_id scan_pose covariance (submap_ptr # rest) g = do {
     the_submap_id \<leftarrow> GetSubmapId g submap_ptr;
     state \<leftarrow> submap_state_at g the_submap_id;
     _ \<leftarrow> CHECK (\<not> finished state);
     let states = submap_states g ! SubmapId.trajectory_id the_submap_id;
     let g1 = g\<lparr>submap_states :=
                  (submap_states g)
                    [SubmapId.trajectory_id the_submap_id :=
                       states[submap_index the_submap_id :=
                                state\<lparr>node_ids := insert the_node_id (node_ids state)\<rparr>]]\<rparr>;
     let constraint_transform = inverse (local_pose ext submap_ptr) * scan_pose;
     let g2 = g1\<lparr>constraints :=
                   constraints g1 @
                   [\<lparr>submap_id = the_submap_id,
                     node_id = the_node_id,
                     relative_transform = constraint_transform,
                     sqrt_information =
                       ComputeSpdMatrixSqrtInverse ext covariance
                         (lower_covariance_eigenvalue_bound (options g1)),
                     tag = INTRA_SUBMAP\<rparr>]\<rparr>;
     InsertionSubmapsLoop ext the_node_id scan_pose covariance rest g2
   }"

text \<open>
  The ids visited by the two nested loops over \<^verbatim>\<open>submap_states_\<close>, in the order of the
  loops. The bounds are read at every iteration; the loop body (\<open>ComputeConstraint\<close>)
  does not write \<^verbatim>\<open>submap_states_\<close>.
\<close>

definition all_submap_ids :: "'p SparsePoseGraph \<Rightarrow> SubmapId list" where
  "all_submap_ids g =
     concat (map (\<lambda>traj_id. map (SubmapId traj_id) [0..<length (submap_states g ! traj_id)])
               [0..<length (submap_states g)])"

fun FinishedSubmapsLoop ::
  "'p::{times, one, inverse} Externals \<Rightarrow> nat \<Rightarrow> NodeId \<Rightarrow> SubmapId list \<Rightarrow> 'p SparsePoseGraph \<Rightarrow>
   'p SparsePoseGraph option" where
  "FinishedSubmapsLoop ext scan_index the_node_id [] g = Some g"
| "FinishedSubmapsLoop ext scan_index the_node_id (the_submap_id # rest) g = do {
     state \<leftarrow> submap_state_at g the_submap_id;
     g1 \<leftarrow> (if finished state then do {
              _ \<leftarrow> CHECK (the_node_id \<notin> node_ids state);
              ComputeConstraint ext scan_index the_submap_id g
            } else Some g);
     FinishedSubmapsLoop ext scan_index the_node_id rest g1
   }"

text \<open>
  \<^verbatim>\<open>HandleScanQueue\<close> registers its callback with the constraint builder; the body of the
  callback is \<open>HandleScanQueue_callback\<close> below.
\<close>

definition HandleScanQueue :: "'p SparsePoseGraph \<Rightarrow> 'p SparsePoseGraph" where
  "HandleScanQueue g = WhenDone HandleScanQueueCallback g"

text \<open>
  The end of \<^verbatim>\<open>ComputeConstraintsForScan\<close>, from \<^verbatim>\<open>NotifyEndOfScan\<close> on: the counter and
  the trigger of the optimization. The counter is an \<^verbatim>\<open>int\<close> incremented once per scan,
  and \<^verbatim>\<open>AddScan\<close> checks that there are fewer than \<^verbatim>\<open>INT_MAX\<close> scans, so it does not
  overflow.
\<close>

definition NotifyAndMaybeOptimize :: "nat \<Rightarrow> 'p SparsePoseGraph \<Rightarrow> 'p SparsePoseGraph option" where
  "NotifyAndMaybeOptimize scan_index g = do {
     let g1 = Call (NotifyEndOfScan scan_index) g;
     let g2 = g1\<lparr>num_scans_since_last_loop_closure :=
                   num_scans_since_last_loop_closure g1 + 1\<rparr>;
     if optimize_every_n_scans (options g2) > 0 \<and>
        num_scans_since_last_loop_closure g2 > optimize_every_n_scans (options g2)
     then do {
       _ \<leftarrow> CHECK (\<not> run_loop_closure g2);
       let g3 = g2\<lparr>run_loop_closure := True\<rparr>;
       if scan_queue g3 = None
       then Some (HandleScanQueue (g3\<lparr>scan_queue := Some []\<rparr>))
       else Some g3
     } else Some g2
   }"

text \<open>
  The block run when \<^verbatim>\<open>finished_submap\<close> is not null.
\<close>

definition FinishSubmap ::
  "'p::{times, one, inverse} Externals \<Rightarrow> Submap_ptr \<Rightarrow> 'p SparsePoseGraph \<Rightarrow>
   'p SparsePoseGraph option" where
  "FinishSubmap ext finished_submap g = do {
     finished_submap_id \<leftarrow> GetSubmapId g finished_submap;
     finished_submap_state \<leftarrow> submap_state_at g finished_submap_id;
     _ \<leftarrow> CHECK (\<not> finished finished_submap_state);
     g1 \<leftarrow> ComputeConstraintsForOldScans ext finished_submap g;
     let states = submap_states g1 ! SubmapId.trajectory_id finished_submap_id;
     Some (g1\<lparr>submap_states :=
                (submap_states g1)
                  [SubmapId.trajectory_id finished_submap_id :=
                     states[submap_index finished_submap_id :=
                              (states ! submap_index finished_submap_id)\<lparr>finished := True\<rparr>]]\<rparr>)
   }"

text \<open>
  The block of \<^verbatim>\<open>ComputeConstraintsForScan\<close> between the call of
  \<^verbatim>\<open>GrowSubmapTransformsAsNeeded\<close> and the loop over the insertion submaps: the pose of
  the scan from the matching submap, its node id, and its node in the optimization
  problem.
\<close>

definition AllocateNode ::
  "'p::{times, one, inverse} Externals \<Rightarrow> nat \<Rightarrow> Submap_ptr \<Rightarrow> 'p \<Rightarrow> 'p SparsePoseGraph \<Rightarrow>
   (NodeId \<times> 'p SparsePoseGraph) option" where
  "AllocateNode ext scan_index matching_submap scan_pose g1 = do {
     matching_id \<leftarrow> GetSubmapId g1 matching_submap;
     trajectory_submaps \<leftarrow>
       vector_at (submap_data (optimization_problem g1)) (SubmapId.trajectory_id matching_id);
     matching_data \<leftarrow> vector_at trajectory_submaps (submap_index matching_id);
     let optimized_pose =
       SubmapData.pose matching_data * inverse (local_pose ext matching_submap) * scan_pose;
     _ \<leftarrow> CHECK (scan_index = length (scan_index_to_node_id g1));
     let the_node_id =
       NodeId (SubmapId.trajectory_id matching_id)
              (num_nodes_in_trajectory g1 (SubmapId.trajectory_id matching_id));
     let g2 = g1\<lparr>scan_index_to_node_id := scan_index_to_node_id g1 @ [the_node_id],
                 num_nodes_in_trajectory :=
                   (num_nodes_in_trajectory g1)
                     (SubmapId.trajectory_id matching_id :=
                        num_nodes_in_trajectory g1 (SubmapId.trajectory_id matching_id) + 1)\<rparr>;
     scan_node \<leftarrow> vector_at (trajectory_nodes g2) scan_index;
     let scan_data = constant_data scan_node;
     _ \<leftarrow> CHECK (ConstantData.trajectory_id scan_data = SubmapId.trajectory_id matching_id);
     Some (the_node_id,
           g2\<lparr>optimization_problem :=
                AddTrajectoryNode (SubmapId.trajectory_id matching_id)
                  (ConstantData.time scan_data) optimized_pose (optimization_problem g2)\<rparr>)
   }"

definition ComputeConstraintsForScan ::
  "'p::{times, one, inverse} Externals \<Rightarrow> nat \<Rightarrow> Submap_ptr \<Rightarrow> Submap_ptr list \<Rightarrow>
   Submap_ptr option \<Rightarrow> 'p \<Rightarrow> PoseCovariance \<Rightarrow> 'p SparsePoseGraph \<Rightarrow>
   'p SparsePoseGraph option" where
  "ComputeConstraintsForScan ext scan_index matching_submap insertion_submaps finished_submap
     scan_pose covariance g = do {
     g1 \<leftarrow> GrowSubmapTransformsAsNeeded ext insertion_submaps g;
     (the_node_id, g3) \<leftarrow> AllocateNode ext scan_index matching_submap scan_pose g1;
     g4 \<leftarrow> InsertionSubmapsLoop ext the_node_id scan_pose covariance insertion_submaps g3;
     g5 \<leftarrow> FinishedSubmapsLoop ext scan_index the_node_id (all_submap_ids g4) g4;
     g6 \<leftarrow> (case finished_submap of
              None \<Rightarrow> Some g5
            | Some submap_ptr \<Rightarrow> FinishSubmap ext submap_ptr g5);
     NotifyAndMaybeOptimize scan_index g6
   }"

subsection \<open>Work items\<close>

fun RunWorkItem ::
  "'p::{times, one, inverse} Externals \<Rightarrow> 'p WorkItem \<Rightarrow> 'p SparsePoseGraph \<Rightarrow>
   'p SparsePoseGraph option" where
  "RunWorkItem ext (ComputeConstraintsForScanItem flat_scan_index matching_submap
                      insertion_submaps finished_submap scan_pose covariance) g =
     ComputeConstraintsForScan ext flat_scan_index matching_submap insertion_submaps
       finished_submap scan_pose covariance g"
| "RunWorkItem ext (AddImuDataItem trajectory t acceleration velocity) g = do {
     traj_id \<leftarrow> map_of (trajectory_ids g) trajectory;
     Some (g\<lparr>optimization_problem :=
              AddImuData_problem traj_id t acceleration velocity (optimization_problem g)\<rparr>)
   }"

definition AddWorkItem ::
  "'p::{times, one, inverse} Externals \<Rightarrow> 'p WorkItem \<Rightarrow> 'p SparsePoseGraph \<Rightarrow>
   'p SparsePoseGraph option" where
  "AddWorkItem ext work_item g =
     (case scan_queue g of
        None \<Rightarrow> RunWorkItem ext work_item g
      | Some queue \<Rightarrow> Some (g\<lparr>scan_queue := Some (queue @ [work_item])\<rparr>))"

subsection \<open>RunOptimization\<close>

text \<open>
  The first loop of \<^verbatim>\<open>RunOptimization\<close>: the optimized pose of every scan that has a
  node id. \<^verbatim>\<open>trajectory_nodes_[i]\<close> is an unchecked access; out of range it is \<open>None\<close>
  here.
\<close>

fun CopyOptimizedPoses :: "nat list \<Rightarrow> 'p SparsePoseGraph \<Rightarrow> 'p SparsePoseGraph option" where
  "CopyOptimizedPoses [] g = Some g"
| "CopyOptimizedPoses (i # rest) g = do {
     let the_node_id = scan_index_to_node_id g ! i;
     trajectory_node_data \<leftarrow>
       vector_at (node_data (optimization_problem g)) (NodeId.trajectory_id the_node_id);
     node_datum \<leftarrow> vector_at trajectory_node_data (node_index the_node_id);
     node \<leftarrow> vector_at (trajectory_nodes g) i;
     CopyOptimizedPoses rest
       (g\<lparr>trajectory_nodes :=
            (trajectory_nodes g)
              [i := node\<lparr>TrajectoryNode.pose := point_cloud_pose node_datum\<rparr>]\<rparr>)
   }"

text \<open>
  The second loop: the nodes added after the last node id was allocated.
  \<open>extrapolation_transforms\<close> is the local \<^verbatim>\<open>unordered_map\<close>, an entry of which is
  computed when the trajectory is first met.
\<close>

fun ExtrapolateLaterPoses ::
  "'p::{times, one, inverse} Externals \<Rightarrow> nat list \<Rightarrow> (nat \<rightharpoonup> 'p) \<Rightarrow> 'p SparsePoseGraph \<Rightarrow>
   ((nat \<rightharpoonup> 'p) \<times> 'p SparsePoseGraph) option" where
  "ExtrapolateLaterPoses ext [] extrapolation_transforms g = Some (extrapolation_transforms, g)"
| "ExtrapolateLaterPoses ext (i # rest) extrapolation_transforms g = do {
     node \<leftarrow> vector_at (trajectory_nodes g) i;
     let traj_id = ConstantData.trajectory_id (constant_data node);
     transforms \<leftarrow>
       (if extrapolation_transforms traj_id = None then do {
          let new_submap_transforms =
            ExtrapolateSubmapTransforms ext g (submap_data (optimization_problem g)) traj_id;
          let old_submap_transforms =
            ExtrapolateSubmapTransforms ext g (optimized_submap_transforms g) traj_id;
          _ \<leftarrow> CHECK (length new_submap_transforms = length old_submap_transforms);
          Some (extrapolation_transforms
                  (traj_id \<mapsto> last new_submap_transforms * inverse (last old_submap_transforms)))
        } else Some extrapolation_transforms);
     transform \<leftarrow> transforms traj_id;
     ExtrapolateLaterPoses ext rest transforms
       (g\<lparr>trajectory_nodes :=
            (trajectory_nodes g)
              [i := node\<lparr>TrajectoryNode.pose := transform * TrajectoryNode.pose node\<rparr>]\<rparr>)
   }"

text \<open>
  The last loops: \<^verbatim>\<open>reverse_connected_components_\<close> is cleared and filled by
  \<^verbatim>\<open>emplace\<close>, which keeps the first component of a trajectory listed twice.
\<close>

definition reverse_components :: "nat list list \<Rightarrow> (nat \<rightharpoonup> nat)" where
  "reverse_components components =
     foldl (\<lambda>m i. foldl (\<lambda>m traj_id. if m traj_id = None then m(traj_id \<mapsto> i) else m)
                     m (components ! i))
       Map.empty [0..<length components]"

text \<open>
  \<^verbatim>\<open>RunOptimization\<close>. The second loop runs \<^verbatim>\<open>i\<close> from the number of node ids up to
  \<^verbatim>\<open>i != trajectory_nodes_.size()\<close>; with more node ids than nodes it would leave the
  vector, which is \<open>None\<close> here. \<^verbatim>\<open>Solve\<close> writes the submap and node data of the
  optimization problem.
\<close>

definition RunOptimization ::
  "'p::{times, one, inverse} Externals \<Rightarrow> 'p SparsePoseGraph \<Rightarrow> 'p SparsePoseGraph option" where
  "RunOptimization ext g =
     (if submap_data (optimization_problem g) = [] then Some g
      else do {
        let (solved_submap_data, solved_node_data) =
          Solve ext (constraints g) (optimization_problem g);
        let g1 = g\<lparr>optimization_problem :=
                     (optimization_problem g)
                       \<lparr>submap_data := solved_submap_data,
                        node_data := solved_node_data,
                        num_solves := Suc (num_solves (optimization_problem g))\<rparr>\<rparr>;
        let num_optimized_poses = length (scan_index_to_node_id g1);
        g2 \<leftarrow> CopyOptimizedPoses [0..<num_optimized_poses] g1;
        _ \<leftarrow> CHECK (num_optimized_poses \<le> length (trajectory_nodes g2));
        (_, g3) \<leftarrow>
          ExtrapolateLaterPoses ext [num_optimized_poses..<length (trajectory_nodes g2)]
            Map.empty g2;
        let g4 = g3\<lparr>optimized_submap_transforms := submap_data (optimization_problem g3)\<rparr>;
        let components = ConnectedComponents ext (trajectory_connectivity g4);
        Some (g4\<lparr>connected_components := components,
                 reverse_connected_components := reverse_components components\<rparr>)
      })"

subsection \<open>The callback of HandleScanQueue\<close>

text \<open>
  The \<^verbatim>\<open>while (!run_loop_closure_)\<close> loop of the callback and the call of
  \<^verbatim>\<open>HandleScanQueue\<close> after it. The front item runs while it is still in the queue and
  is popped afterwards. A null \<^verbatim>\<open>scan_queue_\<close> is a null dereference.
\<close>

function DrainScanQueue ::
  "'p::{times, one, inverse} Externals \<Rightarrow> 'p SparsePoseGraph \<Rightarrow> 'p SparsePoseGraph option" where
  "DrainScanQueue ext g =
     (if run_loop_closure g then Some (HandleScanQueue g)
      else
        (case scan_queue g of
           None \<Rightarrow> None
         | Some [] \<Rightarrow> Some (g\<lparr>scan_queue := None\<rparr>)
         | Some (work_item # rest) \<Rightarrow> do {
             g1 \<leftarrow> RunWorkItem ext work_item g;
             queue \<leftarrow> scan_queue g1;
             DrainScanQueue ext (g1\<lparr>scan_queue := Some (tl queue)\<rparr>)
           }))"
  by pat_completeness auto

text \<open>
  The callback that \<^verbatim>\<open>HandleScanQueue\<close> registers, invoked by the constraint builder
  with its \<open>result\<close>.
\<close>

definition HandleScanQueue_callback ::
  "'p::{times, one, inverse} Externals \<Rightarrow> 'p Constraint list \<Rightarrow> 'p SparsePoseGraph \<Rightarrow>
   'p SparsePoseGraph option" where
  "HandleScanQueue_callback ext result g = do {
     let g1 = g\<lparr>constraints := constraints g @ result\<rparr>;
     g2 \<leftarrow> RunOptimization ext g1;
     let g3 = g2\<lparr>num_scans_since_last_loop_closure := 0, run_loop_closure := False\<rparr>;
     DrainScanQueue ext g3
   }"

subsection \<open>The ingestion and lifecycle API\<close>

text \<open>
  Modelled from the spec: \<^verbatim>\<open>TrajectoryConnectivity::Add\<close> is missing from the translated
  sources; it makes the trajectory known to the connectivity structure.
\<close>

definition Add :: "nat \<Rightarrow> TrajectoryConnectivity \<Rightarrow> TrajectoryConnectivity" where
  "Add traj_id c = c\<lparr>added := added c @ [traj_id]\<rparr>"

text \<open>
  \<^verbatim>\<open>AddScan\<close>. \<open>front_finished\<close> is the value of
  \<^verbatim>\<open>insertion_submaps.front()->finished\<close> at the call, a member of the front end's
  submap that the front end writes. \<^verbatim>\<open>back()\<close> and \<^verbatim>\<open>front()\<close> of an empty vector
  are \<open>None\<close>.
\<close>

definition AddScan ::
  "'p::{times, one, inverse} Externals \<Rightarrow> Time \<Rightarrow> Vector3d list \<Rightarrow> 'p \<Rightarrow> PoseCovariance \<Rightarrow>
   Submaps_ptr \<Rightarrow> Submap_ptr \<Rightarrow> Submap_ptr list \<Rightarrow> bool \<Rightarrow> 'p SparsePoseGraph \<Rightarrow>
   'p SparsePoseGraph option" where
  "AddScan ext t range_data_in_tracking scan_pose covariance trajectory matching_submap
     insertion_submaps front_finished g = do {
     let optimized_pose = GetLocalToGlobalTransform ext g trajectory * scan_pose;
     let g1 = g\<lparr>trajectory_ids :=
                  emplace (trajectory_ids g) trajectory (length (trajectory_ids g))\<rparr>;
     traj_id \<leftarrow> map_of (trajectory_ids g1) trajectory;
     let flat_scan_index = length (trajectory_nodes g1);
     _ \<leftarrow> CHECK (flat_scan_index < 2147483647);
     let g2 = g1\<lparr>trajectory_nodes :=
                   trajectory_nodes g1 @
                   [\<lparr>constant_data =
                       \<lparr>ConstantData.time = t,
                        range_data_3d = range_data_in_tracking,
                        ConstantData.trajectory_id = traj_id,
                        tracking_to_pose = 1\<rparr>,
                     TrajectoryNode.pose = optimized_pose\<rparr>],
                 trajectory_connectivity := Add traj_id (trajectory_connectivity g1)\<rparr>;
     _ \<leftarrow> CHECK (insertion_submaps \<noteq> []);
     let g3 =
       (if submap_ids g2 (last insertion_submaps) = None
        then
          let states = resize_max (submap_states g2) (traj_id + 1);
              trajectory_submap_states = states ! traj_id
          in g2\<lparr>submap_ids :=
                   (submap_ids g2)
                     (last insertion_submaps \<mapsto>
                        SubmapId traj_id (length trajectory_submap_states)),
                 submap_states :=
                   states[traj_id :=
                            trajectory_submap_states @
                            [\<lparr>submap = last insertion_submaps, node_ids = {},
                              finished = False\<rparr>]]\<rparr>
        else g2);
     let finished_submap = (if front_finished then Some (hd insertion_submaps) else None);
     let g4 =
       (if global_localization_samplers g3 traj_id = None
        then g3\<lparr>global_localization_samplers :=
                   (global_localization_samplers g3)
                     (traj_id \<mapsto> \<lparr>ratio = global_sampling_ratio (options g3), num_pulses = 0\<rparr>)\<rparr>
        else g3);
     AddWorkItem ext
       (ComputeConstraintsForScanItem flat_scan_index matching_submap insertion_submaps
          finished_submap scan_pose covariance)
       g4
   }"

definition AddImuData ::
  "'p::{times, one, inverse} Externals \<Rightarrow> Submaps_ptr \<Rightarrow> Time \<Rightarrow> Vector3d \<Rightarrow> Vector3d \<Rightarrow>
   'p SparsePoseGraph \<Rightarrow> 'p SparsePoseGraph option" where
  "AddImuData ext trajectory t acceleration velocity g =
     AddWorkItem ext (AddImuDataItem trajectory t acceleration velocity)
       (g\<lparr>trajectory_ids :=
            emplace (trajectory_ids g) trajectory (length (trajectory_ids g))\<rparr>)"

text \<open>
  \<^verbatim>\<open>WaitForAllComputations\<close> blocks until the matcher has finished every scan and then
  has the constraint builder deliver its \<open>result\<close>, which the callback appends to the
  constraints. Only this effect on the state is modelled; the callbacks that run while
  it waits are events of their own.
\<close>

definition WaitForAllComputations ::
  "'p Constraint list \<Rightarrow> 'p SparsePoseGraph \<Rightarrow> 'p SparsePoseGraph" where
  "WaitForAllComputations result g = g\<lparr>constraints := constraints g @ result\<rparr>"

definition RunFinalOptimization ::
  "'p::{times, one, inverse} Externals \<Rightarrow> 'p Constraint list \<Rightarrow> 'p SparsePoseGraph \<Rightarrow>
   'p SparsePoseGraph option" where
  "RunFinalOptimization ext result g = do {
     let g1 = WaitForAllComputations result g;
     let g2 = g1\<lparr>optimization_problem :=
                   SetMaxNumIterations (max_num_final_iterations (options g1))
                     (optimization_problem g1)\<rparr>;
     g3 \<leftarrow> RunOptimization ext g2;
     Some (g3\<lparr>optimization_problem :=
                SetMaxNumIterations (ceres_max_num_iterations (options g3))
                  (optimization_problem g3)\<rparr>)
   }"

text \<open>
  A run of the pose graph is a sequence of events: the calls of the front end, and the
  constraint builder becoming idle, at which it invokes the oldest callback registered
  with \<^verbatim>\<open>WhenDone\<close> (none registered: nothing happens). The matcher connecting two
  trajectories after a global match is an event as well.
\<close>

datatype 'p Event =
    AddScanCall Time "Vector3d list" 'p PoseCovariance Submaps_ptr Submap_ptr "Submap_ptr list"
      bool
  | AddImuDataCall Submaps_ptr Time Vector3d Vector3d
  | RunFinalOptimizationCall "'p Constraint list"
  | ConstraintBuilderIdle "'p Constraint list"
  | MatcherConnects nat nat

fun step ::
  "'p::{times, one, inverse} Externals \<Rightarrow> 'p Event \<Rightarrow> 'p SparsePoseGraph \<Rightarrow>
   'p SparsePoseGraph option" where
  "step ext (AddScanCall t range_data scan_pose covariance trajectory matching_submap
               insertion_submaps front_finished) g =
     AddScan ext t range_data scan_pose covariance trajectory matching_submap insertion_submaps
       front_finished g"
| "step ext (AddImuDataCall trajectory t acceleration velocity) g =
     AddImuData ext trajectory t acceleration velocity g"
| "step ext (RunFinalOptimizationCall result) g = RunFinalOptimization ext result g"
| "step ext (ConstraintBuilderIdle result) g =
     (case when_done (constraint_builder g) of
        [] \<Rightarrow> Some g
      | HandleScanQueueCallback # rest \<Rightarrow>
          HandleScanQueue_callback ext result
            (g\<lparr>constraint_builder := (constraint_builder g)\<lparr>when_done := rest\<rparr>\<rparr>))"
| "step ext (MatcherConnects a b) g =
     Some (g\<lparr>trajectory_connectivity :=
              (trajectory_connectivity g)
                \<lparr>connected := connected (trajectory_connectivity g) @ [(a, b)]\<rparr>\<rparr>)"

fun run ::
  "'p::{times, one, inverse} Externals \<Rightarrow> 'p Event list \<Rightarrow> 'p SparsePoseGraph \<Rightarrow>
   'p SparsePoseGraph option" where
  "run ext [] g = Some g"
| "run ext (e # es) g = do { g1 \<leftarrow> step ext e g; run ext es g1 }"

subsection \<open>Frame conditions\<close>

text \<open>
  \<open>matcher_only g g'\<close>: \<open>g'\<close> differs from \<open>g\<close> at most in the log of the constraint
  builder and in the samplers. \<open>control_unchanged g g'\<close>: the members that the constraint
  computation of a scan does not write in front of its last block are the same.
\<close>

definition matcher_only :: "'p SparsePoseGraph \<Rightarrow> 'p SparsePoseGraph \<Rightarrow> bool" where
  "matcher_only g g' \<longleftrightarrow>
     options g' = options g \<and>
     scan_queue g' = scan_queue g \<and>
     num_scans_since_last_loop_closure g' = num_scans_since_last_loop_closure g \<and>
     run_loop_closure g' = run_loop_closure g \<and>
     optimization_problem g' = optimization_problem g \<and>
     when_done (constraint_builder g') = when_done (constraint_builder g) \<and>
     constraints g' = constraints g \<and>
     trajectory_ids g' = trajectory_ids g \<and>
     trajectory_nodes g' = trajectory_nodes g \<and>
     scan_index_to_node_id g' = scan_index_to_node_id g \<and>
     num_nodes_in_trajectory g' = num_nodes_in_trajectory g \<and>
     submap_ids g' = submap_ids g \<and>
     submap_states g' = submap_states g \<and>
     optimized_submap_transforms g' = optimized_submap_transforms g \<and>
     connected_components g' = connected_components g \<and>
     reverse_connected_components g' = reverse_connected_components g \<and>
     trajectory_connectivity g' = trajectory_connectivity g"

definition control_unchanged :: "'p SparsePoseGraph \<Rightarrow> 'p SparsePoseGraph \<Rightarrow> bool" where
  "control_unchanged g g' \<longleftrightarrow>
     options g' = options g \<and>
     scan_queue g' = scan_queue g \<and>
     num_scans_since_last_loop_closure g' = num_scans_since_last_loop_closure g \<and>
     run_loop_closure g' = run_loop_closure g \<and>
     when_done (constraint_builder g') = when_done (constraint_builder g) \<and>
     trajectory_ids g' = trajectory_ids g \<and>
     trajectory_nodes g' = trajectory_nodes g \<and>
     submap_ids g' = submap_ids g \<and>
     optimized_submap_transforms g' = optimized_submap_transforms g \<and>
     connected_components g' = connected_components g \<and>
     reverse_connected_components g' = reverse_connected_components g \<and>
     trajectory_connectivity g' = trajectory_connectivity g"

text \<open>
  \<open>optimization_frame g g'\<close>: the members that \<open>RunOptimization\<close> does not write are the
  same in \<open>g'\<close> as in \<open>g\<close>.
\<close>

definition optimization_frame :: "'p SparsePoseGraph \<Rightarrow> 'p SparsePoseGraph \<Rightarrow> bool" where
  "optimization_frame g g' \<longleftrightarrow>
     options g' = options g \<and>
     scan_queue g' = scan_queue g \<and>
     num_scans_since_last_loop_closure g' = num_scans_since_last_loop_closure g \<and>
     run_loop_closure g' = run_loop_closure g \<and>
     constraint_builder g' = constraint_builder g \<and>
     constraints g' = constraints g \<and>
     trajectory_ids g' = trajectory_ids g \<and>
     scan_index_to_node_id g' = scan_index_to_node_id g \<and>
     num_nodes_in_trajectory g' = num_nodes_in_trajectory g \<and>
     submap_ids g' = submap_ids g \<and>
     submap_states g' = submap_states g \<and>
     global_localization_samplers g' = global_localization_samplers g \<and>
     trajectory_connectivity g' = trajectory_connectivity g \<and>
     length (trajectory_nodes g') = length (trajectory_nodes g)"

text \<open>
  \<open>registration_frame g g'\<close>: the members that \<open>AddScan\<close> does not write in front of
  its work item are the same in \<open>g'\<close> as in \<open>g\<close>.
\<close>

definition registration_frame :: "'p SparsePoseGraph \<Rightarrow> 'p SparsePoseGraph \<Rightarrow> bool" where
  "registration_frame g g' \<longleftrightarrow>
     options g' = options g \<and>
     scan_queue g' = scan_queue g \<and>
     num_scans_since_last_loop_closure g' = num_scans_since_last_loop_closure g \<and>
     run_loop_closure g' = run_loop_closure g \<and>
     optimization_problem g' = optimization_problem g \<and>
     constraint_builder g' = constraint_builder g \<and>
     constraints g' = constraints g \<and>
     scan_index_to_node_id g' = scan_index_to_node_id g \<and>
     num_nodes_in_trajectory g' = num_nodes_in_trajectory g \<and>
     optimized_submap_transforms g' = optimized_submap_transforms g \<and>
     connected_components g' = connected_components g \<and>
     reverse_connected_components g' = reverse_connected_components g"

text \<open>Every submap state of \<open>g\<close> is a submap state of \<open>g'\<close>, with at least its node ids.\<close>

definition states_grow :: "'p SparsePoseGraph \<Rightarrow> 'p SparsePoseGraph \<Rightarrow> bool" where
  "states_grow g g' \<longleftrightarrow>
     (\<forall>sid state. submap_state_at g sid = Some state \<longrightarrow>
        (\<exists>state'. submap_state_at g' sid = Some state' \<and> node_ids state \<subseteq> node_ids state'))"

text \<open>
  Every submap state of \<open>g\<close> is a submap state of \<open>g'\<close> with the same flag and at least its
  node ids.
\<close>

definition states_kept :: "'p SparsePoseGraph \<Rightarrow> 'p SparsePoseGraph \<Rightarrow> bool" where
  "states_kept g g' \<longleftrightarrow>
     (\<forall>sid state. submap_state_at g sid = Some state \<longrightarrow>
        (\<exists>state'. submap_state_at g' sid = Some state' \<and> finished state' = finished state \<and>
                  node_ids state \<subseteq> node_ids state'))"

text \<open>
  \<open>insertion_frame g g'\<close>: the members that the loop over the insertion submaps does not
  write are the same.
\<close>

definition insertion_frame :: "'p SparsePoseGraph \<Rightarrow> 'p SparsePoseGraph \<Rightarrow> bool" where
  "insertion_frame g g' \<longleftrightarrow>
     control_unchanged g g' \<and>
     optimization_problem g' = optimization_problem g \<and>
     constraint_builder g' = constraint_builder g \<and>
     scan_index_to_node_id g' = scan_index_to_node_id g \<and>
     num_nodes_in_trajectory g' = num_nodes_in_trajectory g \<and>
     global_localization_samplers g' = global_localization_samplers g \<and>
     length (submap_states g') = length (submap_states g)"

subsection \<open>Predicates and functions of the statements\<close>

text \<open>The two trajectories are mapped to the same connected component.\<close>

definition same_component :: "'p SparsePoseGraph \<Rightarrow> nat \<Rightarrow> nat \<Rightarrow> bool" where
  "same_component g a b \<longleftrightarrow>
     (\<exists>c. reverse_connected_components g a = Some c \<and> reverse_connected_components g b = Some c)"

text \<open>
  The event is a call of \<open>AddScan\<close>.
\<close>

fun is_AddScanCall :: "'p Event \<Rightarrow> bool" where
  "is_AddScanCall (AddScanCall t r p c trajectory m ins f) = True"
| "is_AddScanCall _ = False"

text \<open>The state of a pose graph that has not been given a scan.\<close>

definition no_scan_yet :: "'p SparsePoseGraph \<Rightarrow> bool" where
  "no_scan_yet g \<longleftrightarrow>
     submap_data (optimization_problem g) = [] \<and>
     num_solves (optimization_problem g) = 0 \<and>
     scan_queue g = None \<and>
     when_done (constraint_builder g) = []"

text \<open>No optimization is pending, no queue is allocated and no callback is registered.\<close>

definition synchronous :: "'p SparsePoseGraph \<Rightarrow> bool" where
  "synchronous g \<longleftrightarrow>
     \<not> run_loop_closure g \<and> scan_queue g = None \<and> when_done (constraint_builder g) = []"

text \<open>
  The value stored in \<^verbatim>\<open>extrapolation_transforms\<close> for a trajectory by the second loop
  of \<open>RunOptimization\<close>: the last submap transform extrapolated from the optimization
  problem's submap data, composed with the inverse of the last one extrapolated from
  \<^verbatim>\<open>optimized_submap_transforms_\<close>.
\<close>

definition extrapolation_transform ::
  "'p::{times, one, inverse} Externals \<Rightarrow> 'p SparsePoseGraph \<Rightarrow> nat \<Rightarrow> 'p" where
  "extrapolation_transform ext g traj_id =
     last (ExtrapolateSubmapTransforms ext g (submap_data (optimization_problem g)) traj_id) *
     inverse (last (ExtrapolateSubmapTransforms ext g (optimized_submap_transforms g) traj_id))"

text \<open>
  Every intra-submap constraint refers to a submap state that holds the node id of the
  constraint.
\<close>

definition intra_submap_ok :: "'p SparsePoseGraph \<Rightarrow> bool" where
  "intra_submap_ok g \<longleftrightarrow>
     (\<forall>c \<in> set (constraints g).
        tag c = INTRA_SUBMAP \<longrightarrow>
        (\<exists>state. submap_state_at g (submap_id c) = Some state \<and> node_id c \<in> node_ids state))"

text \<open>The intra-submap constraint that the loop appends for an insertion submap.\<close>

definition intra_submap_constraint ::
  "'p::{times, one, inverse} Externals \<Rightarrow> 'p SparsePoseGraph \<Rightarrow> NodeId \<Rightarrow> 'p \<Rightarrow> PoseCovariance \<Rightarrow>
   Submap_ptr \<Rightarrow> 'p Constraint" where
  "intra_submap_constraint ext g the_node_id scan_pose covariance submap_ptr =
     \<lparr>submap_id = the (GetSubmapId g submap_ptr),
      node_id = the_node_id,
      relative_transform = inverse (local_pose ext submap_ptr) * scan_pose,
      sqrt_information =
        ComputeSpdMatrixSqrtInverse ext covariance
          (lower_covariance_eigenvalue_bound (options g)),
      tag = INTRA_SUBMAP\<rparr>"

text \<open>
  The constraints that the constraint builder hands over at an event: the result passed
  to the callback of the drain driver or to the callback of \<open>WaitForAllComputations\<close>.
\<close>

fun matcher_result :: "'p Event \<Rightarrow> 'p Constraint list" where
  "matcher_result (ConstraintBuilderIdle result) = result"
| "matcher_result (RunFinalOptimizationCall result) = result"
| "matcher_result _ = []"

text \<open>
  Every constraint that the constraint builder hands over in the events is an inter-submap
  constraint.
\<close>

definition inter_submap_only :: "'p Event list \<Rightarrow> bool" where
  "inter_submap_only es \<longleftrightarrow>
     (\<forall>e \<in> set es. \<forall>c \<in> set (matcher_result e). tag c = INTER_SUBMAP)"

text \<open>
  The candidate-constraint decision \<open>ComputeConstraint\<close> for the scans of a list against one
  submap, one scan after the other.
\<close>

fun propose_all ::
  "'p::{times, one, inverse} Externals \<Rightarrow> SubmapId \<Rightarrow> nat list \<Rightarrow> 'p SparsePoseGraph \<Rightarrow>
   'p SparsePoseGraph option" where
  "propose_all ext the_submap_id [] g = Some g"
| "propose_all ext the_submap_id (scan_index # rest) g =
     ComputeConstraint ext scan_index the_submap_id g \<bind> propose_all ext the_submap_id rest"

text \<open>
  \<^verbatim>\<open>AddScan\<close> up to its call of \<^verbatim>\<open>AddWorkItem\<close>: the trajectory id, the node, the
  submap state of a last insertion submap that is new, and the sampler of the trajectory.
  \<open>AddScan\<close> is \<open>RegisterScan\<close> followed by \<open>AddWorkItem\<close> (lemma
  \<open>AddScan_RegisterScan\<close>).
\<close>

definition RegisterScan ::
  "'p::{times, one, inverse} Externals \<Rightarrow> Time \<Rightarrow> Vector3d list \<Rightarrow> 'p \<Rightarrow> Submaps_ptr \<Rightarrow>
   Submap_ptr list \<Rightarrow> 'p SparsePoseGraph \<Rightarrow> 'p SparsePoseGraph option" where
  "RegisterScan ext t range_data_in_tracking scan_pose trajectory insertion_submaps g = do {
     let optimized_pose = GetLocalToGlobalTransform ext g trajectory * scan_pose;
     let g1 = g\<lparr>trajectory_ids :=
                  emplace (trajectory_ids g) trajectory (length (trajectory_ids g))\<rparr>;
     traj_id \<leftarrow> map_of (trajectory_ids g1) trajectory;
     _ \<leftarrow> CHECK (length (trajectory_nodes g1) < 2147483647);
     let g2 = g1\<lparr>trajectory_nodes :=
                   trajectory_nodes g1 @
                   [\<lparr>constant_data =
                       \<lparr>ConstantData.time = t,
                        range_data_3d = range_data_in_tracking,
                        ConstantData.trajectory_id = traj_id,
                        tracking_to_pose = 1\<rparr>,
                     TrajectoryNode.pose = optimized_pose\<rparr>],
                 trajectory_connectivity := Add traj_id (trajectory_connectivity g1)\<rparr>;
     _ \<leftarrow> CHECK (insertion_submaps \<noteq> []);
     let g3 =
       (if submap_ids g2 (last insertion_submaps) = None
        then
          let states = resize_max (submap_states g2) (traj_id + 1);
              trajectory_submap_states = states ! traj_id
          in g2\<lparr>submap_ids :=
                   (submap_ids g2)
                     (last insertion_submaps \<mapsto>
                        SubmapId traj_id (length trajectory_submap_states)),
                 submap_states :=
                   states[traj_id :=
                            trajectory_submap_states @
                            [\<lparr>submap = last insertion_submaps, node_ids = {},
                              finished = False\<rparr>]]\<rparr>
        else g2);
     Some (if global_localization_samplers g3 traj_id = None
           then g3\<lparr>global_localization_samplers :=
                      (global_localization_samplers g3)
                        (traj_id \<mapsto> \<lparr>ratio = global_sampling_ratio (options g3), num_pulses = 0\<rparr>)\<rparr>
           else g3)
   }"

subsection \<open>Concrete inputs\<close>

text \<open>
  A front end whose submap at address \<open>p\<close> has the local pose "translation by \<open>p\<close> along
  x" and whose trajectory at address \<open>t\<close> has its \<open>i\<close>-th submap at address \<open>10 * t + i\<close>;
  a matrix function that returns the covariance it is given; a sampler that fires when its
  ratio is at least 1; a solver that moves every pose by one unit along x; and every
  trajectory a connected component of its own.
\<close>

definition translate :: "real \<Rightarrow> Rigid3d" where
  "translate x = Rigid3d (x, 0, 0) (1, 0, 0, 0)"

definition example_externals :: "Rigid3d Externals" where
  "example_externals =
     \<lparr>local_pose = (\<lambda>p. translate (real p)),
      Get = (\<lambda>t i. 10 * t + i),
      ComputeSpdMatrixSqrtInverse = (\<lambda>covariance bound. covariance),
      Pulse = (\<lambda>r n. 1 \<le> r),
      Solve = (\<lambda>cs p.
        (map (map (\<lambda>d. SubmapData (translate 1 * SubmapData.pose d))) (submap_data p),
         map (map (\<lambda>d. NodeData (NodeData.time d) (translate 1 * point_cloud_pose d)))
           (node_data p))),
      ConnectedComponents = (\<lambda>c. map (\<lambda>t. [t]) (remdups (added c)))\<rparr>"

text \<open>
  An optimization after every scan beyond the first.
\<close>

definition example_options :: SparsePoseGraphOptions where
  "example_options =
     \<lparr>optimize_every_n_scans = 1, max_num_final_iterations = 200,
      global_sampling_ratio = 1, lower_covariance_eigenvalue_bound = 1 / 1000,
      ceres_max_num_iterations = 50\<rparr>"

text \<open>
  A pose graph with two submap states of trajectory \<open>0\<close> and nothing else.
\<close>

definition two_submaps :: "Rigid3d SparsePoseGraph" where
  "two_submaps =
     (SparsePoseGraph_new example_options)
       \<lparr>submap_states :=
          [[\<lparr>submap = 10, node_ids = {}, finished = False\<rparr>,
            \<lparr>submap = 11, node_ids = {}, finished = False\<rparr>]]\<rparr>"

text \<open>
  A pose graph whose optimization problem has one submap of trajectory \<open>0\<close>, with the
  submaps \<open>10\<close> and \<open>11\<close> registered.
\<close>

definition grown_once :: "Rigid3d SparsePoseGraph" where
  "grown_once =
     (SparsePoseGraph_new example_options)
       \<lparr>optimization_problem :=
          \<lparr>submap_data = [[SubmapData (translate 3)]], node_data = [], imu_data = [],
           max_num_iterations = 50, num_solves = 0\<rparr>,
        submap_ids := [10 \<mapsto> SubmapId 0 0, 11 \<mapsto> SubmapId 0 1]\<rparr>"

text \<open>
  Two trajectories with one scan and one finished submap each; the sampler of trajectory
  \<open>0\<close> never fires and that of trajectory \<open>1\<close> always does.
\<close>

definition two_trajectories :: "Rigid3d SparsePoseGraph" where
  "two_trajectories =
     (SparsePoseGraph_new example_options)
       \<lparr>optimization_problem :=
          \<lparr>submap_data = [[SubmapData (translate 3)], [SubmapData (translate 4)]],
           node_data = [[NodeData 0 (translate 5)], [NodeData 1 (translate 6)]],
           imu_data = [], max_num_iterations = 50, num_solves = 0\<rparr>,
        trajectory_nodes :=
          [\<lparr>constant_data =
              \<lparr>ConstantData.time = 0, range_data_3d = [], ConstantData.trajectory_id = 0,
               tracking_to_pose = 1\<rparr>,
            TrajectoryNode.pose = translate 5\<rparr>,
           \<lparr>constant_data =
              \<lparr>ConstantData.time = 1, range_data_3d = [], ConstantData.trajectory_id = 1,
               tracking_to_pose = 1\<rparr>,
            TrajectoryNode.pose = translate 6\<rparr>],
        scan_index_to_node_id := [NodeId 0 0, NodeId 1 0],
        submap_states :=
          [[\<lparr>submap = 10, node_ids = {NodeId 0 0}, finished = True\<rparr>],
           [\<lparr>submap = 20, node_ids = {NodeId 1 0}, finished = True\<rparr>]],
        global_localization_samplers :=
          [0 \<mapsto> \<lparr>ratio = 0, num_pulses = 0\<rparr>, 1 \<mapsto> \<lparr>ratio = 1, num_pulses = 0\<rparr>]\<rparr>"

text \<open>
  An inertial sample and then the final optimization, without any scan.
\<close>

definition imu_only :: "Rigid3d Event list" where
  "imu_only = [AddImuDataCall 1 0 (0, 0, 1) (0, 0, 0), RunFinalOptimizationCall []]"

text \<open>
  The pose graph after the first scan of trajectory \<open>1\<close> into submap \<open>10\<close>, with the node of
  a second scan appended as \<open>AddScan\<close> does in front of its work item.
\<close>

definition second_scan_registered :: "Rigid3d SparsePoseGraph" where
  "second_scan_registered =
     (let g = the (run example_externals [AddScanCall 0 [] (translate 0) [] 1 10 [10] False]
                     (SparsePoseGraph_new example_options))
      in g\<lparr>trajectory_nodes :=
             trajectory_nodes g @
             [\<lparr>constant_data =
                 \<lparr>ConstantData.time = 1, range_data_3d = [], ConstantData.trajectory_id = 0,
                  tracking_to_pose = 1\<rparr>,
               TrajectoryNode.pose = translate 1\<rparr>]\<rparr>)"

text \<open>
  The pose graph after the constraint computation of that second scan, which exceeds the
  threshold 1.
\<close>

definition triggered :: "Rigid3d SparsePoseGraph" where
  "triggered =
     the (ComputeConstraintsForScan example_externals 1 10 [10] None (translate 1) []
            second_scan_registered)"


text \<open>
  The options with periodic optimization disabled.
\<close>

definition synchronous_options :: SparsePoseGraphOptions where
  "synchronous_options = example_options\<lparr>optimize_every_n_scans := 0\<rparr>"

text \<open>
  Three scans of trajectory \<open>1\<close>: into submap \<open>10\<close>; into submaps \<open>10\<close> and \<open>11\<close>; and into
  both again with submap \<open>10\<close> finished by the front end.
\<close>

definition three_scans :: "Rigid3d Event list" where
  "three_scans =
     [AddScanCall 0 [] (translate 0) [] 1 10 [10] False,
      AddScanCall 1 [] (translate 1) [] 1 10 [10, 11] False,
      AddScanCall 2 [] (translate 2) [] 1 11 [10, 11] True]"

text \<open>
  The pose graph after \<open>three_scans\<close> with the threshold 1: the second scan has triggered
  an optimization, and the third scan has a node but waits in the queue for its node id.
\<close>

definition buffered_scan :: "Rigid3d SparsePoseGraph" where
  "buffered_scan = the (run example_externals three_scans (SparsePoseGraph_new example_options))"

text \<open>
  The three scans, and then the constraint builder idle with one inter-submap constraint.
\<close>

definition scans_then_idle :: "Rigid3d Event list" where
  "scans_then_idle =
     three_scans @
     [ConstraintBuilderIdle
        [\<lparr>submap_id = SubmapId 0 0, node_id = NodeId 0 1, relative_transform = translate 0,
          sqrt_information = [], tag = INTER_SUBMAP\<rparr>]]"

text \<open>
  The pose graph after the first two of the three scans, without periodic optimization;
  and the same with a third scan registered by \<open>AddScan\<close> in front of its work item,
  into submap \<open>11\<close> and the new submap \<open>12\<close>.
\<close>

definition two_scans_done :: "Rigid3d SparsePoseGraph" where
  "two_scans_done =
     the (run example_externals (take 2 three_scans) (SparsePoseGraph_new synchronous_options))"

definition third_scan_registered :: "Rigid3d SparsePoseGraph" where
  "third_scan_registered =
     the (RegisterScan example_externals 2 [] (translate 2) 1 [11, 12] two_scans_done)"

section \<open>Frame lemmas and the termination of the drain loop\<close>

lemma bind_weak_cong: "m = m' \<Longrightarrow> Option.bind m f = Option.bind m' f"
  by simp

lemmas eval_congs =
  bind_weak_cong let_weak_cong if_weak_cong option.case_cong_weak list.case_cong_weak
  prod.case_cong_weak

lemmas model_defs =
  AddScan_def AddImuData_def AddWorkItem_def ComputeConstraintsForScan_def AllocateNode_def
  GrowSubmapTransformsAsNeeded_def GetSubmapId_def CHECK_def vector_at_def emplace_def
  resize_max_def AddSubmap_def AddTrajectoryNode_def AddImuData_problem_def
  SetMaxNumIterations_def Call_def WhenDone_def HandleScanQueue_def NotifyAndMaybeOptimize_def
  FinishSubmap_def ComputeConstraintsForOldScans_def ComputeConstraint_def PulseSampler_def
  submap_state_at_def all_submap_ids_def GetLocalToGlobalTransform_def GetSubmapTransforms_def
  ExtrapolateSubmapTransforms_def ExtrapolateLoop_def ExtrapolateStep_def RunOptimization_def
  reverse_components_def HandleScanQueue_callback_def WaitForAllComputations_def
  RunFinalOptimization_def Add_def SparsePoseGraph_new_def Let_def

lemma ExtrapolateLoop_length:
  "length (ExtrapolateLoop ext states st t result rest) = length result + length rest"
  unfolding ExtrapolateLoop_def
  by (induction rest arbitrary: result) (auto simp: ExtrapolateStep_def)

lemma matcher_only_refl [simp]: "matcher_only g g"
  by (simp add: matcher_only_def)

lemma matcher_only_trans: "matcher_only g g1 \<Longrightarrow> matcher_only g1 g2 \<Longrightarrow> matcher_only g g2"
  by (simp add: matcher_only_def)

lemma matcher_only_Call [simp]: "matcher_only g (Call c g)"
  by (simp add: matcher_only_def Call_def)

lemma PulseSampler_matcher_only:
  "PulseSampler ext t g = Some (b, g') \<Longrightarrow> matcher_only g g'"
  by (auto simp: PulseSampler_def matcher_only_def split: Option.bind_splits)

lemma ComputeConstraint_matcher_only:
  assumes "ComputeConstraint ext i sid g = Some g'"
  shows "matcher_only g g'"
proof -
  obtain b g1 where
    p: "(if ConstantData.trajectory_id (constant_data (trajectory_nodes g ! i)) \<noteq> SubmapId.trajectory_id sid
         then PulseSampler ext (ConstantData.trajectory_id (constant_data (trajectory_nodes g ! i))) g
         else Some (False, g)) = Some (b, g1)"
    and r: "g' = g1 \<or> (\<exists>c. g' = Call c g1)"
    using assms
    by (auto simp: ComputeConstraint_def Let_def vector_at_def
             split: Option.bind_splits if_splits prod.splits)
  from p have "matcher_only g g1"
    by (auto split: if_splits dest: PulseSampler_matcher_only)
  moreover from r have "matcher_only g1 g'"
    by auto
  ultimately show ?thesis
    by (rule matcher_only_trans)
qed

lemma control_unchanged_refl [simp]: "control_unchanged g g"
  by (simp add: control_unchanged_def)

lemma control_unchanged_trans:
  "control_unchanged g g1 \<Longrightarrow> control_unchanged g1 g2 \<Longrightarrow> control_unchanged g g2"
  by (simp add: control_unchanged_def)

lemma matcher_only_control: "matcher_only g g' \<Longrightarrow> control_unchanged g g'"
  by (simp add: matcher_only_def control_unchanged_def)

lemma ComputeConstraintsForOldScansLoop_matcher_only:
  "ComputeConstraintsForOldScansLoop ext sid is g = Some g' \<Longrightarrow> matcher_only g g'"
proof (induction "is" arbitrary: g)
  case Nil
  then show ?case by simp
next
  case (Cons i rest)
  then obtain g1 where
    s: "(if scan_index_to_node_id g ! i \<notin>
            node_ids (submap_states g ! SubmapId.trajectory_id sid ! submap_index sid)
         then ComputeConstraint ext i sid g else Some g) = Some g1"
    and l: "ComputeConstraintsForOldScansLoop ext sid rest g1 = Some g'"
    by (auto simp: Let_def split: Option.bind_splits)
  from s have "matcher_only g g1"
    by (auto split: if_splits dest: ComputeConstraint_matcher_only)
  then show ?case
    using Cons.IH [OF l] by (rule matcher_only_trans)
qed

lemma ComputeConstraintsForOldScans_matcher_only:
  "ComputeConstraintsForOldScans ext p g = Some g' \<Longrightarrow> matcher_only g g'"
  by (auto simp: ComputeConstraintsForOldScans_def Let_def split: Option.bind_splits
           dest: ComputeConstraintsForOldScansLoop_matcher_only)

lemma FinishedSubmapsLoop_matcher_only:
  "FinishedSubmapsLoop ext i n sids g = Some g' \<Longrightarrow> matcher_only g g'"
proof (induction sids arbitrary: g)
  case Nil
  then show ?case by simp
next
  case (Cons sid rest)
  then obtain g1 where
    s: "g1 = g \<or> ComputeConstraint ext i sid g = Some g1"
    and l: "FinishedSubmapsLoop ext i n rest g1 = Some g'"
    by (auto simp: Let_def split: Option.bind_splits if_splits)
  from s have "matcher_only g g1"
    by (auto dest: ComputeConstraint_matcher_only)
  then show ?case
    using Cons.IH [OF l] by (rule matcher_only_trans)
qed

lemma GrowSubmapTransformsAsNeeded_control:
  "GrowSubmapTransformsAsNeeded ext ins g = Some g' \<Longrightarrow> control_unchanged g g'"
  by (auto simp: GrowSubmapTransformsAsNeeded_def Let_def control_unchanged_def
           split: Option.bind_splits if_splits)

lemma InsertionSubmapsLoop_control:
  "InsertionSubmapsLoop ext n p c ins g = Some g' \<Longrightarrow> control_unchanged g g'"
proof (induction ins arbitrary: g)
  case Nil
  then show ?case by simp
next
  case (Cons s rest)
  then obtain g1 where
    l: "InsertionSubmapsLoop ext n p c rest g1 = Some g'"
    and c: "control_unchanged g g1"
    by (auto simp: Let_def control_unchanged_def split: Option.bind_splits)
  show ?case
    using c Cons.IH [OF l] by (rule control_unchanged_trans)
qed

lemma FinishSubmap_control:
  "FinishSubmap ext p g = Some g' \<Longrightarrow> control_unchanged g g'"
  by (auto simp: FinishSubmap_def Let_def control_unchanged_def matcher_only_def
           split: Option.bind_splits
           dest!: ComputeConstraintsForOldScans_matcher_only)

lemma AllocateNode_control:
  "AllocateNode ext i m p g = Some (n, g') \<Longrightarrow> control_unchanged g g'"
  by (auto simp: AllocateNode_def Let_def control_unchanged_def split: Option.bind_splits)

lemma ComputeConstraintsForScan_steps:
  assumes "ComputeConstraintsForScan ext i m ins f p c g = Some g'"
  shows "\<exists>g1 n g3 g4 g5 g6.
           GrowSubmapTransformsAsNeeded ext ins g = Some g1 \<and>
           AllocateNode ext i m p g1 = Some (n, g3) \<and>
           InsertionSubmapsLoop ext n p c ins g3 = Some g4 \<and>
           FinishedSubmapsLoop ext i n (all_submap_ids g4) g4 = Some g5 \<and>
           (case f of None \<Rightarrow> Some g5 | Some q \<Rightarrow> FinishSubmap ext q g5) = Some g6 \<and>
           NotifyAndMaybeOptimize i g6 = Some g'"
  using assms
  by (auto simp: ComputeConstraintsForScan_def split: Option.bind_splits)

lemma ComputeConstraintsForScan_split:
  assumes "ComputeConstraintsForScan ext i m ins f p c g = Some g'"
  shows "\<exists>g6. control_unchanged g g6 \<and> NotifyAndMaybeOptimize i g6 = Some g'"
proof -
  from ComputeConstraintsForScan_steps [OF assms] obtain g1 n g3 g4 g5 g6 where
    s: "GrowSubmapTransformsAsNeeded ext ins g = Some g1"
      "AllocateNode ext i m p g1 = Some (n, g3)"
      "InsertionSubmapsLoop ext n p c ins g3 = Some g4"
      "FinishedSubmapsLoop ext i n (all_submap_ids g4) g4 = Some g5"
      "(case f of None \<Rightarrow> Some g5 | Some q \<Rightarrow> FinishSubmap ext q g5) = Some g6"
      "NotifyAndMaybeOptimize i g6 = Some g'"
    by blast
  have "control_unchanged g5 g6"
    using s(5) by (auto split: option.splits dest: FinishSubmap_control)
  then have "control_unchanged g g6"
    using GrowSubmapTransformsAsNeeded_control [OF s(1)] AllocateNode_control [OF s(2)]
      InsertionSubmapsLoop_control [OF s(3)]
      matcher_only_control [OF FinishedSubmapsLoop_matcher_only [OF s(4)]]
    by (blast intro: control_unchanged_trans)
  then show ?thesis
    using s(6) by blast
qed

lemma NotifyAndMaybeOptimize_scan_queue:
  "NotifyAndMaybeOptimize i g = Some g' \<Longrightarrow> scan_queue g = Some q \<Longrightarrow> scan_queue g' = Some q"
  by (auto simp: NotifyAndMaybeOptimize_def Let_def Call_def split: Option.bind_splits if_splits)

lemma RunWorkItem_scan_queue:
  assumes "RunWorkItem ext item g = Some g'" and "scan_queue g = Some q"
  shows "scan_queue g' = Some q"
proof (cases item)
  case (ComputeConstraintsForScanItem i m ins f p c)
  with assms(1) have "ComputeConstraintsForScan ext i m ins f p c g = Some g'"
    by simp
  then obtain g6 where "control_unchanged g g6" and "NotifyAndMaybeOptimize i g6 = Some g'"
    using ComputeConstraintsForScan_split by blast
  then show ?thesis
    using assms(2) by (auto simp: control_unchanged_def dest: NotifyAndMaybeOptimize_scan_queue)
next
  case (AddImuDataItem t ti a v)
  then show ?thesis
    using assms by (auto split: Option.bind_splits)
qed

termination DrainScanQueue
proof (relation "measure (\<lambda>(ext, g). case scan_queue g of None \<Rightarrow> 0 | Some q \<Rightarrow> length q)")
  show "wf (measure (\<lambda>(ext, g). case scan_queue g of None \<Rightarrow> 0 | Some q \<Rightarrow> length q))"
    by simp
next
  fix ext :: "'p::{times, one, inverse} Externals" and g x2 work_item rest g1 queue
  assume "scan_queue g = Some x2" and "x2 = work_item # rest"
    and "RunWorkItem ext work_item g = Some g1" and "scan_queue g1 = Some queue"
  then have "queue = work_item # rest"
    using RunWorkItem_scan_queue by fastforce
  then show "((ext, g1\<lparr>scan_queue := Some (tl queue)\<rparr>), ext, g)
        \<in> measure (\<lambda>(ext, g). case scan_queue g of None \<Rightarrow> 0 | Some q \<Rightarrow> length q)"
    using \<open>scan_queue g = Some x2\<close> \<open>x2 = work_item # rest\<close> by simp
qed

declare DrainScanQueue.simps [simp del]

section \<open>Submap transform extrapolation\<close>

lemma ExtrapolateLoop_snoc:
  "ExtrapolateLoop ext states st t result (rest @ [x]) =
   ExtrapolateStep ext states st t (ExtrapolateLoop ext states st t result rest) x"
  by (simp add: ExtrapolateLoop_def)

lemma ExtrapolateLoop_Nil [simp]:
  "ExtrapolateLoop ext states st t result [] = result"
  by (simp add: ExtrapolateLoop_def)

lemma ExtrapolateStep_butlast:
  "butlast (ExtrapolateStep ext states st t result x) = result"
  by (simp add: ExtrapolateStep_def)

lemma ExtrapolateStep_length:
  "length (ExtrapolateStep ext states st t result x) = Suc (length result)"
  by (simp add: ExtrapolateStep_def)

lemma ExtrapolateStep_nth_old:
  "i < length result \<Longrightarrow> ExtrapolateStep ext states st t result x ! i = result ! i"
  by (auto simp: ExtrapolateStep_def nth_append)

lemma ExtrapolateStep_nth_new:
  "ExtrapolateStep ext states st t result x ! length result =
     (if t < length st \<and> length result < length (st ! t)
      then SubmapData.pose (st ! t ! length result)
      else if length result = 0 then 1
      else result ! (length result - 1) *
           inverse (local_pose ext (submap (states ! (length result - 1)))) *
           local_pose ext (submap x))"
  by (simp add: ExtrapolateStep_def last_conv_nth)

lemma ExtrapolateLoop_nth:
  "i < length rest \<Longrightarrow>
   ExtrapolateLoop ext states st t [] rest ! i =
     (if t < length st \<and> i < length (st ! t)
      then SubmapData.pose (st ! t ! i)
      else if i = 0 then 1
      else ExtrapolateLoop ext states st t [] rest ! (i - 1) *
           inverse (local_pose ext (submap (states ! (i - 1)))) *
           local_pose ext (submap (rest ! i)))"
proof (induction rest arbitrary: i rule: rev_induct)
  case Nil
  then show ?case by simp
next
  case (snoc x xs)
  let ?R = "ExtrapolateLoop ext states st t [] xs"
  have len: "length ?R = length xs"
    by (simp add: ExtrapolateLoop_length)
  show ?case
  proof (cases "i < length xs")
    case True
    then have "i - 1 < length ?R" "i < length ?R"
      using len by simp_all
    then show ?thesis
      using snoc.IH [OF True] True
      by (simp add: ExtrapolateLoop_snoc ExtrapolateStep_nth_old nth_append)
  next
    case False
    then have i: "i = length ?R"
      using snoc.prems len by simp
    have new: "ExtrapolateLoop ext states st t [] (xs @ [x]) ! i =
        (if t < length st \<and> i < length (st ! t)
         then SubmapData.pose (st ! t ! i)
         else if i = 0 then 1
         else ?R ! (i - 1) *
              inverse (local_pose ext (submap (states ! (i - 1)))) *
              local_pose ext (submap x))"
      unfolding ExtrapolateLoop_snoc i by (rule ExtrapolateStep_nth_new)
    have old: "i \<noteq> 0 \<Longrightarrow> ExtrapolateLoop ext states st t [] (xs @ [x]) ! (i - 1) = ?R ! (i - 1)"
      unfolding ExtrapolateLoop_snoc using i by (simp add: ExtrapolateStep_nth_old)
    have "(xs @ [x]) ! i = x"
      using i len by simp
    then show ?thesis
      using new old by simp
  qed
qed

text \<open>
  Claim C5. \<open>ExtrapolateSubmapTransforms\<close> on a snapshot and a trajectory id returns
  one pose per submap state of the trajectory. A position for which the snapshot has an
  entry holds the pose of that entry; a position beyond the snapshot holds the previous
  result composed with the inverse of the previous submap's local pose and with this
  submap's local pose, and the identity when there is no previous result. For a trajectory
  id that is unknown, or a trajectory without submap states, the result is the list
  holding the identity alone.
\<close>

theorem ExtrapolateSubmapTransforms_spec:
  fixes ext :: "'p::{times, one, inverse} Externals"
  shows "let R = ExtrapolateSubmapTransforms ext g snapshot t in
         (t < length (submap_states g) \<and> submap_states g ! t \<noteq> [] \<longrightarrow>
            length R = length (submap_states g ! t)) \<and>
         (\<forall>i. t < length (submap_states g) \<and> i < length (submap_states g ! t) \<longrightarrow>
            R ! i =
              (if t < length snapshot \<and> i < length (snapshot ! t)
               then SubmapData.pose (snapshot ! t ! i)
               else if i = 0 then 1
               else R ! (i - 1) *
                    inverse (local_pose ext (submap (submap_states g ! t ! (i - 1)))) *
                    local_pose ext (submap (submap_states g ! t ! i)))) \<and>
         (t \<ge> length (submap_states g) \<or> submap_states g ! t = [] \<longrightarrow> R = [1])"
proof (cases "t < length (submap_states g) \<and> submap_states g ! t \<noteq> []")
  case True
  let ?states = "submap_states g ! t"
  have eq: "ExtrapolateSubmapTransforms ext g snapshot t =
            ExtrapolateLoop ext ?states snapshot t [] ?states"
    using True ExtrapolateLoop_length [of ext ?states snapshot t "[]" ?states]
    by (auto simp: ExtrapolateSubmapTransforms_def Let_def)
  show ?thesis
    unfolding Let_def eq
    using True by (auto simp: ExtrapolateLoop_length ExtrapolateLoop_nth)
next
  case False
  then show ?thesis
    by (auto simp: ExtrapolateSubmapTransforms_def Let_def ExtrapolateLoop_def)
qed

theorem ExtrapolateSubmapTransforms_spec_witness:
  "ExtrapolateSubmapTransforms example_externals two_submaps [[SubmapData (translate 5)]] 0 =
     [translate 5, translate 5 * inverse (translate 10) * translate 11] \<and>
   ExtrapolateSubmapTransforms example_externals two_submaps [[SubmapData (translate 5)]] 1 = [1]"
proof -
  let ?R = "ExtrapolateSubmapTransforms example_externals two_submaps [[SubmapData (translate 5)]] 0"
  have s: "submap_states two_submaps =
      [[\<lparr>submap = 10, node_ids = {}, finished = False\<rparr>,
        \<lparr>submap = 11, node_ids = {}, finished = False\<rparr>]]"
    by (simp add: two_submaps_def)
  note A = ExtrapolateSubmapTransforms_spec
    [where ext = example_externals and g = two_submaps
       and snapshot = "[[SubmapData (translate 5)]]", unfolded Let_def]
  have len: "length ?R = 2"
    using A [of 0] by (simp add: s)
  have r0: "?R ! 0 = translate 5"
    using A [of 0, THEN conjunct2, THEN conjunct1, rule_format, of 0] by (simp add: s)
  have r1: "?R ! 1 = ?R ! 0 * inverse (translate 10) * translate 11"
    using A [of 0, THEN conjunct2, THEN conjunct1, rule_format, of 1]
    by (simp add: s example_externals_def)
  have "?R = [?R ! 0, ?R ! 1]"
    using len by (cases ?R; cases "tl ?R") auto
  moreover have
    "ExtrapolateSubmapTransforms example_externals two_submaps [[SubmapData (translate 5)]] 1 = [1]"
    using A [of 1] by (simp add: s)
  ultimately show ?thesis
    using r0 r1 by simp
qed

section \<open>The local-to-global transform of an unregistered trajectory\<close>

text \<open>
  Claim C4, as amended. For a trajectory handle that is not registered in
  \<open>trajectory_ids\<close>, \<open>GetLocalToGlobalTransform\<close> returns the identity composed with the
  inverse of the local pose of the handle's submap 0: \<open>GetSubmapTransforms\<close> yields the
  list holding the identity alone, and the function multiplies its last element by the
  inverse local pose of the submap at index "size minus one".
\<close>

theorem GetLocalToGlobalTransform_unregistered:
  fixes ext :: "'p::{times, one, inverse} Externals"
  assumes "map_of (trajectory_ids g) submaps = None"
  shows "GetLocalToGlobalTransform ext g submaps =
         1 * inverse (local_pose ext (Get ext submaps 0))"
  using assms by (simp add: GetLocalToGlobalTransform_def GetSubmapTransforms_def)

lemmas Rigid3d_defs =
  translate_def one_Rigid3d_def times_Rigid3d_def inverse_Rigid3d_def

theorem GetLocalToGlobalTransform_unregistered_witness:
  "map_of (trajectory_ids (SparsePoseGraph_new example_options :: Rigid3d SparsePoseGraph)) 1 = None \<and>
   GetLocalToGlobalTransform example_externals (SparsePoseGraph_new example_options) 1 =
     1 * inverse (translate 10)"
proof -
  have h: "map_of (trajectory_ids (SparsePoseGraph_new example_options :: Rigid3d SparsePoseGraph)) 1 = None"
    by (simp add: SparsePoseGraph_new_def)
  show ?thesis
    using h GetLocalToGlobalTransform_unregistered [OF h, of example_externals]
    by (simp add: example_externals_def)
qed

text \<open>
  The claim as it is written, "returns the identity transform", fails on a fresh pose
  graph for the handle \<open>1\<close>, whose submap 0 has the local pose "translation by 10": the
  result is the translation by \<open>-10\<close>.
\<close>

theorem GetLocalToGlobalTransform_not_identity:
  "map_of (trajectory_ids (SparsePoseGraph_new example_options :: Rigid3d SparsePoseGraph)) 1 = None \<and>
   GetLocalToGlobalTransform example_externals (SparsePoseGraph_new example_options) 1 \<noteq> 1"
  by (simp add: GetLocalToGlobalTransform_def GetSubmapTransforms_def SparsePoseGraph_new_def
        example_externals_def Rigid3d_defs)

section \<open>Growing the submap transforms\<close>

text \<open>
  Claim C6. \<open>GrowSubmapTransformsAsNeeded\<close> with two insertion submaps of one trajectory
  that the optimization problem knows. When the index of the second submap is the length
  of the trajectory's list of optimizer submaps, one optimizer submap is appended to that
  list, with the pose "optimizer pose of the first submap, composed with the inverse of the
  first submap's local pose, composed with the second submap's local pose", and nothing
  else changes. When the index of the second submap is an existing one, the pose graph is
  unchanged.
\<close>

theorem GrowSubmapTransformsAsNeeded_two_submaps:
  fixes ext :: "'p::{times, one, inverse} Externals"
  assumes first: "GetSubmapId g first_submap = Some first_id"
    and second: "GetSubmapId g second_submap = Some second_id"
    and same: "SubmapId.trajectory_id second_id = SubmapId.trajectory_id first_id"
    and known: "SubmapId.trajectory_id first_id < length (submap_data (optimization_problem g))"
  shows
    "let t = SubmapId.trajectory_id first_id;
         data = submap_data (optimization_problem g)
     in (submap_index second_id = length (data ! t) \<and> submap_index first_id < length (data ! t) \<longrightarrow>
           GrowSubmapTransformsAsNeeded ext [first_submap, second_submap] g =
             Some (g\<lparr>optimization_problem :=
                      (optimization_problem g)
                        \<lparr>submap_data :=
                           data[t := data ! t @
                             [SubmapData
                                (SubmapData.pose (data ! t ! submap_index first_id) *
                                 inverse (local_pose ext first_submap) *
                                 local_pose ext second_submap)]]\<rparr>\<rparr>)) \<and>
        (submap_index second_id < length (data ! t) \<longrightarrow>
           GrowSubmapTransformsAsNeeded ext [first_submap, second_submap] g = Some g)"
  using assms
  by (simp add: GrowSubmapTransformsAsNeeded_def Let_def CHECK_def vector_at_def AddSubmap_def
        resize_max_def)

theorem GrowSubmapTransformsAsNeeded_two_submaps_witness:
  "submap_data (optimization_problem (the (GrowSubmapTransformsAsNeeded example_externals [10, 11] grown_once))) =
     [[SubmapData (translate 3), SubmapData (translate 3 * inverse (translate 10) * translate 11)]] \<and>
   GrowSubmapTransformsAsNeeded example_externals [10, 10] grown_once = Some grown_once"
proof -
  have a: "GetSubmapId grown_once 10 = Some (SubmapId 0 0)"
    and b: "GetSubmapId grown_once 11 = Some (SubmapId 0 1)"
    and d: "submap_data (optimization_problem grown_once) = [[SubmapData (translate 3)]]"
    by (simp_all add: grown_once_def GetSubmapId_def)
  have k: "SubmapId.trajectory_id (SubmapId 0 0) < length (submap_data (optimization_problem grown_once))"
    by (simp add: d)
  show ?thesis
    using GrowSubmapTransformsAsNeeded_two_submaps [OF a b _ k, of example_externals]
      GrowSubmapTransformsAsNeeded_two_submaps [OF a a _ k, of example_externals]
    by (simp add: d example_externals_def)
qed

section \<open>The candidate-constraint decision\<close>

lemma same_component_case:
  "(case (reverse_connected_components g a, reverse_connected_components g b) of
      (Some x, Some y) \<Rightarrow> x = y | _ \<Rightarrow> False) = same_component g a b"
  by (auto simp: same_component_def split: option.splits)

lemma PulseSampler_reverse:
  "PulseSampler ext t g = Some (b, g1) \<Longrightarrow>
   reverse_connected_components g1 = reverse_connected_components g \<and>
   submap_states g1 = submap_states g \<and> constraint_builder g1 = constraint_builder g"
  by (auto simp: PulseSampler_def split: Option.bind_splits)

text \<open>
  Claim C3. \<open>ComputeConstraint\<close> for a scan and a submap whose data are in range. If the
  trajectory of the scan differs from that of the submap and the sampler of the scan's
  trajectory fires, a global match (no prior pose) is proposed. Otherwise, if the
  trajectories are equal or mapped to the same connected component, a local match is
  proposed whose prior is the inverse of the optimizer's submap pose composed with the
  optimizer's node pose. Otherwise nothing is proposed.
\<close>

theorem ComputeConstraint_decision:
  fixes ext :: "'p::{times, one, inverse} Externals"
  assumes node: "vector_at (scan_index_to_node_id g) scan_index = Some the_node_id"
    and submaps: "vector_at (submap_data (optimization_problem g))
                    (SubmapId.trajectory_id the_submap_id) = Some trajectory_submaps"
    and datum: "vector_at trajectory_submaps (submap_index the_submap_id) = Some submap_datum"
    and nodes: "vector_at (node_data (optimization_problem g))
                  (NodeId.trajectory_id the_node_id) = Some trajectory_node_data"
    and ndatum: "vector_at trajectory_node_data (node_index the_node_id) = Some node_datum"
    and scan: "vector_at (trajectory_nodes g) scan_index = Some scan_node"
    and state: "submap_state_at g the_submap_id = Some state"
    and sampler: "ConstantData.trajectory_id (constant_data scan_node) \<noteq>
                    SubmapId.trajectory_id the_submap_id \<Longrightarrow>
                  global_localization_samplers g
                    (ConstantData.trajectory_id (constant_data scan_node)) = Some sampler"
  shows
    "\<exists>g'. ComputeConstraint ext scan_index the_submap_id g = Some g' \<and>
       calls (constraint_builder g') =
         (let scan_trajectory_id = ConstantData.trajectory_id (constant_data scan_node);
              submap_trajectory_id = SubmapId.trajectory_id the_submap_id
          in if scan_trajectory_id \<noteq> submap_trajectory_id \<and>
                Pulse ext (ratio sampler) (num_pulses sampler)
             then calls (constraint_builder g) @
                  [MaybeAddGlobalConstraint the_submap_id (submap state) the_node_id scan_index]
             else if scan_trajectory_id = submap_trajectory_id \<or>
                     same_component g scan_trajectory_id submap_trajectory_id
             then calls (constraint_builder g) @
                  [MaybeAddConstraint the_submap_id (submap state) the_node_id scan_index
                     (inverse (SubmapData.pose submap_datum) * point_cloud_pose node_datum)]
             else calls (constraint_builder g))"
proof (cases "ConstantData.trajectory_id (constant_data scan_node) =
              SubmapId.trajectory_id the_submap_id")
  case True
  then show ?thesis
    using assms(1-7)
    by (auto simp: ComputeConstraint_def Let_def Call_def same_component_def
             split: option.splits)
next
  case False
  let ?t = "ConstantData.trajectory_id (constant_data scan_node)"
  obtain g1 where p: "PulseSampler ext ?t g =
      Some (Pulse ext (ratio sampler) (num_pulses sampler), g1)"
    using sampler [OF False] by (simp add: PulseSampler_def)
  have s1: "submap_state_at g1 the_submap_id = Some state"
    using state PulseSampler_reverse [OF p] by (simp add: submap_state_at_def)
  have c1: "same_component g1 = same_component g"
    using PulseSampler_reverse [OF p] by (simp add: same_component_def fun_eq_iff)
  show ?thesis
    using False assms(1-6) p s1 PulseSampler_reverse [OF p]
    by (auto simp: ComputeConstraint_def Let_def Call_def same_component_def
             split: option.splits)
qed

lemmas two_trajectories_simps =
  two_trajectories_def SparsePoseGraph_new_def vector_at_def submap_state_at_def

theorem ComputeConstraint_decision_witness:
  "calls (constraint_builder (the (ComputeConstraint example_externals 1 (SubmapId 0 0) two_trajectories))) =
     [MaybeAddGlobalConstraint (SubmapId 0 0) 10 (NodeId 1 0) 1] \<and>
   calls (constraint_builder (the (ComputeConstraint example_externals 0 (SubmapId 0 0) two_trajectories))) =
     [MaybeAddConstraint (SubmapId 0 0) 10 (NodeId 0 0) 0 (inverse (translate 3) * translate 5)] \<and>
   calls (constraint_builder (the (ComputeConstraint example_externals 0 (SubmapId 1 0) two_trajectories))) =
     []"
proof -
  note D = ComputeConstraint_decision [where g = two_trajectories and ext = example_externals]
  have a: "\<exists>g'. ComputeConstraint example_externals 1 (SubmapId 0 0) two_trajectories = Some g' \<and>
      calls (constraint_builder g') = [MaybeAddGlobalConstraint (SubmapId 0 0) 10 (NodeId 1 0) 1]"
    using D [where scan_index = 1 and the_submap_id = "SubmapId 0 0" and the_node_id = "NodeId 1 0"
               and trajectory_submaps = "[SubmapData (translate 3)]"
               and submap_datum = "SubmapData (translate 3)"
               and trajectory_node_data = "[NodeData 1 (translate 6)]"
               and node_datum = "NodeData 1 (translate 6)"
               and scan_node = "trajectory_nodes two_trajectories ! 1"
               and state = "\<lparr>submap = 10, node_ids = {NodeId 0 0}, finished = True\<rparr>"
               and sampler = "\<lparr>ratio = 1, num_pulses = 0\<rparr>"]
    by (simp add: two_trajectories_simps example_externals_def)
  have b: "\<exists>g'. ComputeConstraint example_externals 0 (SubmapId 0 0) two_trajectories = Some g' \<and>
      calls (constraint_builder g') =
        [MaybeAddConstraint (SubmapId 0 0) 10 (NodeId 0 0) 0 (inverse (translate 3) * translate 5)]"
    using D [where scan_index = 0 and the_submap_id = "SubmapId 0 0" and the_node_id = "NodeId 0 0"
               and trajectory_submaps = "[SubmapData (translate 3)]"
               and submap_datum = "SubmapData (translate 3)"
               and trajectory_node_data = "[NodeData 0 (translate 5)]"
               and node_datum = "NodeData 0 (translate 5)"
               and scan_node = "trajectory_nodes two_trajectories ! 0"
               and state = "\<lparr>submap = 10, node_ids = {NodeId 0 0}, finished = True\<rparr>"
               and sampler = "\<lparr>ratio = 0, num_pulses = 0\<rparr>"]
    by (simp add: two_trajectories_simps example_externals_def)
  have c: "\<exists>g'. ComputeConstraint example_externals 0 (SubmapId 1 0) two_trajectories = Some g' \<and>
      calls (constraint_builder g') = []"
    using D [where scan_index = 0 and the_submap_id = "SubmapId 1 0" and the_node_id = "NodeId 0 0"
               and trajectory_submaps = "[SubmapData (translate 4)]"
               and submap_datum = "SubmapData (translate 4)"
               and trajectory_node_data = "[NodeData 0 (translate 5)]"
               and node_datum = "NodeData 0 (translate 5)"
               and scan_node = "trajectory_nodes two_trajectories ! 0"
               and state = "\<lparr>submap = 20, node_ids = {NodeId 1 0}, finished = True\<rparr>"
               and sampler = "\<lparr>ratio = 0, num_pulses = 0\<rparr>"]
    by (simp add: two_trajectories_simps example_externals_def same_component_def)
  show ?thesis
    using a b c by auto
qed

section \<open>Optimization without submap data\<close>

lemma RunOptimization_empty:
  "submap_data (optimization_problem g) = [] \<Longrightarrow> RunOptimization ext g = Some g"
  by (simp add: RunOptimization_def)

lemma RunFinalOptimization_no_scan_yet:
  assumes "no_scan_yet g"
  shows "\<exists>g'. RunFinalOptimization ext result g = Some g' \<and> no_scan_yet g'"
  using assms
  by (simp add: RunFinalOptimization_def WaitForAllComputations_def SetMaxNumIterations_def
        RunOptimization_def no_scan_yet_def Let_def)

lemma step_no_scan_yet:
  assumes "no_scan_yet g" and "\<not> is_AddScanCall e" and "step ext e g = Some g'"
  shows "no_scan_yet g'"
proof (cases e)
  case (AddScanCall t r p c trajectory m ins f)
  then show ?thesis using assms by simp
next
  case (AddImuDataCall trajectory t a v)
  then show ?thesis
    using assms
    by (auto simp: AddImuData_def AddWorkItem_def AddImuData_problem_def no_scan_yet_def Let_def
             split: Option.bind_splits)
next
  case (RunFinalOptimizationCall result)
  then show ?thesis
    using assms RunFinalOptimization_no_scan_yet [of g ext result] by auto
next
  case (ConstraintBuilderIdle result)
  then show ?thesis
    using assms by (auto simp: no_scan_yet_def)
next
  case (MatcherConnects a b)
  then show ?thesis
    using assms by (auto simp: no_scan_yet_def)
qed

lemma run_no_scan_yet:
  "no_scan_yet g \<Longrightarrow> list_all (\<lambda>e. \<not> is_AddScanCall e) es \<Longrightarrow> run ext es g = Some g' \<Longrightarrow>
   no_scan_yet g'"
proof (induction es arbitrary: g)
  case Nil
  then show ?case by simp
next
  case (Cons e es)
  then obtain g1 where s: "step ext e g = Some g1" and r: "run ext es g1 = Some g'"
    by (auto split: Option.bind_splits)
  have "no_scan_yet g1"
    using Cons.prems(1,2) s by (auto intro: step_no_scan_yet)
  then show ?case
    using Cons.IH [OF _ _ r] Cons.prems(2) by simp
qed

lemma no_scan_yet_new: "no_scan_yet (SparsePoseGraph_new opts)"
  by (simp add: no_scan_yet_def SparsePoseGraph_new_def)

text \<open>
  Claim C10. When the optimization problem holds no submap data, \<open>RunOptimization\<close>
  returns the pose graph as it is (in particular the solver is not invoked). After any
  events that include no \<open>AddScan\<close>, \<open>RunFinalOptimization\<close> returns and the solver has
  never been invoked.
\<close>

theorem RunOptimization_without_submap_data:
  fixes ext :: "'p::{times, one, inverse} Externals"
  shows "(submap_data (optimization_problem g) = [] \<longrightarrow> RunOptimization ext g = Some g) \<and>
         (list_all (\<lambda>e. \<not> is_AddScanCall e) es \<and> run ext es (SparsePoseGraph_new opts) = Some h \<longrightarrow>
            (\<exists>h'. RunFinalOptimization ext result h = Some h' \<and>
                   num_solves (optimization_problem h') = 0 \<and>
                   num_solves (optimization_problem h) = 0))"
proof (intro conjI impI)
  assume "submap_data (optimization_problem g) = []"
  then show "RunOptimization ext g = Some g"
    by (rule RunOptimization_empty)
next
  assume "list_all (\<lambda>e. \<not> is_AddScanCall e) es \<and> run ext es (SparsePoseGraph_new opts) = Some h"
  then have h: "no_scan_yet h"
    using run_no_scan_yet [OF no_scan_yet_new] by blast
  then obtain h' where "RunFinalOptimization ext result h = Some h'" and "no_scan_yet h'"
    using RunFinalOptimization_no_scan_yet by blast
  then show "\<exists>h'. RunFinalOptimization ext result h = Some h' \<and>
                   num_solves (optimization_problem h') = 0 \<and>
                   num_solves (optimization_problem h) = 0"
    using h by (auto simp: no_scan_yet_def)
qed

theorem RunOptimization_without_submap_data_witness:
  "submap_data (optimization_problem (SparsePoseGraph_new example_options :: Rigid3d SparsePoseGraph)) = [] \<and>
   RunOptimization example_externals (SparsePoseGraph_new example_options) =
     Some (SparsePoseGraph_new example_options) \<and>
   list_all (\<lambda>e. \<not> is_AddScanCall e) imu_only \<and>
   run example_externals imu_only (SparsePoseGraph_new example_options) \<noteq> None \<and>
   num_solves (optimization_problem
     (the (RunFinalOptimization example_externals []
        (the (run example_externals imu_only (SparsePoseGraph_new example_options)))))) = 0"
proof -
  let ?new = "SparsePoseGraph_new example_options :: Rigid3d SparsePoseGraph"
  have e: "submap_data (optimization_problem ?new) = []"
    by (simp add: SparsePoseGraph_new_def)
  have l: "list_all (\<lambda>e. \<not> is_AddScanCall e) imu_only"
    by (simp add: imu_only_def)
  obtain h where r: "run example_externals imu_only ?new = Some h"
    by (simp add: imu_only_def model_defs cong: eval_congs)
  note T = RunOptimization_without_submap_data
    [where ext = example_externals and g = ?new and es = imu_only and opts = example_options
       and h = h and result = "[]"]
  show ?thesis
    using T e l r by auto
qed

section \<open>The optimization trigger and the drain of the work queue\<close>




lemma second_scan_registered_eval:
  "ComputeConstraintsForScan example_externals 1 10 [10] None (translate 1) []
     second_scan_registered = Some triggered"
  unfolding triggered_def
  by (simp add: second_scan_registered_def model_defs example_externals_def example_options_def
           cong: eval_congs)



section \<open>No periodic optimization with the threshold 0\<close>

lemma optimization_frame_refl [simp]: "optimization_frame g g"
  by (simp add: optimization_frame_def)

lemma optimization_frame_trans:
  "optimization_frame g g1 \<Longrightarrow> optimization_frame g1 g2 \<Longrightarrow> optimization_frame g g2"
  by (simp add: optimization_frame_def)

lemma CopyOptimizedPoses_frame:
  "CopyOptimizedPoses is g = Some g' \<Longrightarrow>
   optimization_frame g g' \<and> optimization_problem g' = optimization_problem g \<and>
   optimized_submap_transforms g' = optimized_submap_transforms g"
proof (induction "is" arbitrary: g)
  case Nil
  then show ?case by simp
next
  case (Cons i rest)
  then obtain node pose' where
    r: "CopyOptimizedPoses rest
          (g\<lparr>trajectory_nodes := (trajectory_nodes g)[i := node\<lparr>TrajectoryNode.pose := pose'\<rparr>]\<rparr>)
        = Some g'"
    by (auto simp: Let_def split: Option.bind_splits)
  show ?case
    using Cons.IH [OF r] by (simp add: optimization_frame_def)
qed

lemma ExtrapolateLaterPoses_frame:
  "ExtrapolateLaterPoses ext is m g = Some (m', g') \<Longrightarrow>
   optimization_frame g g' \<and> optimization_problem g' = optimization_problem g \<and>
   optimized_submap_transforms g' = optimized_submap_transforms g"
proof (induction "is" arbitrary: g m)
  case Nil
  then show ?case by simp
next
  case (Cons i rest)
  then obtain node m1 pose' where
    r: "ExtrapolateLaterPoses ext rest m1
          (g\<lparr>trajectory_nodes := (trajectory_nodes g)[i := node\<lparr>TrajectoryNode.pose := pose'\<rparr>]\<rparr>)
        = Some (m', g')"
    by (auto simp: Let_def split: Option.bind_splits)
  show ?case
    using Cons.IH [OF r] by (simp add: optimization_frame_def)
qed

lemma RunOptimization_frame:
  assumes "RunOptimization ext g = Some g'"
  shows "optimization_frame g g'"
proof (cases "submap_data (optimization_problem g) = []")
  case True
  then show ?thesis
    using assms by (simp add: RunOptimization_def)
next
  case False
  then obtain g1 g2 m g3 where
    g1: "optimization_frame g g1"
    and g2: "CopyOptimizedPoses [0..<length (scan_index_to_node_id g1)] g1 = Some g2"
    and g3: "ExtrapolateLaterPoses ext
               [length (scan_index_to_node_id g1)..<length (trajectory_nodes g2)] Map.empty g2
             = Some (m, g3)"
    and g': "optimization_frame g3 g'"
    using assms
    apply (clarsimp simp: RunOptimization_def Let_def split: Option.bind_splits prod.splits)
    subgoal premises p for sd nd g2 m g3
      using p(1) [of "g\<lparr>optimization_problem := optimization_problem g
               \<lparr>submap_data := sd, node_data := nd,
                  num_solves := Suc (num_solves (optimization_problem g))\<rparr>\<rparr>" g2 m g3]
        p(2-)
      by (simp add: optimization_frame_def)
    done
  show ?thesis
    using g1 CopyOptimizedPoses_frame [OF g2] ExtrapolateLaterPoses_frame [OF g3] g'
    by (blast intro: optimization_frame_trans)
qed

lemma NotifyAndMaybeOptimize_synchronous:
  "NotifyAndMaybeOptimize i g = Some g' \<Longrightarrow> optimize_every_n_scans (options g) = 0 \<Longrightarrow>
   synchronous g \<Longrightarrow> synchronous g' \<and> options g' = options g"
  by (auto simp: NotifyAndMaybeOptimize_def Let_def Call_def synchronous_def)

lemma RunWorkItem_synchronous:
  assumes "RunWorkItem ext item g = Some g'" and "optimize_every_n_scans (options g) = 0"
    and "synchronous g"
  shows "synchronous g' \<and> options g' = options g"
proof (cases item)
  case (ComputeConstraintsForScanItem i m ins f p c)
  with assms(1) obtain g6 where c: "control_unchanged g g6"
    and n: "NotifyAndMaybeOptimize i g6 = Some g'"
    using ComputeConstraintsForScan_split by fastforce
  have "synchronous g6" "optimize_every_n_scans (options g6) = 0" "options g6 = options g"
    using c assms(2,3) by (simp_all add: control_unchanged_def synchronous_def)
  then show ?thesis
    using NotifyAndMaybeOptimize_synchronous [OF n] by simp
next
  case (AddImuDataItem t ti a v)
  then show ?thesis
    using assms by (auto simp: synchronous_def split: Option.bind_splits)
qed

lemma AddWorkItem_synchronous:
  assumes "AddWorkItem ext item g = Some g'" and "optimize_every_n_scans (options g) = 0"
    and "synchronous g"
  shows "synchronous g' \<and> options g' = options g"
proof -
  have "RunWorkItem ext item g = Some g'"
    using assms(1,3) by (simp add: AddWorkItem_def synchronous_def)
  then show ?thesis
    using assms(2,3) by (rule RunWorkItem_synchronous)
qed

lemma AddScan_registration:
  assumes "AddScan ext t r p c trajectory m ins f g = Some g'"
  shows "\<exists>item g4. AddWorkItem ext item g4 = Some g' \<and> registration_frame g g4"
  using assms
  apply (clarsimp simp: AddScan_def Let_def CHECK_def split: Option.bind_splits if_splits)
     apply (intro exI conjI, assumption, simp add: registration_frame_def)+
  done

lemma AddScan_synchronous:
  assumes "AddScan ext t r p c trajectory m ins f g = Some g'"
    and "optimize_every_n_scans (options g) = 0" and "synchronous g"
  shows "synchronous g' \<and> options g' = options g"
proof -
  from AddScan_registration [OF assms(1)] obtain item g4 where
    w: "AddWorkItem ext item g4 = Some g'" and f: "registration_frame g g4"
    by blast
  have "synchronous g4" "options g4 = options g"
    using f assms(3) by (simp_all add: registration_frame_def synchronous_def)
  then show ?thesis
    using AddWorkItem_synchronous [OF w] assms(2) by simp
qed

lemma step_synchronous:
  assumes "step ext e g = Some g'" and "optimize_every_n_scans (options g) = 0"
    and "synchronous g"
  shows "synchronous g' \<and> options g' = options g"
proof (cases e)
  case (AddScanCall t r p c trajectory m ins f)
  then show ?thesis
    using assms AddScan_synchronous by fastforce
next
  case (AddImuDataCall trajectory t a v)
  then have "AddWorkItem ext (AddImuDataItem trajectory t a v)
      (g\<lparr>trajectory_ids := emplace (trajectory_ids g) trajectory (length (trajectory_ids g))\<rparr>)
    = Some g'"
    using assms(1) by (simp add: AddImuData_def)
  from AddWorkItem_synchronous [OF this] show ?thesis
    using assms(2,3) by (simp add: synchronous_def)
next
  case (RunFinalOptimizationCall result)
  then obtain g3 where
    r: "RunOptimization ext
          (g\<lparr>constraints := constraints g @ result,
             optimization_problem :=
               SetMaxNumIterations (max_num_final_iterations (options g))
                 (optimization_problem g)\<rparr>) = Some g3"
    and g': "g' = g3\<lparr>optimization_problem :=
               SetMaxNumIterations (ceres_max_num_iterations (options g3))
                 (optimization_problem g3)\<rparr>"
    using assms(1)
    by (auto simp: RunFinalOptimization_def WaitForAllComputations_def Let_def
             split: Option.bind_splits)
  show ?thesis
    using RunOptimization_frame [OF r] assms(3)
    by (simp add: g' optimization_frame_def synchronous_def)
next
  case (ConstraintBuilderIdle result)
  then show ?thesis
    using assms by (simp add: synchronous_def)
next
  case (MatcherConnects a b)
  then show ?thesis
    using assms by (auto simp: synchronous_def)
qed

lemma run_synchronous:
  "run ext es g = Some g' \<Longrightarrow> optimize_every_n_scans (options g) = 0 \<Longrightarrow> synchronous g \<Longrightarrow>
   synchronous g' \<and> options g' = options g"
proof (induction es arbitrary: g)
  case Nil
  then show ?case by simp
next
  case (Cons e es)
  then obtain g1 where s: "step ext e g = Some g1" and r: "run ext es g1 = Some g'"
    by (auto split: Option.bind_splits)
  have "synchronous g1 \<and> options g1 = options g"
    using step_synchronous [OF s] Cons.prems by simp
  then show ?case
    using Cons.IH [OF r] Cons.prems(2) by simp
qed

text \<open>
  Claim C9. With \<open>optimize_every_n_scans = 0\<close>, after every sequence of events from the
  constructor on, no optimization is pending, the work queue is not allocated (the null
  pointer), no callback of the drain driver is registered, and \<open>AddWorkItem\<close> runs every
  work item inline.
\<close>

theorem no_periodic_optimization:
  fixes ext :: "'p::{times, one, inverse} Externals"
  assumes "optimize_every_n_scans opts = 0"
    and "run ext es (SparsePoseGraph_new opts) = Some g"
  shows "\<not> run_loop_closure g \<and> scan_queue g = None \<and>
         when_done (constraint_builder g) = [] \<and>
         (\<forall>work_item. AddWorkItem ext work_item g = RunWorkItem ext work_item g)"
proof -
  have "synchronous (SparsePoseGraph_new opts :: 'p SparsePoseGraph)"
    and "optimize_every_n_scans (options (SparsePoseGraph_new opts :: 'p SparsePoseGraph)) = 0"
    using assms(1) by (simp_all add: synchronous_def SparsePoseGraph_new_def)
  then have "synchronous g"
    using run_synchronous [OF assms(2)] by simp
  then show ?thesis
    by (simp add: synchronous_def AddWorkItem_def)
qed

theorem no_periodic_optimization_witness:
  "optimize_every_n_scans synchronous_options = 0 \<and>
   run example_externals three_scans (SparsePoseGraph_new synchronous_options) \<noteq> None \<and>
   (let g = the (run example_externals three_scans (SparsePoseGraph_new synchronous_options))
    in \<not> run_loop_closure g \<and> scan_queue g = None \<and>
       when_done (constraint_builder g) = [] \<and>
       num_scans_since_last_loop_closure g = 3)"
proof -
  have o: "optimize_every_n_scans synchronous_options = 0"
    by (simp add: synchronous_options_def)
  obtain g where r: "run example_externals three_scans (SparsePoseGraph_new synchronous_options) = Some g"
    and n: "num_scans_since_last_loop_closure g = 3"
    by (simp add: three_scans_def synchronous_options_def example_options_def
          example_externals_def model_defs cong: eval_congs)
  show ?thesis
    using no_periodic_optimization [OF o r] o r n by simp
qed

section \<open>Poses after a solve\<close>

lemma ExtrapolateSubmapTransforms_cong:
  "submap_states g1 = submap_states g2 \<Longrightarrow>
   ExtrapolateSubmapTransforms ext g1 st t = ExtrapolateSubmapTransforms ext g2 st t"
  by (simp add: ExtrapolateSubmapTransforms_def)

lemma extrapolation_transform_cong:
  "submap_states g1 = submap_states g2 \<Longrightarrow>
   optimization_problem g1 = optimization_problem g2 \<Longrightarrow>
   optimized_submap_transforms g1 = optimized_submap_transforms g2 \<Longrightarrow>
   extrapolation_transform ext g1 = extrapolation_transform ext g2"
  by (simp add: extrapolation_transform_def fun_eq_iff ExtrapolateSubmapTransforms_def)

lemma CopyOptimizedPoses_effect:
  assumes "CopyOptimizedPoses is g = Some g'" and "distinct is"
  shows "length (trajectory_nodes g') = length (trajectory_nodes g) \<and>
         (\<forall>j < length (trajectory_nodes g).
            trajectory_nodes g' ! j =
              (if j \<in> set is
               then (trajectory_nodes g ! j)
                      \<lparr>TrajectoryNode.pose :=
                         point_cloud_pose
                           (node_data (optimization_problem g) !
                              NodeId.trajectory_id (scan_index_to_node_id g ! j) !
                              node_index (scan_index_to_node_id g ! j))\<rparr>
               else trajectory_nodes g ! j))"
  using assms
proof (induction "is" arbitrary: g)
  case Nil
  then show ?case by simp
next
  case (Cons i rest)
  let ?id = "scan_index_to_node_id g ! i"
  let ?v = "point_cloud_pose (node_data (optimization_problem g) !
              NodeId.trajectory_id ?id ! node_index ?id)"
  let ?g1 = "g\<lparr>trajectory_nodes :=
               (trajectory_nodes g)[i := (trajectory_nodes g ! i)\<lparr>TrajectoryNode.pose := ?v\<rparr>]\<rparr>"
  from Cons.prems(1) have i: "i < length (trajectory_nodes g)"
    and r: "CopyOptimizedPoses rest ?g1 = Some g'"
    by (auto simp: Let_def vector_at_def split: Option.bind_splits if_splits)
  have d: "distinct rest" "i \<notin> set rest"
    using Cons.prems(2) by simp_all
  note IH = Cons.IH [OF r d(1)]
  show ?case
  proof (intro conjI allI impI)
    show "length (trajectory_nodes g') = length (trajectory_nodes g)"
      using IH by simp
  next
    fix j assume j: "j < length (trajectory_nodes g)"
    then have "trajectory_nodes g' ! j =
        (if j \<in> set rest
         then (trajectory_nodes ?g1 ! j)
                \<lparr>TrajectoryNode.pose :=
                   point_cloud_pose
                     (node_data (optimization_problem ?g1) !
                        NodeId.trajectory_id (scan_index_to_node_id ?g1 ! j) !
                        node_index (scan_index_to_node_id ?g1 ! j))\<rparr>
         else trajectory_nodes ?g1 ! j)"
      using IH by simp
    then show "trajectory_nodes g' ! j =
        (if j \<in> set (i # rest)
         then (trajectory_nodes g ! j)
                \<lparr>TrajectoryNode.pose :=
                   point_cloud_pose
                     (node_data (optimization_problem g) !
                        NodeId.trajectory_id (scan_index_to_node_id g ! j) !
                        node_index (scan_index_to_node_id g ! j))\<rparr>
         else trajectory_nodes g ! j)"
      using d(2) i j by (auto simp: nth_list_update)
  qed
qed

lemma ExtrapolateLaterPoses_effect:
  assumes "ExtrapolateLaterPoses ext is m g = Some (m', g')" and "distinct is"
    and "\<forall>t e. m t = Some e \<longrightarrow> e = extrapolation_transform ext g t"
  shows "length (trajectory_nodes g') = length (trajectory_nodes g) \<and>
         (\<forall>j < length (trajectory_nodes g).
            trajectory_nodes g' ! j =
              (if j \<in> set is
               then (trajectory_nodes g ! j)
                      \<lparr>TrajectoryNode.pose :=
                         extrapolation_transform ext g
                           (ConstantData.trajectory_id (constant_data (trajectory_nodes g ! j))) *
                         TrajectoryNode.pose (trajectory_nodes g ! j)\<rparr>
               else trajectory_nodes g ! j))"
  using assms
proof (induction "is" arbitrary: g m)
  case Nil
  then show ?case by simp
next
  case (Cons i rest)
  let ?node = "trajectory_nodes g ! i"
  let ?t = "ConstantData.trajectory_id (constant_data ?node)"
  let ?E = "extrapolation_transform ext g"
  let ?g1 = "g\<lparr>trajectory_nodes :=
               (trajectory_nodes g)
                 [i := ?node\<lparr>TrajectoryNode.pose := ?E ?t * TrajectoryNode.pose ?node\<rparr>]\<rparr>"
  from Cons.prems(1) obtain m1 where i: "i < length (trajectory_nodes g)"
    and m1: "(if m ?t = None
              then CHECK (length (ExtrapolateSubmapTransforms ext g
                                    (submap_data (optimization_problem g)) ?t) =
                          length (ExtrapolateSubmapTransforms ext g
                                    (optimized_submap_transforms g) ?t)) \<bind>
                   (\<lambda>_. Some (m(?t \<mapsto> ?E ?t)))
              else Some m) = Some m1"
    and r0: "m1 ?t \<bind> (\<lambda>transform. ExtrapolateLaterPoses ext rest m1
               (g\<lparr>trajectory_nodes :=
                    (trajectory_nodes g)
                      [i := ?node\<lparr>TrajectoryNode.pose := transform * TrajectoryNode.pose ?node\<rparr>]\<rparr>))
             = Some (m', g')"
    by (auto simp: Let_def vector_at_def extrapolation_transform_def
             split: Option.bind_splits if_splits)
  have inv1: "\<forall>t e. m1 t = Some e \<longrightarrow> e = ?E t"
    using m1 Cons.prems(3) by (auto split: if_splits Option.bind_splits)
  have mt: "m1 ?t = Some (?E ?t)"
    using m1 Cons.prems(3) by (auto split: if_splits Option.bind_splits)
  have r: "ExtrapolateLaterPoses ext rest m1 ?g1 = Some (m', g')"
    using r0 mt by simp
  have E1: "extrapolation_transform ext ?g1 = ?E"
    by (rule extrapolation_transform_cong) simp_all
  have d: "distinct rest" "i \<notin> set rest"
    using Cons.prems(2) by simp_all
  have IH: "length (trajectory_nodes g') = length (trajectory_nodes ?g1) \<and>
         (\<forall>j < length (trajectory_nodes ?g1).
            trajectory_nodes g' ! j =
              (if j \<in> set rest
               then (trajectory_nodes ?g1 ! j)
                      \<lparr>TrajectoryNode.pose :=
                         ?E (ConstantData.trajectory_id (constant_data (trajectory_nodes ?g1 ! j))) *
                         TrajectoryNode.pose (trajectory_nodes ?g1 ! j)\<rparr>
               else trajectory_nodes ?g1 ! j))"
    using Cons.IH [OF r d(1)] inv1 unfolding E1 by blast
  show ?case
  proof (intro conjI allI impI)
    show "length (trajectory_nodes g') = length (trajectory_nodes g)"
      using IH by simp
  next
    fix j assume j: "j < length (trajectory_nodes g)"
    then have "trajectory_nodes g' ! j =
              (if j \<in> set rest
               then (trajectory_nodes ?g1 ! j)
                      \<lparr>TrajectoryNode.pose :=
                         ?E (ConstantData.trajectory_id (constant_data (trajectory_nodes ?g1 ! j))) *
                         TrajectoryNode.pose (trajectory_nodes ?g1 ! j)\<rparr>
               else trajectory_nodes ?g1 ! j)"
      using IH by simp
    then show "trajectory_nodes g' ! j =
              (if j \<in> set (i # rest)
               then (trajectory_nodes g ! j)
                      \<lparr>TrajectoryNode.pose :=
                         ?E (ConstantData.trajectory_id (constant_data (trajectory_nodes g ! j))) *
                         TrajectoryNode.pose (trajectory_nodes g ! j)\<rparr>
               else trajectory_nodes g ! j)"
      using d(2) i j by (auto simp: nth_list_update)
  qed
qed

lemma RunOptimization_steps:
  assumes "RunOptimization ext g = Some g'" and "submap_data (optimization_problem g) \<noteq> []"
    and "Solve ext (constraints g) (optimization_problem g) = (sd, nd)"
    and "g1 = g\<lparr>optimization_problem :=
                  (optimization_problem g)
                    \<lparr>submap_data := sd, node_data := nd,
                     num_solves := Suc (num_solves (optimization_problem g))\<rparr>\<rparr>"
  shows "\<exists>g2 m g3.
           CopyOptimizedPoses [0..<length (scan_index_to_node_id g)] g1 = Some g2 \<and>
           length (scan_index_to_node_id g) \<le> length (trajectory_nodes g2) \<and>
           ExtrapolateLaterPoses ext
             [length (scan_index_to_node_id g)..<length (trajectory_nodes g2)] Map.empty g2 =
             Some (m, g3) \<and>
           trajectory_nodes g' = trajectory_nodes g3 \<and>
           optimization_problem g' = optimization_problem g3 \<and>
           optimized_submap_transforms g' = submap_data (optimization_problem g3)"
  using assms
  by (auto simp: RunOptimization_def Let_def CHECK_def split: Option.bind_splits if_splits)

text \<open>
  Claim C2. After a solve (the optimization problem holds submap data and
  \<open>RunOptimization\<close> returns): the node of every scan index below the number of node ids
  allocated has its pose replaced by the pose of its node id in the solved node data; the
  node of every later scan index has its pose multiplied from the left by the
  extrapolation transform of its trajectory, which is the last element of
  \<open>ExtrapolateSubmapTransforms\<close> over the solved submap data composed with the inverse of
  the last element of \<open>ExtrapolateSubmapTransforms\<close> over the previous snapshot; and the
  snapshot becomes the solved submap data.
\<close>

theorem RunOptimization_poses:
  fixes ext :: "'p::{times, one, inverse} Externals"
  assumes run: "RunOptimization ext g = Some g'"
    and nonempty: "submap_data (optimization_problem g) \<noteq> []"
    and solve: "Solve ext (constraints g) (optimization_problem g) = (sd, nd)"
  shows
    "length (trajectory_nodes g') = length (trajectory_nodes g) \<and>
     length (scan_index_to_node_id g) \<le> length (trajectory_nodes g) \<and>
     (\<forall>i < length (scan_index_to_node_id g).
        trajectory_nodes g' ! i =
          (trajectory_nodes g ! i)
            \<lparr>TrajectoryNode.pose :=
               point_cloud_pose
                 (nd ! NodeId.trajectory_id (scan_index_to_node_id g ! i) !
                    node_index (scan_index_to_node_id g ! i))\<rparr>) \<and>
     (\<forall>i. length (scan_index_to_node_id g) \<le> i \<and> i < length (trajectory_nodes g) \<longrightarrow>
        trajectory_nodes g' ! i =
          (trajectory_nodes g ! i)
            \<lparr>TrajectoryNode.pose :=
               last (ExtrapolateSubmapTransforms ext g sd
                       (ConstantData.trajectory_id (constant_data (trajectory_nodes g ! i)))) *
               inverse
                 (last (ExtrapolateSubmapTransforms ext g (optimized_submap_transforms g)
                          (ConstantData.trajectory_id (constant_data (trajectory_nodes g ! i))))) *
               TrajectoryNode.pose (trajectory_nodes g ! i)\<rparr>) \<and>
     submap_data (optimization_problem g') = sd \<and>
     node_data (optimization_problem g') = nd \<and>
     optimized_submap_transforms g' = sd"
proof -
  let ?n = "length (scan_index_to_node_id g)"
  define g1 where "g1 = g\<lparr>optimization_problem :=
                  (optimization_problem g)
                    \<lparr>submap_data := sd, node_data := nd,
                     num_solves := Suc (num_solves (optimization_problem g))\<rparr>\<rparr>"
  from RunOptimization_steps [OF run nonempty solve g1_def] obtain g2 m g3 where
    copy: "CopyOptimizedPoses [0..<?n] g1 = Some g2"
    and le: "?n \<le> length (trajectory_nodes g2)"
    and later: "ExtrapolateLaterPoses ext [?n..<length (trajectory_nodes g2)] Map.empty g2 =
                Some (m, g3)"
    and g': "trajectory_nodes g' = trajectory_nodes g3"
      "optimization_problem g' = optimization_problem g3"
      "optimized_submap_transforms g' = submap_data (optimization_problem g3)"
    by blast
  have f2: "optimization_frame g1 g2" "optimization_problem g2 = optimization_problem g1"
    "optimized_submap_transforms g2 = optimized_submap_transforms g1"
    using CopyOptimizedPoses_frame [OF copy] by simp_all
  have f3: "optimization_frame g2 g3" "optimization_problem g3 = optimization_problem g2"
    using ExtrapolateLaterPoses_frame [OF later] by simp_all
  have c: "length (trajectory_nodes g2) = length (trajectory_nodes g)"
    "\<And>j. j < length (trajectory_nodes g) \<Longrightarrow>
       trajectory_nodes g2 ! j =
         (if j < ?n
          then (trajectory_nodes g ! j)
                 \<lparr>TrajectoryNode.pose :=
                    point_cloud_pose
                      (nd ! NodeId.trajectory_id (scan_index_to_node_id g ! j) !
                         node_index (scan_index_to_node_id g ! j))\<rparr>
          else trajectory_nodes g ! j)"
    using CopyOptimizedPoses_effect [OF copy] by (simp_all add: g1_def)
  have E: "extrapolation_transform ext g2 t =
      last (ExtrapolateSubmapTransforms ext g sd t) *
      inverse (last (ExtrapolateSubmapTransforms ext g (optimized_submap_transforms g) t))" for t
  proof -
    have "submap_states g2 = submap_states g"
      using f2(1) by (simp add: optimization_frame_def g1_def)
    then show ?thesis
      using f2(2,3)
      by (simp add: extrapolation_transform_def g1_def
            ExtrapolateSubmapTransforms_cong [of g2 g])
  qed
  have l: "length (trajectory_nodes g3) = length (trajectory_nodes g2)"
    "\<And>j. j < length (trajectory_nodes g2) \<Longrightarrow>
       trajectory_nodes g3 ! j =
         (if ?n \<le> j
          then (trajectory_nodes g2 ! j)
                 \<lparr>TrajectoryNode.pose :=
                    extrapolation_transform ext g2
                      (ConstantData.trajectory_id (constant_data (trajectory_nodes g2 ! j))) *
                    TrajectoryNode.pose (trajectory_nodes g2 ! j)\<rparr>
          else trajectory_nodes g2 ! j)"
    using ExtrapolateLaterPoses_effect [OF later] by simp_all
  show ?thesis
  proof (intro conjI allI impI)
    show "length (trajectory_nodes g') = length (trajectory_nodes g)"
      using g'(1) l(1) c(1) by simp
    show "?n \<le> length (trajectory_nodes g)"
      using le c(1) by simp
    show "submap_data (optimization_problem g') = sd"
      "node_data (optimization_problem g') = nd"
      "optimized_submap_transforms g' = sd"
      using g'(2,3) f3(2) f2(2) by (simp_all add: g1_def)
  next
    fix i assume "i < ?n"
    then show "trajectory_nodes g' ! i =
          (trajectory_nodes g ! i)
            \<lparr>TrajectoryNode.pose :=
               point_cloud_pose
                 (nd ! NodeId.trajectory_id (scan_index_to_node_id g ! i) !
                    node_index (scan_index_to_node_id g ! i))\<rparr>"
      using g'(1) l(2) [of i] c(2) [of i] c(1) le by simp
  next
    fix i assume "?n \<le> i \<and> i < length (trajectory_nodes g)"
    then show "trajectory_nodes g' ! i =
          (trajectory_nodes g ! i)
            \<lparr>TrajectoryNode.pose :=
               last (ExtrapolateSubmapTransforms ext g sd
                       (ConstantData.trajectory_id (constant_data (trajectory_nodes g ! i)))) *
               inverse
                 (last (ExtrapolateSubmapTransforms ext g (optimized_submap_transforms g)
                          (ConstantData.trajectory_id (constant_data (trajectory_nodes g ! i))))) *
               TrajectoryNode.pose (trajectory_nodes g ! i)\<rparr>"
      using g'(1) l(2) [of i] c(2) [of i] c(1) E by simp
  qed
qed

lemmas example_defs =
  three_scans_def example_options_def example_externals_def model_defs

lemma buffered_scan_fields:
  "submap_data (optimization_problem buffered_scan) =
     [[SubmapData 1, SubmapData (1 * inverse (translate 10) * translate 11)]]"
  "node_data (optimization_problem buffered_scan) =
     [[NodeData 0 (1 * inverse (translate 10) * translate 0),
       NodeData 1 (1 * inverse (translate 10) * translate 1)]]"
  "scan_index_to_node_id buffered_scan = [NodeId 0 0, NodeId 0 1]"
  "length (trajectory_nodes buffered_scan) = 3"
  "optimized_submap_transforms buffered_scan = []"
  "submap_states buffered_scan =
     [[\<lparr>submap = 10, node_ids = {NodeId 0 0, NodeId 0 1}, finished = False\<rparr>,
       \<lparr>submap = 11, node_ids = {NodeId 0 1}, finished = False\<rparr>]]"
  "ConstantData.trajectory_id (constant_data (trajectory_nodes buffered_scan ! 2)) = 0"
  unfolding buffered_scan_def
  by (simp_all add: example_defs cong: eval_congs) auto

theorem RunOptimization_poses_witness:
  "submap_data (optimization_problem buffered_scan) \<noteq> [] \<and>
   length (scan_index_to_node_id buffered_scan) = 2 \<and>
   length (trajectory_nodes buffered_scan) = 3 \<and>
   RunOptimization example_externals buffered_scan \<noteq> None \<and>
   (let g' = the (RunOptimization example_externals buffered_scan)
    in TrajectoryNode.pose (trajectory_nodes g' ! 0) =
         translate 1 * (1 * inverse (translate 10) * translate 0) \<and>
       TrajectoryNode.pose (trajectory_nodes g' ! 2) =
         translate 1 * (1 * inverse (translate 10) * translate 11) *
         inverse (1 * inverse (translate 10) * translate 11) *
         TrajectoryNode.pose (trajectory_nodes buffered_scan ! 2))"
proof -
  obtain g' where r: "RunOptimization example_externals buffered_scan = Some g'"
    unfolding buffered_scan_def by (simp add: example_defs cong: eval_congs)
  have n: "submap_data (optimization_problem buffered_scan) \<noteq> []"
    by (simp add: buffered_scan_fields)
  obtain sd nd where s: "Solve example_externals (constraints buffered_scan)
      (optimization_problem buffered_scan) = (sd, nd)"
    and sd: "sd = [[SubmapData (translate 1 * 1),
                    SubmapData (translate 1 * (1 * inverse (translate 10) * translate 11))]]"
    and nd: "nd = [[NodeData 0 (translate 1 * (1 * inverse (translate 10) * translate 0)),
                    NodeData 1 (translate 1 * (1 * inverse (translate 10) * translate 1))]]"
    by (simp add: example_externals_def buffered_scan_fields)
  note T = RunOptimization_poses [OF r n s]
  have a: "trajectory_nodes g' ! 0 =
      (trajectory_nodes buffered_scan ! 0)
        \<lparr>TrajectoryNode.pose := translate 1 * (1 * inverse (translate 10) * translate 0)\<rparr>"
    using T [THEN conjunct2, THEN conjunct2, THEN conjunct1, rule_format, of 0]
    by (simp add: buffered_scan_fields nd)
  have new: "ExtrapolateSubmapTransforms example_externals buffered_scan sd 0 =
      [translate 1 * 1, translate 1 * (1 * inverse (translate 10) * translate 11)]"
    by (simp add: ExtrapolateSubmapTransforms_def buffered_scan_fields Let_def
        ExtrapolateLoop_def ExtrapolateStep_def sd)
  have old: "ExtrapolateSubmapTransforms example_externals buffered_scan [] 0 =
      [1, 1 * inverse (translate 10) * translate 11]"
    by (simp add: ExtrapolateSubmapTransforms_def buffered_scan_fields Let_def
        ExtrapolateLoop_def ExtrapolateStep_def example_externals_def)
  have b: "trajectory_nodes g' ! 2 =
      (trajectory_nodes buffered_scan ! 2)
        \<lparr>TrajectoryNode.pose :=
           translate 1 * (1 * inverse (translate 10) * translate 11) *
           inverse (1 * inverse (translate 10) * translate 11) *
           TrajectoryNode.pose (trajectory_nodes buffered_scan ! 2)\<rparr>"
    using T [THEN conjunct2, THEN conjunct2, THEN conjunct2, THEN conjunct1, rule_format, of 2]
    by (simp add: buffered_scan_fields new old)
  show ?thesis
    using r a b by (simp add: buffered_scan_fields)
qed

section \<open>Intra-submap constraints\<close>

lemma states_grow_refl [simp]: "states_grow g g"
  by (auto simp: states_grow_def)

lemma states_grow_trans: "states_grow g g1 \<Longrightarrow> states_grow g1 g2 \<Longrightarrow> states_grow g g2"
  unfolding states_grow_def by (meson subset_trans)

lemma states_grow_same: "submap_states g' = submap_states g \<Longrightarrow> states_grow g g'"
  by (auto simp: states_grow_def submap_state_at_def)

lemma intra_submap_ok_mono:
  "intra_submap_ok g \<Longrightarrow> states_grow g g' \<Longrightarrow> constraints g' = constraints g \<Longrightarrow>
   intra_submap_ok g'"
  unfolding intra_submap_ok_def states_grow_def by (metis subsetD)

lemma submap_state_at_Some:
  "submap_state_at g sid = Some state \<longleftrightarrow>
     SubmapId.trajectory_id sid < length (submap_states g) \<and>
     submap_index sid < length (submap_states g ! SubmapId.trajectory_id sid) \<and>
     state = submap_states g ! SubmapId.trajectory_id sid ! submap_index sid"
  by (auto simp: submap_state_at_def vector_at_def split: Option.bind_splits)

lemma submap_state_at_update:
  assumes "submap_state_at g sid = Some state"
  shows "submap_state_at
           (g\<lparr>submap_states :=
                (submap_states g)
                  [SubmapId.trajectory_id sid :=
                     (submap_states g ! SubmapId.trajectory_id sid)
                       [submap_index sid := state']]\<rparr>) sid' =
         (if sid' = sid then Some state' else submap_state_at g sid')"
proof -
  obtain t i where sid: "sid = SubmapId t i" by (cases sid)
  obtain t' i' where sid': "sid' = SubmapId t' i'" by (cases sid')
  have r: "t < length (submap_states g)" "i < length (submap_states g ! t)"
    using assms by (simp_all add: submap_state_at_Some sid)
  show ?thesis
    using r
    by (auto simp: submap_state_at_def vector_at_def sid sid' nth_list_update
             split: Option.bind_splits)
qed

lemma states_grow_update:
  assumes "submap_state_at g sid = Some state" and "node_ids state \<subseteq> node_ids state'"
  shows "states_grow g
           (g\<lparr>submap_states :=
                (submap_states g)
                  [SubmapId.trajectory_id sid :=
                     (submap_states g ! SubmapId.trajectory_id sid)
                       [submap_index sid := state']]\<rparr>)"
  unfolding states_grow_def
  using assms by (auto simp: submap_state_at_update [OF assms(1)])

lemma states_kept_refl [simp]: "states_kept g g"
  by (auto simp: states_kept_def)

lemma states_kept_trans: "states_kept g g1 \<Longrightarrow> states_kept g1 g2 \<Longrightarrow> states_kept g g2"
  unfolding states_kept_def by (meson subset_trans)

lemma states_kept_grow: "states_kept g g' \<Longrightarrow> states_grow g g'"
  unfolding states_kept_def states_grow_def by blast

lemma states_kept_same: "submap_states g' = submap_states g \<Longrightarrow> states_kept g g'"
  by (auto simp: states_kept_def submap_state_at_def)

lemma intra_submap_constraint_cong:
  "submap_ids g1 = submap_ids g \<Longrightarrow> options g1 = options g \<Longrightarrow>
   intra_submap_constraint ext g1 = intra_submap_constraint ext g"
  by (simp add: intra_submap_constraint_def fun_eq_iff GetSubmapId_def)

lemma InsertionSubmapsLoop_effect:
  assumes "InsertionSubmapsLoop ext n p c ins g = Some g'"
  shows "constraints g' = constraints g @ map (intra_submap_constraint ext g n p c) ins \<and>
         (\<forall>s \<in> set ins. \<exists>sid state state'.
            GetSubmapId g s = Some sid \<and> submap_state_at g sid = Some state \<and>
            \<not> finished state \<and>
            submap_state_at g' sid = Some state' \<and> n \<in> node_ids state') \<and>
         states_kept g g' \<and> insertion_frame g g' \<and>
         (intra_submap_ok g \<longrightarrow> intra_submap_ok g')"
  using assms
proof (induction ins arbitrary: g)
  case Nil
  then show ?case
    by (simp add: insertion_frame_def)
next
  case (Cons s rest)
  from Cons.prems obtain sid state where
    sid: "GetSubmapId g s = Some sid"
    and state: "submap_state_at g sid = Some state"
    and unfinished: "\<not> finished state"
    by (auto simp: CHECK_def split: Option.bind_splits if_splits)
  define state1 where "state1 = state\<lparr>node_ids := insert n (node_ids state)\<rparr>"
  define g1 where "g1 = g\<lparr>submap_states :=
      (submap_states g)
        [SubmapId.trajectory_id sid :=
           (submap_states g ! SubmapId.trajectory_id sid)[submap_index sid := state1]]\<rparr>"
  define g2 where "g2 = g1\<lparr>constraints :=
      constraints g1 @ [intra_submap_constraint ext g n p c s]\<rparr>"
  have r: "InsertionSubmapsLoop ext n p c rest g2 = Some g'"
    using Cons.prems sid state unfinished
    by (simp add: g2_def g1_def state1_def CHECK_def Let_def intra_submap_constraint_def)
  note IH = Cons.IH [OF r]
  note IH1 = IH [THEN conjunct1]
  note IH2 = IH [THEN conjunct2, THEN conjunct1]
  note IH3 = IH [THEN conjunct2, THEN conjunct2, THEN conjunct1]
  note IH4 = IH [THEN conjunct2, THEN conjunct2, THEN conjunct2, THEN conjunct1]
  note IH5 = IH [THEN conjunct2, THEN conjunct2, THEN conjunct2, THEN conjunct2]
  have at1: "submap_state_at g1 sid' = (if sid' = sid then Some state1 else submap_state_at g sid')"
    for sid'
    unfolding g1_def by (rule submap_state_at_update [OF state])
  have at2: "submap_state_at g2 = submap_state_at g1"
    by (simp add: g2_def fun_eq_iff submap_state_at_def)
  have k2: "states_kept g g2"
    unfolding states_kept_def at2 at1 using state by (auto simp: state1_def)
  have f2: "insertion_frame g g2"
    by (simp add: insertion_frame_def control_unchanged_def g2_def g1_def)
  have cong2: "intra_submap_constraint ext g2 = intra_submap_constraint ext g"
    by (rule intra_submap_constraint_cong) (simp_all add: g2_def g1_def)
  have ok2: "intra_submap_ok g2" if "intra_submap_ok g"
  proof -
    have "states_grow g g1"
      using states_kept_grow [OF k2] by (simp add: states_grow_def at2)
    with that have "intra_submap_ok g1"
      by (rule intra_submap_ok_mono) (simp add: g1_def)
    then show ?thesis
      unfolding intra_submap_ok_def at2
      using sid by (auto simp: g2_def at1 intra_submap_constraint_def state1_def)
  qed
  show ?case
  proof (intro conjI ballI impI)
    show "constraints g' =
        constraints g @ map (intra_submap_constraint ext g n p c) (s # rest)"
      unfolding IH1 cong2 by (simp add: g2_def g1_def)
    show "states_kept g g'"
      using k2 IH3 by (rule states_kept_trans)
    show "insertion_frame g g'"
      using f2 IH4 by (simp add: insertion_frame_def control_unchanged_def)
    show "intra_submap_ok g'" if "intra_submap_ok g"
      using ok2 [OF that] IH5 by simp
  next
    fix x assume "x \<in> set (s # rest)"
    then consider "x = s" | "x \<in> set rest" by auto
    then show "\<exists>sid state state'.
            GetSubmapId g x = Some sid \<and> submap_state_at g sid = Some state \<and>
            \<not> finished state \<and>
            submap_state_at g' sid = Some state' \<and> n \<in> node_ids state'"
    proof cases
      case 1
      have "submap_state_at g2 sid = Some state1"
        by (simp add: at2 at1)
      then obtain state' where "submap_state_at g' sid = Some state'"
        and "node_ids state1 \<subseteq> node_ids state'"
        using IH3 unfolding states_kept_def by blast
      then show ?thesis
        using 1 sid state unfinished by (auto simp: state1_def)
    next
      case 2
      then obtain sid2 st2 st' where
        a: "GetSubmapId g2 x = Some sid2" "submap_state_at g2 sid2 = Some st2"
          "\<not> finished st2" "submap_state_at g' sid2 = Some st'" "n \<in> node_ids st'"
        using IH2 by blast
      have "GetSubmapId g x = Some sid2"
        using a(1) by (simp add: GetSubmapId_def g2_def g1_def)
      moreover have "\<exists>st. submap_state_at g sid2 = Some st \<and> \<not> finished st"
        using a(2,3) state unfinished by (auto simp: at2 at1 state1_def split: if_splits)
      ultimately show ?thesis
        using a(4,5) by blast
    qed
  qed
qed

lemma GrowSubmapTransformsAsNeeded_frame:
  "GrowSubmapTransformsAsNeeded ext ins g = Some g' \<Longrightarrow>
   g' = g\<lparr>optimization_problem := optimization_problem g'\<rparr>"
  by (auto simp: GrowSubmapTransformsAsNeeded_def Let_def split: Option.bind_splits if_splits)

lemma AllocateNode_effect:
  assumes "AllocateNode ext i m p g = Some (n, g')"
  shows "\<exists>matching_id.
           GetSubmapId g m = Some matching_id \<and>
           n = NodeId (SubmapId.trajectory_id matching_id)
                 (num_nodes_in_trajectory g (SubmapId.trajectory_id matching_id)) \<and>
           i = length (scan_index_to_node_id g) \<and>
           scan_index_to_node_id g' = scan_index_to_node_id g @ [n] \<and>
           submap_states g' = submap_states g \<and> constraints g' = constraints g \<and>
           submap_ids g' = submap_ids g \<and> options g' = options g"
  using assms
  by (auto simp: AllocateNode_def Let_def CHECK_def split: Option.bind_splits if_splits)

lemma NotifyAndMaybeOptimize_frame:
  "NotifyAndMaybeOptimize i g = Some g' \<Longrightarrow>
   submap_states g' = submap_states g \<and> constraints g' = constraints g \<and>
   scan_index_to_node_id g' = scan_index_to_node_id g \<and> submap_ids g' = submap_ids g"
  by (auto simp: NotifyAndMaybeOptimize_def Let_def Call_def HandleScanQueue_def WhenDone_def
        split: Option.bind_splits if_splits)

lemma FinishSubmap_effect:
  assumes "FinishSubmap ext f g = Some g'"
  shows "\<exists>sid state g1.
           GetSubmapId g f = Some sid \<and> submap_state_at g sid = Some state \<and>
           \<not> finished state \<and>
           ComputeConstraintsForOldScans ext f g = Some g1 \<and>
           g' = g1\<lparr>submap_states :=
                     (submap_states g1)
                       [SubmapId.trajectory_id sid :=
                          (submap_states g1 ! SubmapId.trajectory_id sid)
                            [submap_index sid := state\<lparr>finished := True\<rparr>]]\<rparr>"
proof -
  from assms obtain sid state g1 where
    a: "GetSubmapId g f = Some sid" "submap_state_at g sid = Some state" "\<not> finished state"
      "ComputeConstraintsForOldScans ext f g = Some g1"
    and g': "g' = g1\<lparr>submap_states :=
                     (submap_states g1)
                       [SubmapId.trajectory_id sid :=
                          (submap_states g1 ! SubmapId.trajectory_id sid)
                            [submap_index sid :=
                               (submap_states g1 ! SubmapId.trajectory_id sid ! submap_index sid)
                                 \<lparr>finished := True\<rparr>]]\<rparr>"
    by (auto simp: FinishSubmap_def Let_def CHECK_def split: Option.bind_splits if_splits)
  have "submap_states g1 = submap_states g"
    using ComputeConstraintsForOldScans_matcher_only [OF a(4)] by (simp add: matcher_only_def)
  then have "submap_states g1 ! SubmapId.trajectory_id sid ! submap_index sid = state"
    using a(2) by (simp add: submap_state_at_Some)
  then show ?thesis
    using a g' by auto
qed

lemma FinishSubmap_states:
  assumes "FinishSubmap ext f g = Some g'"
  shows "states_grow g g' \<and> constraints g' = constraints g \<and>
         scan_index_to_node_id g' = scan_index_to_node_id g \<and> submap_ids g' = submap_ids g"
proof -
  from FinishSubmap_effect [OF assms] obtain sid state g1 where
    a: "submap_state_at g sid = Some state"
      "ComputeConstraintsForOldScans ext f g = Some g1"
    and g': "g' = g1\<lparr>submap_states :=
                     (submap_states g1)
                       [SubmapId.trajectory_id sid :=
                          (submap_states g1 ! SubmapId.trajectory_id sid)
                            [submap_index sid := state\<lparr>finished := True\<rparr>]]\<rparr>"
    by blast
  have m: "matcher_only g g1"
    using a(2) by (rule ComputeConstraintsForOldScans_matcher_only)
  then have s1: "submap_state_at g1 sid = Some state"
    using a(1) by (simp add: matcher_only_def submap_state_at_def)
  have "states_grow g1 g'"
    unfolding g' by (rule states_grow_update [OF s1]) simp
  moreover have "states_grow g g1"
    using m by (simp add: states_grow_same matcher_only_def)
  ultimately show ?thesis
    using m by (auto intro: states_grow_trans simp: g' matcher_only_def)
qed

lemma ComputeConstraintsForScan_effect:
  fixes ext :: "'p::{times, one, inverse} Externals"
  assumes "ComputeConstraintsForScan ext scan_index matching_submap insertion_submaps
             finished_submap scan_pose covariance g = Some g'"
  shows
    "\<exists>matching_id the_node_id.
       GetSubmapId g matching_submap = Some matching_id \<and>
       the_node_id =
         NodeId (SubmapId.trajectory_id matching_id)
           (num_nodes_in_trajectory g (SubmapId.trajectory_id matching_id)) \<and>
       scan_index_to_node_id g' = scan_index_to_node_id g @ [the_node_id] \<and>
       (\<forall>submap_ptr \<in> set insertion_submaps. \<exists>the_submap_id state state'.
          GetSubmapId g submap_ptr = Some the_submap_id \<and>
          submap_state_at g the_submap_id = Some state \<and> \<not> finished state \<and>
          submap_state_at g' the_submap_id = Some state' \<and>
          the_node_id \<in> node_ids state') \<and>
       constraints g' =
         constraints g @
         map (\<lambda>submap_ptr.
                \<lparr>submap_id = the (GetSubmapId g submap_ptr),
                 node_id = the_node_id,
                 relative_transform = inverse (local_pose ext submap_ptr) * scan_pose,
                 sqrt_information =
                   ComputeSpdMatrixSqrtInverse ext covariance
                     (lower_covariance_eigenvalue_bound (options g)),
                 tag = INTRA_SUBMAP\<rparr>)
           insertion_submaps \<and>
       (intra_submap_ok g \<longrightarrow> intra_submap_ok g')"
proof -
  from ComputeConstraintsForScan_steps [OF assms] obtain g1 n g3 g4 g5 g6 where
    s: "GrowSubmapTransformsAsNeeded ext insertion_submaps g = Some g1"
      "AllocateNode ext scan_index matching_submap scan_pose g1 = Some (n, g3)"
      "InsertionSubmapsLoop ext n scan_pose covariance insertion_submaps g3 = Some g4"
      "FinishedSubmapsLoop ext scan_index n (all_submap_ids g4) g4 = Some g5"
      "(case finished_submap of None \<Rightarrow> Some g5 | Some q \<Rightarrow> FinishSubmap ext q g5) = Some g6"
      "NotifyAndMaybeOptimize scan_index g6 = Some g'"
    by blast
  note grow = GrowSubmapTransformsAsNeeded_frame [OF s(1)]
  have g1: "submap_states g1 = submap_states g" "constraints g1 = constraints g"
    "submap_ids g1 = submap_ids g" "options g1 = options g"
    "scan_index_to_node_id g1 = scan_index_to_node_id g"
    "num_nodes_in_trajectory g1 = num_nodes_in_trajectory g"
    by (subst grow, simp)+
  from AllocateNode_effect [OF s(2)] obtain matching_id where
    m: "GetSubmapId g matching_submap = Some matching_id"
      "n = NodeId (SubmapId.trajectory_id matching_id)
             (num_nodes_in_trajectory g (SubmapId.trajectory_id matching_id))"
    and g3: "scan_index_to_node_id g3 = scan_index_to_node_id g @ [n]"
      "submap_states g3 = submap_states g" "constraints g3 = constraints g"
      "submap_ids g3 = submap_ids g" "options g3 = options g"
    using g1 by (auto simp: GetSubmapId_def)
  have at3: "submap_state_at g3 = submap_state_at g"
    using g3(2) by (simp add: fun_eq_iff submap_state_at_def)
  have id3: "GetSubmapId g3 = GetSubmapId g"
    using g3(4) by (simp add: fun_eq_iff GetSubmapId_def)
  have ok3: "intra_submap_ok g3 = intra_submap_ok g"
    by (simp add: intra_submap_ok_def at3 g3(3))
  note L = InsertionSubmapsLoop_effect [OF s(3)]
  note L1 = L [THEN conjunct1]
  note L2 = L [THEN conjunct2, THEN conjunct1]
  note L3 = L [THEN conjunct2, THEN conjunct2, THEN conjunct1]
  note L4 = L [THEN conjunct2, THEN conjunct2, THEN conjunct2, THEN conjunct1]
  note L5 = L [THEN conjunct2, THEN conjunct2, THEN conjunct2, THEN conjunct2]
  have m5: "matcher_only g4 g5"
    using s(4) by (rule FinishedSubmapsLoop_matcher_only)
  have s6: "states_grow g5 g6 \<and> constraints g6 = constraints g5 \<and>
      scan_index_to_node_id g6 = scan_index_to_node_id g5"
    using s(5) by (auto split: option.splits dest: FinishSubmap_states)
  note n' = NotifyAndMaybeOptimize_frame [OF s(6)]
  have grow46: "states_grow g4 g'"
  proof -
    have "states_grow g4 g5"
      using m5 by (simp add: states_grow_same matcher_only_def)
    moreover have "states_grow g6 g'"
      using n' by (simp add: states_grow_same)
    ultimately show ?thesis
      using s6 by (blast intro: states_grow_trans)
  qed
  have c': "constraints g' = constraints g4"
    using n' s6 m5 by (simp add: matcher_only_def)
  have ids: "scan_index_to_node_id g' = scan_index_to_node_id g @ [n]"
    using n' s6 m5 L4 g3(1) by (simp add: matcher_only_def insertion_frame_def)
  have members: "\<exists>the_submap_id state state'.
          GetSubmapId g submap_ptr = Some the_submap_id \<and>
          submap_state_at g the_submap_id = Some state \<and> \<not> finished state \<and>
          submap_state_at g' the_submap_id = Some state' \<and> n \<in> node_ids state'"
    if "submap_ptr \<in> set insertion_submaps" for submap_ptr
  proof -
    from L2 that obtain sid state state4 where
      a: "GetSubmapId g3 submap_ptr = Some sid" "submap_state_at g3 sid = Some state"
        "\<not> finished state" "submap_state_at g4 sid = Some state4" "n \<in> node_ids state4"
      by blast
    from grow46 a(4) obtain state' where
      "submap_state_at g' sid = Some state'" "node_ids state4 \<subseteq> node_ids state'"
      unfolding states_grow_def by blast
    then show ?thesis
      using a by (auto simp: at3 id3)
  qed
  have cs: "constraints g' =
         constraints g @
         map (\<lambda>submap_ptr.
                \<lparr>submap_id = the (GetSubmapId g submap_ptr),
                 node_id = n,
                 relative_transform = inverse (local_pose ext submap_ptr) * scan_pose,
                 sqrt_information =
                   ComputeSpdMatrixSqrtInverse ext covariance
                     (lower_covariance_eigenvalue_bound (options g)),
                 tag = INTRA_SUBMAP\<rparr>)
           insertion_submaps"
    unfolding c' L1 g3(3)
    by (simp add: intra_submap_constraint_def [abs_def] id3 g3(5))
  have ok: "intra_submap_ok g'" if "intra_submap_ok g"
  proof -
    have "intra_submap_ok g4"
      using that L5 ok3 by simp
    then show ?thesis
      using grow46 c' by (rule intra_submap_ok_mono)
  qed
  show ?thesis
    using m ids members cs ok by blast
qed

lemma intra_submap_ok_cong:
  "constraints g' = constraints g \<Longrightarrow> submap_states g' = submap_states g \<Longrightarrow>
   intra_submap_ok g' = intra_submap_ok g"
  by (simp add: intra_submap_ok_def submap_state_at_def)

lemma intra_submap_ok_append:
  "intra_submap_ok g \<Longrightarrow> \<forall>c \<in> set result. tag c = INTER_SUBMAP \<Longrightarrow>
   intra_submap_ok (g\<lparr>constraints := constraints g @ result\<rparr>)"
  by (auto simp: intra_submap_ok_def submap_state_at_def)

lemma RunWorkItem_intra_submap_ok:
  assumes "RunWorkItem ext item g = Some g'" and "intra_submap_ok g"
  shows "intra_submap_ok g'"
proof (cases item)
  case (ComputeConstraintsForScanItem i m ins f p c)
  then have "ComputeConstraintsForScan ext i m ins f p c g = Some g'"
    using assms(1) by simp
  from ComputeConstraintsForScan_effect [OF this] show ?thesis
    using assms(2) by blast
next
  case (AddImuDataItem t ti a v)
  then obtain traj_id where
    "g' = g\<lparr>optimization_problem :=
             AddImuData_problem traj_id ti a v (optimization_problem g)\<rparr>"
    using assms(1) by (auto split: Option.bind_splits)
  then show ?thesis
    using assms(2) intra_submap_ok_cong [of g' g] by simp
qed

lemma AddWorkItem_intra_submap_ok:
  assumes "AddWorkItem ext item g = Some g'" and "intra_submap_ok g"
  shows "intra_submap_ok g'"
proof (cases "scan_queue g")
  case None
  then show ?thesis
    using assms RunWorkItem_intra_submap_ok [of ext item g g'] by (simp add: AddWorkItem_def)
next
  case (Some q)
  then have "g' = g\<lparr>scan_queue := Some (q @ [item])\<rparr>"
    using assms(1) by (simp add: AddWorkItem_def)
  then show ?thesis
    using assms(2) intra_submap_ok_cong [of g' g] by simp
qed

lemma resize_max_nth:
  "t < length v \<Longrightarrow> resize_max v n ! t = v ! t"
  by (simp add: resize_max_def nth_append)

lemma resize_max_length: "length (resize_max v n) = max (length v) n"
  by (simp add: resize_max_def)

lemma states_grow_register:
  assumes "submap_states g' =
             (resize_max (submap_states g) (t + 1))
               [t := resize_max (submap_states g) (t + 1) ! t @ [new]]"
  shows "states_grow g g'"
proof -
  have "submap_state_at g' sid = Some state" if "submap_state_at g sid = Some state"
    for sid state
  proof -
    obtain t' i where sid: "sid = SubmapId t' i" by (cases sid)
    have r: "t' < length (submap_states g)" "i < length (submap_states g ! t')"
      "state = submap_states g ! t' ! i"
      using that by (simp_all add: submap_state_at_Some sid)
    have l: "t' < length (resize_max (submap_states g) (t + 1))"
      using r(1) by (simp add: resize_max_length)
    show ?thesis
    proof (cases "t' = t")
      case True
      then show ?thesis
        unfolding submap_state_at_Some sid assms
        using r l by (simp add: resize_max_nth nth_append)
    next
      case False
      then show ?thesis
        unfolding submap_state_at_Some sid assms
        using r l by (simp add: resize_max_nth)
    qed
  qed
  then show ?thesis
    unfolding states_grow_def by blast
qed

lemma AddScan_registration_states:
  assumes "AddScan ext t r p c trajectory m ins f g = Some g'"
  shows "\<exists>item g4. AddWorkItem ext item g4 = Some g' \<and> constraints g4 = constraints g \<and>
                   states_grow g g4"
proof (cases "submap_ids g (last ins) = None")
  case True
  show ?thesis
    using assms True
    apply (clarsimp simp: AddScan_def Let_def CHECK_def split: Option.bind_splits if_splits)
       apply (intro exI conjI, assumption, simp, rule states_grow_register, simp)+
    done
next
  case False
  show ?thesis
    using assms False
    apply (clarsimp simp: AddScan_def Let_def CHECK_def split: Option.bind_splits if_splits)
       apply (intro exI conjI, assumption, simp, rule states_grow_same, simp)+
    done
qed

lemma AddScan_intra_submap_ok:
  assumes "AddScan ext t r p c trajectory m ins f g = Some g'" and "intra_submap_ok g"
  shows "intra_submap_ok g'"
proof -
  from AddScan_registration_states [OF assms(1)] obtain item g4 where
    w: "AddWorkItem ext item g4 = Some g'" and c: "constraints g4 = constraints g"
    and s: "states_grow g g4"
    by blast
  have "intra_submap_ok g4"
    using assms(2) s c by (rule intra_submap_ok_mono)
  with w show ?thesis
    by (rule AddWorkItem_intra_submap_ok)
qed

lemma RunOptimization_intra_submap_ok:
  assumes "RunOptimization ext g = Some g'" and "intra_submap_ok g"
  shows "intra_submap_ok g'"
  using RunOptimization_frame [OF assms(1)] assms(2) intra_submap_ok_cong [of g' g]
  by (simp add: optimization_frame_def)

lemma DrainScanQueue_intra_submap_ok:
  "DrainScanQueue ext g = Some g' \<Longrightarrow> intra_submap_ok g \<Longrightarrow> intra_submap_ok g'"
proof (induction ext g rule: DrainScanQueue.induct)
  case (1 ext g)
  show ?case
  proof (cases "run_loop_closure g")
    case True
    then have "g' = HandleScanQueue g"
      using "1.prems"(1) by (subst (asm) DrainScanQueue.simps) simp
    then show ?thesis
      using "1.prems"(2) intra_submap_ok_cong [of g' g]
      by (simp add: HandleScanQueue_def WhenDone_def)
  next
    case False
    show ?thesis
    proof (cases "scan_queue g")
      case None
      then show ?thesis
        using "1.prems"(1) False by (subst (asm) DrainScanQueue.simps) simp
    next
      case (Some q)
      show ?thesis
      proof (cases q)
        case Nil
        then have "g' = g\<lparr>scan_queue := None\<rparr>"
          using "1.prems"(1) False Some by (subst (asm) DrainScanQueue.simps) simp
        then show ?thesis
          using "1.prems"(2) intra_submap_ok_cong [of g' g] by simp
      next
        case (Cons work_item rest)
        then obtain g1 queue where
          r: "RunWorkItem ext work_item g = Some g1" and q: "scan_queue g1 = Some queue"
          and d: "DrainScanQueue ext (g1\<lparr>scan_queue := Some (tl queue)\<rparr>) = Some g'"
          using "1.prems"(1) False Some
          by (subst (asm) DrainScanQueue.simps) (auto split: Option.bind_splits)
        have "intra_submap_ok g1"
          using r "1.prems"(2) by (rule RunWorkItem_intra_submap_ok)
        then have "intra_submap_ok (g1\<lparr>scan_queue := Some (tl queue)\<rparr>)"
          using intra_submap_ok_cong [of "g1\<lparr>scan_queue := Some (tl queue)\<rparr>" g1] by simp
        then show ?thesis
          using "1.IH" [OF False Some Cons r q d] by simp
      qed
    qed
  qed
qed

lemma step_intra_submap_ok:
  assumes "step ext e g = Some g'" and "intra_submap_ok g"
    and "\<forall>c \<in> set (matcher_result e). tag c = INTER_SUBMAP"
  shows "intra_submap_ok g'"
proof (cases e)
  case (AddScanCall t r p c trajectory m ins f)
  then show ?thesis
    using assms AddScan_intra_submap_ok by fastforce
next
  case (AddImuDataCall trajectory t a v)
  then have "AddWorkItem ext (AddImuDataItem trajectory t a v)
      (g\<lparr>trajectory_ids := emplace (trajectory_ids g) trajectory (length (trajectory_ids g))\<rparr>)
    = Some g'"
    using assms(1) by (simp add: AddImuData_def)
  moreover have "intra_submap_ok
      (g\<lparr>trajectory_ids := emplace (trajectory_ids g) trajectory (length (trajectory_ids g))\<rparr>)"
    using assms(2) by (simp add: intra_submap_ok_def submap_state_at_def)
  ultimately show ?thesis
    by (rule AddWorkItem_intra_submap_ok)
next
  case (RunFinalOptimizationCall result)
  then obtain g3 where
    r: "RunOptimization ext
          (g\<lparr>constraints := constraints g @ result,
             optimization_problem :=
               SetMaxNumIterations (max_num_final_iterations (options g))
                 (optimization_problem g)\<rparr>) = Some g3"
    and g': "g' = g3\<lparr>optimization_problem :=
               SetMaxNumIterations (ceres_max_num_iterations (options g3))
                 (optimization_problem g3)\<rparr>"
    using assms(1)
    by (auto simp: RunFinalOptimization_def WaitForAllComputations_def Let_def
             split: Option.bind_splits)
  have "intra_submap_ok (g\<lparr>constraints := constraints g @ result\<rparr>)"
    using assms(2,3) RunFinalOptimizationCall by (simp add: intra_submap_ok_append)
  then have "intra_submap_ok
      (g\<lparr>constraints := constraints g @ result,
         optimization_problem :=
           SetMaxNumIterations (max_num_final_iterations (options g)) (optimization_problem g)\<rparr>)"
    by (simp add: intra_submap_ok_def submap_state_at_def)
  from RunOptimization_intra_submap_ok [OF r this] show ?thesis
    unfolding g' by (simp add: intra_submap_ok_def submap_state_at_def)
next
  case (ConstraintBuilderIdle result)
  show ?thesis
  proof (cases "when_done (constraint_builder g)")
    case Nil
    then show ?thesis
      using assms ConstraintBuilderIdle by simp
  next
    case (Cons callback rest)
    define g0 where "g0 = g\<lparr>constraint_builder := (constraint_builder g)\<lparr>when_done := rest\<rparr>\<rparr>"
    have cb: "HandleScanQueue_callback ext result g0 = Some g'"
      using assms(1) ConstraintBuilderIdle Cons by (cases callback) (simp add: g0_def)
    then obtain g2 where
      r: "RunOptimization ext (g0\<lparr>constraints := constraints g0 @ result\<rparr>) = Some g2"
      and d: "DrainScanQueue ext
                (g2\<lparr>num_scans_since_last_loop_closure := 0, run_loop_closure := False\<rparr>) =
              Some g'"
      by (auto simp: HandleScanQueue_callback_def Let_def split: Option.bind_splits)
    have "intra_submap_ok g0"
      using assms(2) by (simp add: g0_def intra_submap_ok_def submap_state_at_def)
    then have "intra_submap_ok (g0\<lparr>constraints := constraints g0 @ result\<rparr>)"
      using assms(3) ConstraintBuilderIdle by (simp add: intra_submap_ok_append)
    from RunOptimization_intra_submap_ok [OF r this]
    have "intra_submap_ok
        (g2\<lparr>num_scans_since_last_loop_closure := 0, run_loop_closure := False\<rparr>)"
      by (simp add: intra_submap_ok_def submap_state_at_def)
    with d show ?thesis
      by (rule DrainScanQueue_intra_submap_ok)
  qed
next
  case (MatcherConnects a b)
  then show ?thesis
    using assms by (auto simp: intra_submap_ok_def submap_state_at_def)
qed

lemma run_intra_submap_ok:
  "run ext es g = Some g' \<Longrightarrow> intra_submap_ok g \<Longrightarrow> inter_submap_only es \<Longrightarrow>
   intra_submap_ok g'"
proof (induction es arbitrary: g)
  case Nil
  then show ?case by simp
next
  case (Cons e es)
  then obtain g1 where s: "step ext e g = Some g1" and r: "run ext es g1 = Some g'"
    by (auto split: Option.bind_splits)
  have "intra_submap_ok g1"
    using step_intra_submap_ok [OF s Cons.prems(2)] Cons.prems(3)
    by (simp add: inter_submap_only_def)
  then show ?case
    using Cons.IH [OF r] Cons.prems(3) by (simp add: inter_submap_only_def)
qed

text \<open>
  Claim C7. After the constraint computation of a scan has returned, with the node id
  that it allocated: every submap of the insertion list was registered and unfinished
  when the computation began (the loop checks it, and nothing in front of the loop writes
  the flag) and holds the node id afterwards; the constraints are the former ones followed
  by one intra-submap constraint per entry of the insertion list, in order, whose
  transform is the inverse local pose of the submap composed with the pose of the scan
  and whose square-root information is \<open>ComputeSpdMatrixSqrtInverse\<close> of the covariance
  and the configured lower eigenvalue bound. Consequently, after every sequence of events
  from the constructor on in which the constraint builder delivers inter-submap
  constraints only, every intra-submap constraint has its node id among the node ids of
  the submap it refers to.
\<close>

theorem intra_submap_constraints:
  fixes ext :: "'p::{times, one, inverse} Externals"
  shows
    "(ComputeConstraintsForScan ext scan_index matching_submap insertion_submaps
        finished_submap scan_pose covariance g = Some g' \<longrightarrow>
      (\<exists>matching_id the_node_id.
         GetSubmapId g matching_submap = Some matching_id \<and>
         the_node_id =
           NodeId (SubmapId.trajectory_id matching_id)
             (num_nodes_in_trajectory g (SubmapId.trajectory_id matching_id)) \<and>
         scan_index_to_node_id g' = scan_index_to_node_id g @ [the_node_id] \<and>
         (\<forall>submap_ptr \<in> set insertion_submaps. \<exists>the_submap_id state state'.
            GetSubmapId g submap_ptr = Some the_submap_id \<and>
            submap_state_at g the_submap_id = Some state \<and> \<not> finished state \<and>
            submap_state_at g' the_submap_id = Some state' \<and>
            the_node_id \<in> node_ids state') \<and>
         constraints g' =
           constraints g @
           map (\<lambda>submap_ptr.
                  \<lparr>submap_id = the (GetSubmapId g submap_ptr),
                   node_id = the_node_id,
                   relative_transform = inverse (local_pose ext submap_ptr) * scan_pose,
                   sqrt_information =
                     ComputeSpdMatrixSqrtInverse ext covariance
                       (lower_covariance_eigenvalue_bound (options g)),
                   tag = INTRA_SUBMAP\<rparr>)
             insertion_submaps)) \<and>
     (inter_submap_only es \<and> run ext es (SparsePoseGraph_new opts) = Some h \<longrightarrow>
        intra_submap_ok h)"
proof (intro conjI impI)
  assume "ComputeConstraintsForScan ext scan_index matching_submap insertion_submaps
        finished_submap scan_pose covariance g = Some g'"
  from ComputeConstraintsForScan_effect [OF this]
  show "\<exists>matching_id the_node_id.
         GetSubmapId g matching_submap = Some matching_id \<and>
         the_node_id =
           NodeId (SubmapId.trajectory_id matching_id)
             (num_nodes_in_trajectory g (SubmapId.trajectory_id matching_id)) \<and>
         scan_index_to_node_id g' = scan_index_to_node_id g @ [the_node_id] \<and>
         (\<forall>submap_ptr \<in> set insertion_submaps. \<exists>the_submap_id state state'.
            GetSubmapId g submap_ptr = Some the_submap_id \<and>
            submap_state_at g the_submap_id = Some state \<and> \<not> finished state \<and>
            submap_state_at g' the_submap_id = Some state' \<and>
            the_node_id \<in> node_ids state') \<and>
         constraints g' =
           constraints g @
           map (\<lambda>submap_ptr.
                  \<lparr>submap_id = the (GetSubmapId g submap_ptr),
                   node_id = the_node_id,
                   relative_transform = inverse (local_pose ext submap_ptr) * scan_pose,
                   sqrt_information =
                     ComputeSpdMatrixSqrtInverse ext covariance
                       (lower_covariance_eigenvalue_bound (options g)),
                   tag = INTRA_SUBMAP\<rparr>)
             insertion_submaps"
    by blast
next
  assume a: "inter_submap_only es \<and> run ext es (SparsePoseGraph_new opts) = Some h"
  have "intra_submap_ok (SparsePoseGraph_new opts :: 'p SparsePoseGraph)"
    by (simp add: intra_submap_ok_def SparsePoseGraph_new_def)
  with a show "intra_submap_ok h"
    using run_intra_submap_ok by blast
qed

theorem intra_submap_constraints_witness:
  "ComputeConstraintsForScan example_externals 1 10 [10] None (translate 1) []
     second_scan_registered = Some triggered \<and>
   scan_index_to_node_id triggered = [NodeId 0 0, NodeId 0 1] \<and>
   NodeId 0 1 \<in> node_ids (the (submap_state_at triggered (SubmapId 0 0))) \<and>
   constraints triggered =
     constraints second_scan_registered @
     [\<lparr>submap_id = SubmapId 0 0, node_id = NodeId 0 1,
       relative_transform = inverse (translate 10) * translate 1,
       sqrt_information = [], tag = INTRA_SUBMAP\<rparr>] \<and>
   inter_submap_only scans_then_idle \<and>
   run example_externals scans_then_idle (SparsePoseGraph_new example_options) \<noteq> None \<and>
   intra_submap_ok
     (the (run example_externals scans_then_idle (SparsePoseGraph_new example_options)))"
proof -
  note T = intra_submap_constraints [where ext = example_externals]
  have pre: "GetSubmapId second_scan_registered 10 = Some (SubmapId 0 0)"
    "num_nodes_in_trajectory second_scan_registered 0 = 1"
    "scan_index_to_node_id second_scan_registered = [NodeId 0 0]"
    "lower_covariance_eigenvalue_bound (options second_scan_registered) = 1 / 1000"
    by (simp_all add: second_scan_registered_def example_defs cong: eval_congs)
  have a: "scan_index_to_node_id triggered = [NodeId 0 0, NodeId 0 1] \<and>
      NodeId 0 1 \<in> node_ids (the (submap_state_at triggered (SubmapId 0 0))) \<and>
      constraints triggered =
        constraints second_scan_registered @
        [\<lparr>submap_id = SubmapId 0 0, node_id = NodeId 0 1,
          relative_transform = inverse (translate 10) * translate 1,
          sqrt_information = [], tag = INTRA_SUBMAP\<rparr>]"
    using T [THEN conjunct1, rule_format, OF second_scan_registered_eval] pre
    by (auto simp: example_externals_def)
  have i: "inter_submap_only scans_then_idle"
    by (simp add: inter_submap_only_def scans_then_idle_def three_scans_def)
  obtain h where r: "run example_externals scans_then_idle (SparsePoseGraph_new example_options)
      = Some h"
    by (simp add: scans_then_idle_def example_defs DrainScanQueue.simps cong: eval_congs)
  have "intra_submap_ok h"
    using T [THEN conjunct2, rule_format, of scans_then_idle example_options h] i r by simp
  then show ?thesis
    using a i r second_scan_registered_eval by simp
qed

section \<open>Old scans against a finished submap\<close>

lemma ComputeConstraintsForOldScansLoop_filter:
  "ComputeConstraintsForOldScansLoop ext sid js g =
   propose_all ext sid
     (filter (\<lambda>j. scan_index_to_node_id g ! j \<notin>
                   node_ids (submap_states g ! SubmapId.trajectory_id sid ! submap_index sid)) js)
     g"
proof (induction js arbitrary: g)
  case Nil
  then show ?case by simp
next
  case (Cons j js)
  let ?skip = "\<lambda>g j. scan_index_to_node_id g ! j \<notin>
                   node_ids (submap_states g ! SubmapId.trajectory_id sid ! submap_index sid)"
  show ?case
  proof (cases "?skip g j")
    case False
    then show ?thesis
      using Cons.IH [of g] by (simp add: Let_def)
  next
    case True
    show ?thesis
    proof (cases "ComputeConstraint ext j sid g")
      case None
      then show ?thesis
        using True by (simp add: Let_def)
    next
      case (Some g1)
      then have "matcher_only g g1"
        by (rule ComputeConstraint_matcher_only)
      then have "?skip g1 = ?skip g"
        by (simp add: matcher_only_def)
      then show ?thesis
        using True Some Cons.IH [of g1] by (simp add: Let_def)
    qed
  qed
qed

lemma propose_all_matcher_only:
  "propose_all ext sid js g = Some g' \<Longrightarrow> matcher_only g g'"
proof (induction js arbitrary: g)
  case Nil
  then show ?case by simp
next
  case (Cons j js)
  then obtain g1 where a: "ComputeConstraint ext j sid g = Some g1"
    and b: "propose_all ext sid js g1 = Some g'"
    by (auto split: Option.bind_splits)
  show ?case
    using ComputeConstraint_matcher_only [OF a] Cons.IH [OF b] by (rule matcher_only_trans)
qed

lemma InsertionSubmapsLoop_Cons:
  assumes "InsertionSubmapsLoop ext n p c (s # rest) g = Some g'"
  shows "\<exists>sid state.
           submap_state_at g sid = Some state \<and>
           InsertionSubmapsLoop ext n p c rest
             (g\<lparr>submap_states :=
                  (submap_states g)
                    [SubmapId.trajectory_id sid :=
                       (submap_states g ! SubmapId.trajectory_id sid)
                         [submap_index sid := state\<lparr>node_ids := insert n (node_ids state)\<rparr>]],
                constraints := constraints g @ [intra_submap_constraint ext g n p c s]\<rparr>) =
             Some g'"
  using assms
  by (auto simp: CHECK_def Let_def intra_submap_constraint_def
           split: Option.bind_splits if_splits)

lemma InsertionSubmapsLoop_no_new_state:
  "InsertionSubmapsLoop ext n p c ins g = Some g' \<Longrightarrow> submap_state_at g' sid' = Some state' \<Longrightarrow>
   \<exists>state. submap_state_at g sid' = Some state"
proof (induction ins arbitrary: g)
  case Nil
  then show ?case by simp
next
  case (Cons s rest)
  from InsertionSubmapsLoop_Cons [OF Cons.prems(1)] obtain sid state where
    a: "submap_state_at g sid = Some state"
    and r: "InsertionSubmapsLoop ext n p c rest
             (g\<lparr>submap_states :=
                  (submap_states g)
                    [SubmapId.trajectory_id sid :=
                       (submap_states g ! SubmapId.trajectory_id sid)
                         [submap_index sid := state\<lparr>node_ids := insert n (node_ids state)\<rparr>]],
                constraints := constraints g @ [intra_submap_constraint ext g n p c s]\<rparr>) =
             Some g'"
    by blast
  from Cons.IH [OF r Cons.prems(2)] obtain state2 where
    "submap_state_at
       (g\<lparr>submap_states :=
            (submap_states g)
              [SubmapId.trajectory_id sid :=
                 (submap_states g ! SubmapId.trajectory_id sid)
                   [submap_index sid := state\<lparr>node_ids := insert n (node_ids state)\<rparr>]]\<rparr>)
       sid' = Some state2"
    by (auto simp: submap_state_at_def)
  then show ?case
    using a by (auto simp: submap_state_at_update [OF a] split: if_splits)
qed

lemma AddScan_RegisterScan:
  "AddScan ext t r p c trajectory m ins front_finished g =
   RegisterScan ext t r p trajectory ins g \<bind>
   AddWorkItem ext
     (ComputeConstraintsForScanItem (length (trajectory_nodes g)) m ins
        (if front_finished then Some (hd ins) else None) p c)"
  by (simp add: AddScan_def RegisterScan_def Let_def CHECK_def split: Option.bind_splits)

lemma NotifyAndMaybeOptimize_matcher:
  "NotifyAndMaybeOptimize i g = Some g' \<Longrightarrow>
   calls (constraint_builder g') = calls (constraint_builder g) @ [NotifyEndOfScan i] \<and>
   global_localization_samplers g' = global_localization_samplers g"
  by (auto simp: NotifyAndMaybeOptimize_def Let_def Call_def HandleScanQueue_def WhenDone_def
        split: Option.bind_splits if_splits)


lemma ComputeConstraintsForScan_finished_submap:
  assumes "ComputeConstraintsForScan ext scan_index m ins (Some f) p c g = Some g'"
  shows "\<exists>sid state0 state g1 n g3 g4 g5 g6.
           GrowSubmapTransformsAsNeeded ext ins g = Some g1 \<and>
           AllocateNode ext scan_index m p g1 = Some (n, g3) \<and>
           InsertionSubmapsLoop ext n p c ins g3 = Some g4 \<and>
           FinishedSubmapsLoop ext scan_index n (all_submap_ids g4) g4 = Some g5 \<and>
           GetSubmapId g f = Some sid \<and>
           submap_state_at g sid = Some state0 \<and> \<not> finished state0 \<and>
           submap_state_at g5 sid = Some state \<and> \<not> finished state \<and>
           node_ids state0 \<subseteq> node_ids state \<and>
           take scan_index (scan_index_to_node_id g5) = scan_index_to_node_id g \<and>
           length (scan_index_to_node_id g5) = Suc scan_index \<and>
           propose_all ext sid
             (filter (\<lambda>j. scan_index_to_node_id g5 ! j \<notin> node_ids state) [0..<Suc scan_index])
             g5 = Some g6 \<and>
           submap_states g6 = submap_states g5 \<and>
           NotifyAndMaybeOptimize scan_index
             (g6\<lparr>submap_states :=
                  (submap_states g6)
                    [SubmapId.trajectory_id sid :=
                       (submap_states g6 ! SubmapId.trajectory_id sid)
                         [submap_index sid := state\<lparr>finished := True\<rparr>]]\<rparr>) = Some g' \<and>
           submap_states g' =
             (submap_states g5)
               [SubmapId.trajectory_id sid :=
                  (submap_states g5 ! SubmapId.trajectory_id sid)
                    [submap_index sid := state\<lparr>finished := True\<rparr>]] \<and>
           submap_state_at g' sid = Some (state\<lparr>finished := True\<rparr>) \<and>
           calls (constraint_builder g') =
             calls (constraint_builder g6) @ [NotifyEndOfScan scan_index] \<and>
           global_localization_samplers g' = global_localization_samplers g6"
proof -
  from ComputeConstraintsForScan_steps [OF assms] obtain g1 n g3 g4 g5 g7 where
    s: "GrowSubmapTransformsAsNeeded ext ins g = Some g1"
      "AllocateNode ext scan_index m p g1 = Some (n, g3)"
      "InsertionSubmapsLoop ext n p c ins g3 = Some g4"
      "FinishedSubmapsLoop ext scan_index n (all_submap_ids g4) g4 = Some g5"
      "FinishSubmap ext f g5 = Some g7"
      "NotifyAndMaybeOptimize scan_index g7 = Some g'"
    by auto
  note grow = GrowSubmapTransformsAsNeeded_frame [OF s(1)]
  have g1: "submap_states g1 = submap_states g" "submap_ids g1 = submap_ids g"
    "scan_index_to_node_id g1 = scan_index_to_node_id g"
    by (subst grow, simp)+
  from AllocateNode_effect [OF s(2)] have
    g3: "scan_index = length (scan_index_to_node_id g)"
      "scan_index_to_node_id g3 = scan_index_to_node_id g @ [n]"
      "submap_states g3 = submap_states g" "submap_ids g3 = submap_ids g"
    using g1 by auto
  note L = InsertionSubmapsLoop_effect [OF s(3)]
  have k4: "states_kept g3 g4" and f4: "insertion_frame g3 g4"
    using L by blast+
  have m5: "matcher_only g4 g5"
    using s(4) by (rule FinishedSubmapsLoop_matcher_only)
  have ids5: "scan_index_to_node_id g5 = scan_index_to_node_id g @ [n]"
    "submap_ids g5 = submap_ids g"
    using m5 f4 g3
    by (simp_all add: matcher_only_def insertion_frame_def control_unchanged_def)
  from FinishSubmap_effect [OF s(5)] obtain sid state g6 where
    e: "GetSubmapId g5 f = Some sid" "submap_state_at g5 sid = Some state" "\<not> finished state"
      "ComputeConstraintsForOldScans ext f g5 = Some g6"
    and g7: "g7 = g6\<lparr>submap_states :=
                     (submap_states g6)
                       [SubmapId.trajectory_id sid :=
                          (submap_states g6 ! SubmapId.trajectory_id sid)
                            [submap_index sid := state\<lparr>finished := True\<rparr>]]\<rparr>"
    by blast
  have state5: "submap_states g5 ! SubmapId.trajectory_id sid ! submap_index sid = state"
    using e(2) by (simp add: submap_state_at_Some)
  have p: "propose_all ext sid
             (filter (\<lambda>j. scan_index_to_node_id g5 ! j \<notin> node_ids state) [0..<Suc scan_index])
             g5 = Some g6"
  proof -
    have len5: "length (scan_index_to_node_id g5) = Suc scan_index"
      using ids5(1) g3(1) by simp
    have "ComputeConstraintsForOldScansLoop ext sid [0..<length (scan_index_to_node_id g5)] g5 =
        Some g6"
      using e(1,2,4) by (simp add: ComputeConstraintsForOldScans_def Let_def)
    then show ?thesis
      unfolding ComputeConstraintsForOldScansLoop_filter state5 len5 .
  qed
  have m6: "matcher_only g5 g6"
    using e(4) by (rule ComputeConstraintsForOldScans_matcher_only)
  have st: "submap_states g6 = submap_states g5"
    using m6 by (simp add: matcher_only_def)
  have at6: "submap_state_at g6 sid = Some state"
    using e(2) st by (simp add: submap_state_at_def)
  have at7: "submap_state_at g7 sid = Some (state\<lparr>finished := True\<rparr>)"
    unfolding g7 by (simp add: submap_state_at_update [OF at6])
  note n' = NotifyAndMaybeOptimize_frame [OF s(6)]
  have at': "submap_state_at g' sid = Some (state\<lparr>finished := True\<rparr>)"
    using at7 n' by (simp add: submap_state_at_def)
  have notify: "NotifyAndMaybeOptimize scan_index
             (g6\<lparr>submap_states :=
                  (submap_states g6)
                    [SubmapId.trajectory_id sid :=
                       (submap_states g6 ! SubmapId.trajectory_id sid)
                         [submap_index sid := state\<lparr>finished := True\<rparr>]]\<rparr>) = Some g'"
    using s(6) unfolding g7 .
  have states': "submap_states g' =
             (submap_states g5)
               [SubmapId.trajectory_id sid :=
                  (submap_states g5 ! SubmapId.trajectory_id sid)
                    [submap_index sid := state\<lparr>finished := True\<rparr>]]"
    using n' st by (simp add: g7)
  have matcher': "calls (constraint_builder g') =
             calls (constraint_builder g6) @ [NotifyEndOfScan scan_index]"
    "global_localization_samplers g' = global_localization_samplers g6"
    using NotifyAndMaybeOptimize_matcher [OF s(6)] by (simp_all add: g7)
  have at4: "submap_state_at g4 sid = Some state"
    using e(2) m5 by (simp add: matcher_only_def submap_state_at_def)
  have "\<exists>state0. submap_state_at g sid = Some state0 \<and> \<not> finished state0 \<and>
      node_ids state0 \<subseteq> node_ids state"
  proof -
    from InsertionSubmapsLoop_no_new_state [OF s(3) at4] obtain state0 where
      a: "submap_state_at g3 sid = Some state0"
      by blast
    then obtain state4 where "submap_state_at g4 sid = Some state4"
      and "finished state4 = finished state0" and "node_ids state0 \<subseteq> node_ids state4"
      using k4 unfolding states_kept_def by blast
    then have "\<not> finished state0" "node_ids state0 \<subseteq> node_ids state"
      using at4 e(3) by simp_all
    moreover have "submap_state_at g sid = Some state0"
      using a g3(3) by (simp add: submap_state_at_def)
    ultimately show ?thesis
      by blast
  qed
  then obtain state0 where
    z: "submap_state_at g sid = Some state0" "\<not> finished state0"
      "node_ids state0 \<subseteq> node_ids state"
    by blast
  have id: "GetSubmapId g f = Some sid"
    using e(1) ids5(2) by (simp add: GetSubmapId_def)
  have tk: "take scan_index (scan_index_to_node_id g5) = scan_index_to_node_id g"
    and ln: "length (scan_index_to_node_id g5) = Suc scan_index"
    using ids5(1) g3(1) by simp_all
  show ?thesis
    apply (rule exI [of _ sid], rule exI [of _ state0], rule exI [of _ state])
    apply (rule exI [of _ g1], rule exI [of _ n], rule exI [of _ g3], rule exI [of _ g4])
    apply (rule exI [of _ g5], rule exI [of _ g6])
    apply (intro conjI)
    apply (fact s(1) s(2) s(3) s(4) id z e(2) e(3) tk ln p st notify states' at' matcher')+
    done
qed

text \<open>
  Claim C8. \<open>AddScan\<close> with the first insertion submap marked finished at the call is the
  registration of the scan followed by the work item that carries the first insertion
  submap as the finished submap. The constraint computation of a scan with a finished
  submap, when it returns \<open>g'\<close>, has passed these states: \<open>g5\<close>, reached from \<open>g\<close> by
  \<open>GrowSubmapTransformsAsNeeded\<close>, the allocation of the node and the loops over the
  insertion submaps and over the finished submaps, in which the finished submap is
  registered with its flag false (as it was in \<open>g\<close>) and the scans up to
  \<open>scan_index\<close> have node ids, those of \<open>g\<close> first; and \<open>g6\<close>, reached from \<open>g5\<close> by
  \<open>ComputeConstraint\<close> against the submap for every scan index up to \<open>scan_index\<close> whose
  node id is not among the node ids of the submap, in order, which leaves the submap
  states alone. \<open>g'\<close> is the result of the last block (\<open>NotifyAndMaybeOptimize\<close>) on
  \<open>g6\<close> with the flag of the submap set: its submap states are those of \<open>g5\<close> but for
  this flag, and its log of calls is that of \<open>g6\<close> followed by \<^verbatim>\<open>NotifyEndOfScan\<close>.
\<close>

theorem finished_submap_old_scans:
  fixes ext :: "'p::{times, one, inverse} Externals"
  shows
    "AddScan ext t range_data scan_pose covariance trajectory matching_submap
       insertion_submaps True g0 =
     RegisterScan ext t range_data scan_pose trajectory insertion_submaps g0 \<bind>
     AddWorkItem ext
       (ComputeConstraintsForScanItem (length (trajectory_nodes g0)) matching_submap
          insertion_submaps (Some (hd insertion_submaps)) scan_pose covariance) \<and>
     (ComputeConstraintsForScan ext scan_index matching_submap insertion_submaps
        (Some finished_submap) scan_pose covariance g = Some g' \<longrightarrow>
      (\<exists>the_submap_id state0 state g1 the_node_id g3 g4 g5 g6.
         GrowSubmapTransformsAsNeeded ext insertion_submaps g = Some g1 \<and>
         AllocateNode ext scan_index matching_submap scan_pose g1 = Some (the_node_id, g3) \<and>
         InsertionSubmapsLoop ext the_node_id scan_pose covariance insertion_submaps g3 =
           Some g4 \<and>
         FinishedSubmapsLoop ext scan_index the_node_id (all_submap_ids g4) g4 = Some g5 \<and>
         GetSubmapId g finished_submap = Some the_submap_id \<and>
         submap_state_at g the_submap_id = Some state0 \<and> \<not> finished state0 \<and>
         submap_state_at g5 the_submap_id = Some state \<and> \<not> finished state \<and>
         node_ids state0 \<subseteq> node_ids state \<and>
         take scan_index (scan_index_to_node_id g5) = scan_index_to_node_id g \<and>
         length (scan_index_to_node_id g5) = Suc scan_index \<and>
         propose_all ext the_submap_id
           (filter (\<lambda>j. scan_index_to_node_id g5 ! j \<notin> node_ids state) [0..<Suc scan_index])
           g5 = Some g6 \<and>
         submap_states g6 = submap_states g5 \<and>
         NotifyAndMaybeOptimize scan_index
           (g6\<lparr>submap_states :=
                (submap_states g6)
                  [SubmapId.trajectory_id the_submap_id :=
                     (submap_states g6 ! SubmapId.trajectory_id the_submap_id)
                       [submap_index the_submap_id := state\<lparr>finished := True\<rparr>]]\<rparr>) =
           Some g' \<and>
         submap_states g' =
           (submap_states g5)
             [SubmapId.trajectory_id the_submap_id :=
                (submap_states g5 ! SubmapId.trajectory_id the_submap_id)
                  [submap_index the_submap_id := state\<lparr>finished := True\<rparr>]] \<and>
         submap_state_at g' the_submap_id = Some (state\<lparr>finished := True\<rparr>) \<and>
         calls (constraint_builder g') =
           calls (constraint_builder g6) @ [NotifyEndOfScan scan_index] \<and>
         global_localization_samplers g' = global_localization_samplers g6))"
proof (intro conjI impI)
  show "AddScan ext t range_data scan_pose covariance trajectory matching_submap
       insertion_submaps True g0 =
     RegisterScan ext t range_data scan_pose trajectory insertion_submaps g0 \<bind>
     AddWorkItem ext
       (ComputeConstraintsForScanItem (length (trajectory_nodes g0)) matching_submap
          insertion_submaps (Some (hd insertion_submaps)) scan_pose covariance)"
    by (simp add: AddScan_RegisterScan)
next
  assume "ComputeConstraintsForScan ext scan_index matching_submap insertion_submaps
        (Some finished_submap) scan_pose covariance g = Some g'"
  then show "\<exists>the_submap_id state0 state g1 the_node_id g3 g4 g5 g6.
         GrowSubmapTransformsAsNeeded ext insertion_submaps g = Some g1 \<and>
         AllocateNode ext scan_index matching_submap scan_pose g1 = Some (the_node_id, g3) \<and>
         InsertionSubmapsLoop ext the_node_id scan_pose covariance insertion_submaps g3 =
           Some g4 \<and>
         FinishedSubmapsLoop ext scan_index the_node_id (all_submap_ids g4) g4 = Some g5 \<and>
         GetSubmapId g finished_submap = Some the_submap_id \<and>
         submap_state_at g the_submap_id = Some state0 \<and> \<not> finished state0 \<and>
         submap_state_at g5 the_submap_id = Some state \<and> \<not> finished state \<and>
         node_ids state0 \<subseteq> node_ids state \<and>
         take scan_index (scan_index_to_node_id g5) = scan_index_to_node_id g \<and>
         length (scan_index_to_node_id g5) = Suc scan_index \<and>
         propose_all ext the_submap_id
           (filter (\<lambda>j. scan_index_to_node_id g5 ! j \<notin> node_ids state) [0..<Suc scan_index])
           g5 = Some g6 \<and>
         submap_states g6 = submap_states g5 \<and>
         NotifyAndMaybeOptimize scan_index
           (g6\<lparr>submap_states :=
                (submap_states g6)
                  [SubmapId.trajectory_id the_submap_id :=
                     (submap_states g6 ! SubmapId.trajectory_id the_submap_id)
                       [submap_index the_submap_id := state\<lparr>finished := True\<rparr>]]\<rparr>) =
           Some g' \<and>
         submap_states g' =
           (submap_states g5)
             [SubmapId.trajectory_id the_submap_id :=
                (submap_states g5 ! SubmapId.trajectory_id the_submap_id)
                  [submap_index the_submap_id := state\<lparr>finished := True\<rparr>]] \<and>
         submap_state_at g' the_submap_id = Some (state\<lparr>finished := True\<rparr>) \<and>
         calls (constraint_builder g') =
           calls (constraint_builder g6) @ [NotifyEndOfScan scan_index] \<and>
         global_localization_samplers g' = global_localization_samplers g6"
    by (rule ComputeConstraintsForScan_finished_submap)
qed

lemmas third_scan_defs =
  third_scan_registered_def RegisterScan_def two_scans_done_def synchronous_options_def
  example_defs

theorem finished_submap_old_scans_witness:
  "RegisterScan example_externals 2 [] (translate 2) 1 [11, 12] two_scans_done =
     Some third_scan_registered \<and>
   AddScan example_externals 2 [] (translate 2) [] 1 11 [11, 12] True two_scans_done =
     ComputeConstraintsForScan example_externals 2 11 [11, 12] (Some 11) (translate 2) []
       third_scan_registered \<and>
   ComputeConstraintsForScan example_externals 2 11 [11, 12] (Some 11) (translate 2) []
     third_scan_registered \<noteq> None \<and>
   (let g' = the (ComputeConstraintsForScan example_externals 2 11 [11, 12] (Some 11)
                    (translate 2) [] third_scan_registered)
    in finished (the (submap_state_at g' (SubmapId 0 1))) \<and>
       calls (constraint_builder g') =
         calls (constraint_builder two_scans_done) @
         [MaybeAddConstraint (SubmapId 0 1) 11 (NodeId 0 0) 0
            (inverse (1 * inverse (translate 10) * translate 11) *
             (1 * inverse (translate 10) * translate 0)),
          NotifyEndOfScan 2])"
proof -
  note T = finished_submap_old_scans [where ext = example_externals]
  have r: "RegisterScan example_externals 2 [] (translate 2) 1 [11, 12] two_scans_done =
      Some third_scan_registered"
    by (simp add: third_scan_defs cong: eval_congs)
  have q: "scan_queue third_scan_registered = None"
    "length (trajectory_nodes two_scans_done) = 2"
    by (simp_all add: third_scan_defs cong: eval_congs)
  have "AddScan example_externals 2 [] (translate 2) [] 1 11 [11, 12] True two_scans_done =
     RegisterScan example_externals 2 [] (translate 2) 1 [11, 12] two_scans_done \<bind>
     AddWorkItem example_externals
       (ComputeConstraintsForScanItem (length (trajectory_nodes two_scans_done)) 11 [11, 12]
          (Some (hd [11, 12])) (translate 2) [])"
    by (rule T [THEN conjunct1])
  also have "\<dots> =
     ComputeConstraintsForScan example_externals 2 11 [11, 12] (Some 11) (translate 2) []
       third_scan_registered"
    unfolding r q(2) by (simp add: q(1) AddWorkItem_def)
  finally have a:
    "AddScan example_externals 2 [] (translate 2) [] 1 11 [11, 12] True two_scans_done =
     ComputeConstraintsForScan example_externals 2 11 [11, 12] (Some 11) (translate 2) []
       third_scan_registered" .
  obtain g' where c: "ComputeConstraintsForScan example_externals 2 11 [11, 12] (Some 11)
      (translate 2) [] third_scan_registered = Some g'"
    and calls: "calls (constraint_builder g') =
         calls (constraint_builder two_scans_done) @
         [MaybeAddConstraint (SubmapId 0 1) 11 (NodeId 0 0) 0
            (inverse (1 * inverse (translate 10) * translate 11) *
             (1 * inverse (translate 10) * translate 0)),
          NotifyEndOfScan 2]"
    by (simp add: third_scan_defs cong: eval_congs)
  have id: "GetSubmapId third_scan_registered 11 = Some (SubmapId 0 1)"
    by (simp add: third_scan_defs cong: eval_congs)
  from T [THEN conjunct2, rule_format, OF c] id
  have "\<exists>state. submap_state_at g' (SubmapId 0 1) = Some (state\<lparr>finished := True\<rparr>)"
    by auto
  then have "finished (the (submap_state_at g' (SubmapId 0 1)))"
    by auto
  then show ?thesis
    using r a c calls by simp
qed

end
